(* ===== verification/Prelude.thy ===== *)
theory Prelude
  imports Main
begin

text \<open>
  Shared vocabulary of the development.  The dashboard is JavaScript, so the model needs
  the few pieces of JavaScript semantics the components rely on: the \<open>x || default\<close>
  idiom on fields that may be absent from a JSON body, and the conversion of an integer
  to its decimal text (template literals such as \<open>`error-${id}`\<close>).  The collection
  \<open>model_simps\<close> gathers the characteristic equations of these helpers, so component
  proofs say \<open>simp add: model_simps\<close> rather than unfolding each helper by hand.
\<close>

named_theorems model_simps "characteristic equations of the JavaScript helpers"

type_synonym millis = nat

section \<open>Absent JSON fields and the \<open>||\<close> idiom\<close>

text \<open>
  A JSON field is \<open>None\<close> when the body does not carry it (JavaScript reads it as
  \<open>undefined\<close>).  \<open>x || []\<close> keeps an array, present arrays being truthy even when
  empty; \<open>x || 'N/A'\<close> replaces an absent field and the empty string, which is falsy;
  \<open>x || 0\<close> replaces an absent counter (a present \<open>0\<close> stays \<open>0\<close>).
\<close>

definition or_nil :: "'a list option \<Rightarrow> 'a list" where
  "or_nil x = (case x of None \<Rightarrow> [] | Some xs \<Rightarrow> xs)"

definition or_na :: "string option \<Rightarrow> string" where
  "or_na x = (case x of None \<Rightarrow> ''N/A'' | Some s \<Rightarrow> if s = [] then ''N/A'' else s)"

definition or_zero :: "nat option \<Rightarrow> nat" where
  "or_zero x = (case x of None \<Rightarrow> 0 | Some n \<Rightarrow> n)"

text \<open>JSX renders an absent field, \<open>{x}\<close> with \<open>x\<close> undefined, as no text at all.\<close>

definition text_of :: "string option \<Rightarrow> string" where
  "text_of x = (case x of None \<Rightarrow> [] | Some s \<Rightarrow> s)"

lemma or_nil_simps [simp, model_simps]:
  "or_nil None = []" "or_nil (Some xs) = xs"
  by (simp_all add: or_nil_def)

lemma or_na_simps [simp, model_simps]:
  "or_na None = ''N/A''" "or_na (Some []) = ''N/A''" "s \<noteq> [] \<Longrightarrow> or_na (Some s) = s"
  by (simp_all add: or_na_def)

lemma or_zero_simps [simp, model_simps]:
  "or_zero None = 0" "or_zero (Some n) = n"
  by (simp_all add: or_zero_def)

lemma or_na_nonempty: "or_na x \<noteq> []"
  by (simp add: or_na_def split: option.splits)

section \<open>Decimal text of an integer\<close>

text \<open>
  JavaScript's \<open>String(n)\<close> of an integral number: the decimal digits, with a leading
  \<open>-\<close> for a negative value.
\<close>

fun dec_digits :: "nat \<Rightarrow> string" where
  "dec_digits n =
     (if n < 10 then [char_of (48 + n)] else dec_digits (n div 10) @ [char_of (48 + n mod 10)])"

declare dec_digits.simps [simp del]

definition int_text :: "int \<Rightarrow> string" where
  "int_text i = (if i < 0 then CHR ''-'' # dec_digits (nat (- i)) else dec_digits (nat i))"

definition is_digit :: "char \<Rightarrow> bool" where
  "is_digit c \<longleftrightarrow> 48 \<le> (of_char c :: nat) \<and> (of_char c :: nat) \<le> 57"

lemma is_digit_char_of: "(d::nat) < 10 \<Longrightarrow> is_digit (char_of (48 + d))"
  by (simp add: is_digit_def of_char_of)

lemma dec_digits_digits: "c \<in> set (dec_digits n) \<Longrightarrow> is_digit c"
proof (induction n rule: dec_digits.induct)
  case (1 n)
  show ?case
  proof (cases "n < 10")
    case True
    with "1.prems" show ?thesis by (simp add: dec_digits.simps [of n] is_digit_char_of)
  next
    case False
    with "1.prems" "1.IH" show ?thesis
      by (auto simp: dec_digits.simps [of n] is_digit_char_of)
  qed
qed

lemma dec_digits_nonempty: "dec_digits n \<noteq> []"
  by (subst dec_digits.simps) simp

lemma int_text_chars: "c \<in> set (int_text i) \<Longrightarrow> is_digit c \<or> c = CHR ''-''"
  by (auto simp: int_text_def dec_digits_digits split: if_splits)

lemma int_text_nonempty: "int_text i \<noteq> []"
  by (simp add: int_text_def dec_digits_nonempty)

section \<open>Lists\<close>

text \<open>With distinct keys, at most one element has a given key.\<close>

lemma distinct_filter_key: "distinct (map f xs) \<Longrightarrow> length (filter (\<lambda>x. f x = k) xs) \<le> 1"
proof (induction xs)
  case (Cons x xs)
  then have "f x = k \<Longrightarrow> filter (\<lambda>y. f y = k) xs = []"
    by (auto simp: filter_empty_conv image_iff)
  with Cons show ?case by auto
qed simp

end
