(* ===== verification/Scheduler.thy ===== *)
theory Scheduler
  imports Complex_Main Prelude
begin

text \<open>
  The refresh scheduler of \<open>Dashboard.js\<close> (lines 82--105): the delay to the next
  five-minute wall-clock boundary, and the timers the mount effect creates and its
  cleanup cancels.  A clock reading is a count of local milliseconds, so that
  \<open>getMinutes\<close> and \<open>getSeconds\<close> are its minute and second fields.
\<close>

section \<open>Delay to the next boundary\<close>

definition getMinutes :: "millis \<Rightarrow> nat" where
  "getMinutes t = t div 60000 mod 60"

definition getSeconds :: "millis \<Rightarrow> nat" where
  "getSeconds t = t div 1000 mod 60"

text \<open>
  \<open>getTimeUntilNextSync\<close>, line by line: \<open>Math.ceil(minutes / 5) * 5\<close> is the ceiling
  of an exact quotient, written over \<open>rat\<close>; the result is in milliseconds and floored
  at \<open>0\<close> by \<open>Math.max\<close>.
\<close>

definition getTimeUntilNextSync :: "millis \<Rightarrow> int" where
  "getTimeUntilNextSync now =
     (let minutes = int (getMinutes now);
          seconds = int (getSeconds now);
          nextBoundary = \<lceil>of_int minutes / (5::rat)\<rceil> * 5;
          waitMinutes = nextBoundary - minutes;
          waitSeconds = waitMinutes * 60 - seconds
      in max 0 (waitSeconds * 1000))"

section \<open>Timers\<close>

text \<open>
  The mount effect calls \<open>fetchData\<close> once and arms a one-shot timeout; when the
  timeout fires it calls \<open>fetchData\<close> and starts a five-minute interval.  The callback
  returns \<open>() => clearInterval(interval)\<close>, but a timer callback's return value is
  discarded, so nothing ever clears the interval: the effect's cleanup clears only the
  timeout.  \<open>sched_step\<close> answers \<open>None\<close> for an event that cannot happen in the
  given state, and otherwise the next state and whether the event calls \<open>fetchData\<close>.
\<close>

record sched =
  timeout_pending :: bool
  interval_active :: bool
  mounted :: bool

datatype timer_event = TimeoutFires | IntervalTick | Unmount

definition sched_mount :: sched where
  "sched_mount = \<lparr>timeout_pending = True, interval_active = False, mounted = True\<rparr>"

fun sched_step :: "sched \<Rightarrow> timer_event \<Rightarrow> (sched \<times> bool) option" where
  "sched_step s TimeoutFires =
     (if timeout_pending s
      then Some (s\<lparr>timeout_pending := False, interval_active := True\<rparr>, True) else None)"
| "sched_step s IntervalTick = (if interval_active s then Some (s, True) else None)"
| "sched_step s Unmount =
     (if mounted s then Some (s\<lparr>mounted := False, timeout_pending := False\<rparr>, False) else None)"

text \<open>A run of timer events, collecting how many of them called \<open>fetchData\<close>.\<close>

fun sched_run :: "sched \<Rightarrow> timer_event list \<Rightarrow> (sched \<times> nat) option" where
  "sched_run s [] = Some (s, 0)"
| "sched_run s (e # es) =
     (case sched_step s e of
        None \<Rightarrow> None
      | Some (s', f) \<Rightarrow>
          (case sched_run s' es of
             None \<Rightarrow> None
           | Some (s'', n) \<Rightarrow> Some (s'', (if f then 1 else 0) + n)))"

text \<open>A state with neither timer armed calls \<open>fetchData\<close> on no event.\<close>

definition sched_quiet :: "sched \<Rightarrow> bool" where
  "sched_quiet s \<longleftrightarrow> \<not> timeout_pending s \<and> \<not> interval_active s"

section \<open>Arithmetic of the delay\<close>

lemma ceil_div5: "\<lceil>of_nat m / (5::rat)\<rceil> = int ((m + 4) div 5)"
proof -
  have "\<lceil>of_nat m / (5::rat)\<rceil> = - \<lfloor>of_int (- int m) / (5::rat)\<rfloor>"
    by (simp add: ceiling_def)
  also have "\<lfloor>of_int (- int m) / (5::rat)\<rfloor> = (- int m) div 5"
    by (metis floor_divide_of_int_eq of_int_numeral)
  also have "- ((- int m) div 5) = int ((m + 4) div 5)"
    by presburger
  finally show ?thesis .
qed

lemma getTimeUntilNextSync_eq:
  "getTimeUntilNextSync now =
     max 0 (((int (((getMinutes now + 4) div 5) * 5) - int (getMinutes now)) * 60
             - int (getSeconds now)) * 1000)"
  unfolding getTimeUntilNextSync_def Let_def of_int_of_nat_eq ceil_div5
  by simp

lemma clock_fields_bounds: "getMinutes t < 60" "getSeconds t < 60"
  by (simp_all add: getMinutes_def getSeconds_def)

text \<open>The position of a clock reading in its five-minute slot, in whole seconds.\<close>

lemma slot_seconds:
  "t div 1000 mod 300 = (getMinutes t mod 5) * 60 + getSeconds t"
proof -
  have m: "getMinutes t mod 5 = t div 1000 div 60 mod 5"
    by (simp add: getMinutes_def div_mult2_eq [symmetric] mod_mod_cancel)
  have "t div 1000 mod 300 = (t div 1000 div 60 mod 5) * 60 + t div 1000 mod 60"
    using mod_mult2_eq [of "t div 1000" 60 5] by (simp add: mult.commute)
  with m show ?thesis by (simp add: getSeconds_def)
qed

lemma nat_wait_ms:
  "(b::nat) \<le> a \<Longrightarrow> nat (max 0 (((int a - int b) * 60 - int c) * 1000)) = ((a - b) * 60 - c) * 1000"
proof -
  assume "b \<le> a"
  then have e: "(int a - int b) * 60 - int c = int ((a - b) * 60) - int c"
    by (simp add: of_nat_diff)
  show ?thesis
  proof (cases "c \<le> (a - b) * 60")
    case True
    then show ?thesis unfolding e by (simp add: of_nat_diff [symmetric] nat_mult_distrib)
  next
    case False
    then show ?thesis unfolding e by simp
  qed
qed

lemma wait_minutes: "((m + 4) div 5) * 5 - m = 4 - (m mod 5 + 4) mod (5::nat)"
proof -
  have "((m + 4) div 5) * 5 = m + 4 - (m + 4) mod 5"
    using div_mult_mod_eq [of "m + 4" 5] by arith
  moreover have "(m + 4) mod 5 = (m mod 5 + 4) mod 5" by (simp add: mod_add_left_eq)
  ultimately show ?thesis by simp
qed

lemma mod5_cases: "(m::nat) mod 5 = 0 \<or> m mod 5 = 1 \<or> m mod 5 = 2 \<or> m mod 5 = 3 \<or> m mod 5 = 4"
  by arith

lemma sync_delay_nat:
  "nat (getTimeUntilNextSync t) =
     ((((getMinutes t + 4) div 5) * 5 - getMinutes t) * 60 - getSeconds t) * 1000"
proof -
  have "((getMinutes t + 4) div 5) * 5 = getMinutes t + 4 - (getMinutes t + 4) mod 5"
    using div_mult_mod_eq [of "getMinutes t + 4" 5] by arith
  then have "getMinutes t \<le> ((getMinutes t + 4) div 5) * 5" by simp
  then show ?thesis unfolding getTimeUntilNextSync_eq by (rule nat_wait_ms)
qed

lemma sync_delay_nonneg: "0 \<le> getTimeUntilNextSync t"
  by (simp add: getTimeUntilNextSync_def)

lemma shift_whole_seconds: "(t + k * 1000) div 1000 = t div 1000 + (k::nat)"
  by simp

section \<open>Properties of the delay\<close>

text \<open>
  C19.  The delay is never negative and never reaches five minutes: at most four minutes,
  the wait from the first second of a slot's second minute.
\<close>

theorem sync_delay_bounds: "0 \<le> getTimeUntilNextSync t \<and> getTimeUntilNextSync t \<le> 240000"
proof -
  have "((getMinutes t + 4) div 5) * 5 - getMinutes t \<le> 4"
    unfolding wait_minutes by simp
  then have "nat (getTimeUntilNextSync t) \<le> 240000"
    unfolding sync_delay_nat by simp
  with sync_delay_nonneg [of t] show ?thesis by simp
qed

text \<open>
  C20.  Away from the first minute of a slot, and at its very first second, the timeout
  lands exactly on a five-minute boundary of the clock (to the second; the milliseconds
  of the reading are carried along, since the code ignores them).
\<close>

theorem sync_delay_aligned:
  assumes "\<not> (getMinutes t mod 5 = 0 \<and> 0 < getSeconds t)"
  shows "(t + nat (getTimeUntilNextSync t)) div 1000 mod 300 = 0"
proof -
  have b: "getSeconds t < 60" by (rule clock_fields_bounds)
  have "(t + nat (getTimeUntilNextSync t)) div 1000 mod 300
        = ((getMinutes t mod 5) * 60 + getSeconds t
           + ((4 - (getMinutes t mod 5 + 4) mod 5) * 60 - getSeconds t)) mod 300"
    unfolding sync_delay_nat shift_whole_seconds wait_minutes
    by (simp add: mod_add_left_eq slot_seconds [symmetric])
  also have "\<dots> = 0"
    using mod5_cases [of "getMinutes t"] assms b by auto
  finally show ?thesis .
qed

theorem sync_delay_aligned_witness:
  "\<not> (getMinutes 36150000 mod 5 = 0 \<and> 0 < getSeconds 36150000)
   \<and> (36150000 + nat (getTimeUntilNextSync 36150000)) div 1000 mod 300 = 0"
proof -
  have h: "\<not> (getMinutes 36150000 mod 5 = 0 \<and> 0 < getSeconds 36150000)"
    by (simp add: getMinutes_def getSeconds_def)
  show ?thesis using h sync_delay_aligned [OF h] by blast
qed

text \<open>
  C21.  Inside the first minute of a slot, past its first second (10:05:30, say),
  \<open>Math.ceil(minutes / 5) * 5\<close> is the current minute, the wait is negative and is
  floored to \<open>0\<close>: the timeout fires at once, off the boundary, and the interval it
  starts keeps that offset.  The spec's claim that every reading lands on a boundary
  fails here.
\<close>

theorem sync_delay_off_boundary:
  assumes "getMinutes t mod 5 = 0" and "0 < getSeconds t"
  shows "getTimeUntilNextSync t = 0 \<and> (t + nat (getTimeUntilNextSync t)) div 1000 mod 300 \<noteq> 0"
proof -
  have "nat (getTimeUntilNextSync t) = 0"
    unfolding sync_delay_nat wait_minutes using assms(1) by simp
  with sync_delay_nonneg [of t] have d: "getTimeUntilNextSync t = 0" by simp
  have "t div 1000 mod 300 \<noteq> 0" unfolding slot_seconds using assms by simp
  with d show ?thesis by simp
qed

theorem sync_delay_off_boundary_witness:
  "getMinutes 36330000 mod 5 = 0 \<and> 0 < getSeconds 36330000
   \<and> getTimeUntilNextSync 36330000 = 0
   \<and> (36330000 + nat (getTimeUntilNextSync 36330000)) div 1000 mod 300 \<noteq> 0"
proof -
  have h1: "getMinutes 36330000 mod 5 = 0" and h2: "0 < getSeconds 36330000"
    by (simp_all add: getMinutes_def getSeconds_def)
  show ?thesis using h1 h2 sync_delay_off_boundary [OF h1 h2] by blast
qed

text \<open>
  The two readings of spec section 8: at 10:02:30 the delay is 150 seconds, at
  10:00:00 it is 0 (clock readings in milliseconds since local midnight).
\<close>

lemma sync_delay_examples:
  "getTimeUntilNextSync 36150000 = 150000 \<and> getTimeUntilNextSync 36000000 = 0"
  by (simp add: getTimeUntilNextSync_eq getMinutes_def getSeconds_def)

section \<open>Properties of the timers\<close>

lemma sched_step_quiet:
  "sched_quiet s \<Longrightarrow> sched_step s e = Some (s', f) \<Longrightarrow> sched_quiet s' \<and> \<not> f"
  by (cases e) (auto simp: sched_quiet_def split: if_splits)

lemma sched_run_quiet: "sched_quiet s \<Longrightarrow> sched_run s es = Some (s', n) \<Longrightarrow> n = 0"
proof (induction es arbitrary: s n)
  case Nil
  then show ?case by simp
next
  case (Cons e es)
  from Cons.prems(2) obtain t f m where
    st: "sched_step s e = Some (t, f)" and rt: "sched_run t es = Some (s', m)"
    and n: "n = (if f then 1 else 0) + m"
    by (auto split: option.splits prod.splits)
  from sched_step_quiet [OF Cons.prems(1) st] have "sched_quiet t" "\<not> f" by auto
  with Cons.IH [OF _ rt] n show ?case by simp
qed

lemma sched_ticks:
  "interval_active s \<Longrightarrow> sched_run s (replicate k IntervalTick) = Some (s, k)"
  by (induction k) auto

text \<open>
  C22.  Teardown before the first boundary is clean: after the cleanup has cleared the
  pending timeout, no sequence of timer events calls \<open>fetchData\<close> again.
\<close>

theorem sched_unmount_before_timeout:
  assumes "sched_step sched_mount Unmount = Some (s, f)"
    and "sched_run s es = Some (s', n)"
  shows "\<not> f \<and> n = 0"
proof -
  from assms(1) have "sched_quiet s" "\<not> f"
    by (auto simp: sched_mount_def sched_quiet_def)
  with sched_run_quiet [OF _ assms(2)] show ?thesis by simp
qed

theorem sched_unmount_before_timeout_witness:
  "sched_step sched_mount Unmount
     = Some (\<lparr>timeout_pending = False, interval_active = False, mounted = False\<rparr>, False)
   \<and> sched_run \<lparr>timeout_pending = False, interval_active = False, mounted = False\<rparr> []
     = Some (\<lparr>timeout_pending = False, interval_active = False, mounted = False\<rparr>, 0)
   \<and> \<not> False \<and> (0::nat) = 0"
proof -
  let ?u = "\<lparr>timeout_pending = False, interval_active = False, mounted = False\<rparr>"
  have h1: "sched_step sched_mount Unmount = Some (?u, False)"
    by (simp add: sched_mount_def)
  have h2: "sched_run ?u [] = Some (?u, 0)"
    by simp
  show ?thesis using h1 h2 sched_unmount_before_timeout [OF h1 h2] by simp
qed

text \<open>
  C23.  Teardown after the first boundary leaks the interval: once the timeout has fired,
  the cleanup clears nothing that is still armed, and every later tick calls
  \<open>fetchData\<close> on the unmounted dashboard.  After the timeout, an unmount and \<open>k\<close>
  ticks, \<open>fetchData\<close> has run \<open>k + 1\<close> times, \<open>k\<close> of them after teardown.
\<close>

theorem sched_interval_leaks:
  "sched_run sched_mount ([TimeoutFires, Unmount] @ replicate k IntervalTick)
     = Some (\<lparr>timeout_pending = False, interval_active = True, mounted = False\<rparr>, Suc k)"
proof -
  let ?u = "\<lparr>timeout_pending = False, interval_active = True, mounted = False\<rparr>"
  have "sched_run ?u (replicate k IntervalTick) = Some (?u, k)"
    by (rule sched_ticks) simp
  then show ?thesis by (simp add: sched_mount_def)
qed

end
