(* ===== verification/Telemetry.thy ===== *)
theory Telemetry
  imports Complex_Main Prelude
begin

text \<open>
  The data the console reads from the telemetry API (spec section 3 and 6) and the four
  requests it issues.  Records follow the JSON bodies field by field; a field the
  components guard with \<open>?.\<close> or \<open>||\<close> is an \<open>option\<close>, because the code is written
  for bodies that lack it (the initial detail state is the empty object \<open>{}\<close>).
  Field names carry a short prefix of their record, since record fields share one
  name space.
\<close>

section \<open>Identities\<close>

text \<open>
  An error group's \<open>id\<close> is whatever JSON scalar the backend sends.  The client treats it
  in two ways: strict equality (\<open>===\<close>) compares the value itself, while template
  literals (\<open>`error-${error.id}`\<close>, the share link) use its text.
\<close>

datatype err_id = IdStr string | IdNum int

fun id_text :: "err_id \<Rightarrow> string" where
  "id_text (IdStr s) = s"
| "id_text (IdNum n) = int_text n"

section \<open>Records of the API\<close>

record error_group =
  eg_id :: err_id
  eg_env :: string
  eg_service :: string
  eg_exception :: string
  eg_root_name :: "string option"
  eg_span_kind :: string
  eg_http_code :: int
  eg_count :: int
  eg_window_start :: string
  eg_window_end :: string

record trace =
  tr_trace_id_hex :: string
  tr_trace_id_b64 :: string
  tr_created_at :: string

text \<open>A span's duration is in seconds, a JSON number; \<open>rat\<close> holds it exactly.\<close>

record span =
  sp_trace_id_hex :: "string option"
  sp_trace_id :: "string option"
  sp_span_id :: string
  sp_operation_name :: "string option"
  sp_duration :: "rat option"
  sp_start_time :: "string option"
  sp_tags :: "(string \<times> string) list option"

record log_data =
  ld_level :: "string option"
  ld_message :: "string option"
  ld_timestamp :: "string option"

record log_entry =
  lg_trace_id_hex :: "string option"
  lg_trace_id :: "string option"
  lg_log_data :: "log_data option"
  lg_created_at :: string

record rca_report =
  rca_analysis_summary :: string
  rca_created_at :: string

text \<open>The body of \<open>GET errors/{id}\<close>.\<close>

record error_detail =
  dt_error :: "error_group option"
  dt_traces :: "trace list option"
  dt_spans :: "span list option"
  dt_logs :: "log_entry list option"
  dt_rca_report :: "rca_report option"

definition empty_detail :: error_detail where
  "empty_detail = \<lparr>dt_error = None, dt_traces = None, dt_spans = None, dt_logs = None,
                   dt_rca_report = None\<rparr>"

text \<open>The body of \<open>GET stats\<close>.\<close>

record last24 =
  l24_total_errors :: "nat option"
  l24_environments :: "(string \<times> nat) list option"
  l24_top_services :: "(string \<times> nat) list option"

record totals =
  td_traces :: "nat option"
  td_logs :: "nat option"

record stats =
  st_last_24_hours :: "last24 option"
  st_total_data :: "totals option"

definition empty_stats :: stats where
  "empty_stats = \<lparr>st_last_24_hours = None, st_total_data = None\<rparr>"

section \<open>Requests\<close>

text \<open>
  The telemetry client: every network request the components issue, and its URL.  The
  transport itself is not modelled; a component's state records which requests it has
  issued and the environment later delivers their outcomes.
\<close>

datatype request =
    GetErrors string string nat
  | GetStats
  | GetDetail err_id
  | GetDownload err_id

fun request_url :: "request \<Rightarrow> string" where
  "request_url (GetErrors env svc hours) =
     ''/api/errors?env='' @ env @ ''&service='' @ svc @ ''&hours='' @ int_text (int hours)"
| "request_url GetStats = ''/api/stats''"
| "request_url (GetDetail i) = ''/api/errors/'' @ id_text i"
| "request_url (GetDownload i) = ''/api/errors/'' @ id_text i @ ''/download''"

text \<open>The poll of the dashboard asks for all environments and services over 24 hours.\<close>

definition poll_errors_request :: request where
  "poll_errors_request = GetErrors [] [] 24"

lemma id_text_nonempty_num: "id_text (IdNum n) \<noteq> []"
  by (simp add: int_text_nonempty)

end
