(* ===== verification/DeepLink.thy ===== *)
theory DeepLink
  imports Telemetry
begin

text \<open>
  The deep link of \<open>Dashboard.js\<close>: the share link each card offers (line 464), the
  \<open>highlight\<close> parameter the mount effect reads back (lines 28--29), and the DOM id a
  card carries (line 418) through which the highlight finds it.  Reading the parameter
  goes through the browser's \<open>location.search\<close> and \<open>URLSearchParams\<close>; they are
  modelled here after the URL standard's \<open>application/x-www-form-urlencoded\<close>
  parser, restricted to single-byte characters (a percent escape decodes to one byte).
\<close>

section \<open>The browser's query parser\<close>

text \<open>\<open>location.search\<close>: the query of the address, from its \<open>?\<close> up to the fragment.\<close>

definition location_search :: "string \<Rightarrow> string" where
  "location_search u =
     (let q = dropWhile (\<lambda>c. c \<noteq> CHR ''?'') (takeWhile (\<lambda>c. c \<noteq> CHR ''#'') u)
      in if q = ''?'' then [] else q)"

fun split_on :: "char \<Rightarrow> string \<Rightarrow> string list" where
  "split_on d [] = [[]]"
| "split_on d (c # cs) =
     (if c = d then [] # split_on d cs
      else (case split_on d cs of w # ws \<Rightarrow> (c # w) # ws | [] \<Rightarrow> [[c]]))"

fun hex_val :: "char \<Rightarrow> nat option" where
  "hex_val c =
     (let n = of_char c :: nat in
      if 48 \<le> n \<and> n \<le> 57 then Some (n - 48)
      else if 65 \<le> n \<and> n \<le> 70 then Some (n - 55)
      else if 97 \<le> n \<and> n \<le> 102 then Some (n - 87)
      else None)"

text \<open>Percent decoding: a \<open>%\<close> not followed by two hex digits stays as it is.\<close>

fun percent_decode :: "string \<Rightarrow> string" where
  "percent_decode (c # a # b # rest) =
     (if c = CHR ''%'' then
        (case (hex_val a, hex_val b) of
           (Some x, Some y) \<Rightarrow> char_of (16 * x + y) # percent_decode rest
         | _ \<Rightarrow> c # percent_decode (a # b # rest))
      else c # percent_decode (a # b # rest))"
| "percent_decode cs = cs"

definition form_decode :: "string \<Rightarrow> string" where
  "form_decode s = percent_decode (map (\<lambda>c. if c = CHR ''+'' then CHR '' '' else c) s)"

text \<open>One \<open>name=value\<close> sequence: split at its first \<open>=\<close>, a missing value being empty.\<close>

definition parse_pair :: "string \<Rightarrow> string \<times> string" where
  "parse_pair seg =
     (let name = takeWhile (\<lambda>c. c \<noteq> CHR ''='') seg
      in (form_decode name, form_decode (drop (Suc (length name)) seg)))"

text \<open>The constructor drops one leading \<open>?\<close> and skips empty sequences.\<close>

definition url_params :: "string \<Rightarrow> (string \<times> string) list" where
  "url_params search =
     (let q = (case search of c # cs \<Rightarrow> if c = CHR ''?'' then cs else search | [] \<Rightarrow> [])
      in map parse_pair (filter (\<lambda>w. w \<noteq> []) (split_on CHR ''&'' q)))"

text \<open>\<open>get\<close> answers the value of the first pair with the name, \<open>null\<close> if none.\<close>

definition search_params_get :: "string \<Rightarrow> string \<Rightarrow> string option" where
  "search_params_get search name = map_of (url_params search) name"

section \<open>The dashboard's use of it\<close>

definition highlight_param :: "string \<Rightarrow> string option" where
  "highlight_param search = search_params_get search ''highlight''"

definition share_link :: "string \<Rightarrow> err_id \<Rightarrow> string" where
  "share_link origin i = origin @ ''/dashboard?highlight='' @ id_text i"

definition card_dom_id :: "err_id \<Rightarrow> string" where
  "card_dom_id i = ''error-'' @ id_text i"

text \<open>The characters a value must avoid to come back unchanged through the address.\<close>

definition url_safe :: "string \<Rightarrow> bool" where
  "url_safe s \<longleftrightarrow> (\<forall>c \<in> set s. c \<notin> {CHR ''&'', CHR ''#'', CHR ''+'', CHR ''%''})"

text \<open>\<open>document.getElementById(`error-${highlight}`)\<close> finds the card whose id text is the
  parameter: the prefix is the same on both sides.\<close>

lemma card_dom_id_match: "card_dom_id i = ''error-'' @ h \<longleftrightarrow> id_text i = h"
  by (simp add: card_dom_id_def)

section \<open>Lemmas of the parser\<close>

lemma split_on_free: "d \<notin> set s \<Longrightarrow> split_on d s = [s]"
  by (induction s) auto

lemma percent_decode_free: "CHR ''%'' \<notin> set s \<Longrightarrow> percent_decode s = s"
  by (induction s rule: percent_decode.induct) auto

lemma form_decode_free:
  "CHR ''%'' \<notin> set s \<Longrightarrow> CHR ''+'' \<notin> set s \<Longrightarrow> form_decode s = s"
proof -
  assume p: "CHR ''%'' \<notin> set s" and q: "CHR ''+'' \<notin> set s"
  from q have "map (\<lambda>c. if c = CHR ''+'' then CHR '' '' else c) s = s"
    by (induction s) auto
  with p show ?thesis by (simp add: form_decode_def percent_decode_free)
qed

lemma location_search_share:
  assumes "CHR ''?'' \<notin> set origin" "CHR ''#'' \<notin> set origin" "CHR ''#'' \<notin> set v"
  shows "location_search (origin @ ''/dashboard?highlight='' @ v) = ''?highlight='' @ v"
proof -
  have tw: "takeWhile (\<lambda>c. c \<noteq> CHR ''#'') (origin @ ''/dashboard?highlight='' @ v)
        = origin @ ''/dashboard?highlight='' @ v"
    using assms by (auto simp: takeWhile_eq_all_conv)
  have dw: "dropWhile (\<lambda>c. c \<noteq> CHR ''?'') (origin @ ''/dashboard?highlight='' @ v)
        = ''?highlight='' @ v"
    using assms(1) by (subst dropWhile_append2) auto
  show ?thesis unfolding location_search_def Let_def tw dw by simp
qed

lemma int_text_url_safe: "url_safe (int_text n)"
proof -
  have "\<And>c. c \<in> set (int_text n) \<Longrightarrow> c \<notin> {CHR ''&'', CHR ''#'', CHR ''+'', CHR ''%''}"
    using int_text_chars by (fastforce simp: is_digit_def)
  then show ?thesis by (simp add: url_safe_def)
qed

lemma url_params_single:
  assumes "url_safe v"
  shows "url_params (''?highlight='' @ v) = [(''highlight'', v)]"
proof -
  from assms have amp: "CHR ''&'' \<notin> set (''highlight='' @ v)"
    by (auto simp: url_safe_def)
  from assms have "CHR ''%'' \<notin> set v" "CHR ''+'' \<notin> set v"
    by (auto simp: url_safe_def)
  then have v: "form_decode v = v" by (rule form_decode_free)
  have n: "form_decode ''highlight'' = ''highlight''"
    by (rule form_decode_free) simp_all
  have pp: "parse_pair (''highlight='' @ v) = (''highlight'', v)"
    by (simp add: parse_pair_def n v)
  have q: "(case ''?highlight='' @ v of c # cs \<Rightarrow> if c = CHR ''?'' then cs else ''?highlight='' @ v
            | [] \<Rightarrow> []) = ''highlight='' @ v"
    by simp
  have ne: "(''highlight='' @ v \<noteq> []) = True" by simp
  show ?thesis
    unfolding url_params_def Let_def q split_on_free [OF amp]
    by (simp only: filter.simps ne if_True list.map pp)
qed

section \<open>Properties of the deep link\<close>

text \<open>
  C28.  Round trip of the share link: when the id's text has none of the characters the
  query syntax gives a meaning to (\<open>&\<close>, \<open>#\<close>, \<open>+\<close>, \<open>%\<close>) and the origin has no
  \<open>?\<close> or \<open>#\<close>, the dashboard opened from the link reads back exactly that id's text.
\<close>

theorem share_link_roundtrip:
  assumes "url_safe (id_text i)" "CHR ''?'' \<notin> set origin" "CHR ''#'' \<notin> set origin"
  shows "highlight_param (location_search (share_link origin i)) = Some (id_text i)"
proof -
  from assms(1) have "CHR ''#'' \<notin> set (id_text i)" by (auto simp: url_safe_def)
  with assms(2,3) have ls: "location_search (share_link origin i) = ''?highlight='' @ id_text i"
    unfolding share_link_def by (rule location_search_share)
  show ?thesis
    unfolding highlight_param_def ls search_params_get_def url_params_single [OF assms(1)]
    by simp
qed

theorem share_link_roundtrip_witness:
  "url_safe (id_text (IdStr ''E1'')) \<and> CHR ''?'' \<notin> set ''http://localhost:3000''
   \<and> CHR ''#'' \<notin> set ''http://localhost:3000''
   \<and> highlight_param (location_search (share_link ''http://localhost:3000'' (IdStr ''E1'')))
       = Some ''E1''"
proof -
  have h1: "url_safe (id_text (IdStr ''E1''))" by (simp add: url_safe_def)
  have h2: "CHR ''?'' \<notin> set ''http://localhost:3000''" by simp
  have h3: "CHR ''#'' \<notin> set ''http://localhost:3000''" by simp
  show ?thesis using h1 h2 h3 share_link_roundtrip [OF h1 h2 h3] by simp
qed

text \<open>
  The link is built without \<open>encodeURIComponent\<close>, so an id containing \<open>&\<close> is cut
  at it: the dashboard opened from the share link of \<open>a&b\<close> looks for the card \<open>a\<close>.
\<close>

lemma share_link_ampersand_cut:
  "highlight_param (location_search (share_link ''http://localhost:3000'' (IdStr ''a&b'')))
     = Some ''a''"
  by (simp add: share_link_def location_search_def highlight_param_def search_params_get_def
      url_params_def parse_pair_def form_decode_def)

end
