(* ===== verification/Dashboard.thy ===== *)
theory Dashboard
  imports Scheduler DeepLink
begin

text \<open>
  The \<open>Dashboard\<close> component of \<open>Dashboard.js\<close> as a state machine.  Its React state
  (lines 18--24) is a record together with what the component keeps outside React: the
  timers of the scheduler, the pending highlight timeout, the ring classes the timeout
  adds to a card's DOM node, and the requests in flight.  Every handler is a function on
  that record; the network and the timers are the environment, which delivers one event
  at a time (JavaScript runs one callback at a time), and \<open>dash_step\<close> answers
  \<open>None\<close> for an event that cannot occur in the state (a button that is not rendered,
  a response to no request).  Two fields are ghost state, for the statements only:
  \<open>shown_poll\<close>, the poll whose result is on screen, and \<open>detail_for\<close>, the card
  whose request produced the cached detail.
\<close>

section \<open>State\<close>

datatype sub_view = Overview | Traces | Spans | Logs | Correlation | RCA

text \<open>
  What one poll delivers: \<open>PollRejected\<close> when \<open>Promise.all\<close> or a \<open>.json()\<close> rejects
  (network failure, a body that is not JSON); otherwise the \<open>errors\<close> field of the
  first body, absent when the server answered with an error object, and the second body.
\<close>

datatype poll_outcome = PollRejected | PollBodies "error_group list option" stats

record dash =
  errors :: "error_group list"
  stats :: stats
  loading :: bool
  expandedError :: "err_id option"
  activeView :: sub_view
  detailedErrorData :: error_detail
  highlightedError :: "string option"
  timers :: sched
  highlight_timer :: bool
  ringed :: "err_id option"
  requests :: "request list"
  pending_polls :: "nat list"
  next_poll :: nat
  pending_details :: "err_id list"
  shown_poll :: "nat option"
  detail_for :: "err_id option"

definition card_ids :: "dash \<Rightarrow> err_id list" where
  "card_ids s = map eg_id (errors s)"

text \<open>The page body (and its buttons) is rendered once mounted and loaded (line 300).\<close>

definition rendered :: "dash \<Rightarrow> bool" where
  "rendered s \<longleftrightarrow> mounted (timers s) \<and> \<not> loading s"

definition card_rendered :: "dash \<Rightarrow> err_id \<Rightarrow> bool" where
  "card_rendered s i \<longleftrightarrow> rendered s \<and> i \<in> set (card_ids s)"

section \<open>Handlers\<close>

text \<open>\<open>fetchData\<close> (lines 43--61), its first half: both requests are issued at once.\<close>

definition fetchData :: "dash \<Rightarrow> dash" where
  "fetchData s = s\<lparr>requests := requests s @ [poll_errors_request, GetStats],
                   pending_polls := pending_polls s @ [next_poll s],
                   next_poll := Suc (next_poll s)\<rparr>"

text \<open>
  Its second half, when the poll \<open>k\<close> settles.  A state update of an unmounted
  component is dropped by React.  A rejection only clears \<open>loading\<close>; bodies replace
  the list (\<open>errorsData.errors || []\<close>) and the stats together.  A card's DOM node is
  kept by its key, so the ring classes survive a poll exactly when the card's id is still
  in the list.
\<close>

definition poll_done :: "dash \<Rightarrow> nat \<Rightarrow> poll_outcome \<Rightarrow> dash" where
  "poll_done s k r =
     (let s' = s\<lparr>pending_polls := remove1 k (pending_polls s)\<rparr> in
      if \<not> mounted (timers s) then s'
      else (case r of
              PollRejected \<Rightarrow> s'\<lparr>loading := False\<rparr>
            | PollBodies es st \<Rightarrow>
                (let new = or_nil es in
                 s'\<lparr>errors := new, stats := st, loading := False, shown_poll := Some k,
                    ringed := (case ringed s of
                                 None \<Rightarrow> None
                               | Some i \<Rightarrow> if i \<in> set (map eg_id new) then Some i else None)\<rparr>)))"

text \<open>\<open>toggleErrorDetails\<close> (lines 63--80), up to its \<open>await\<close>.\<close>

definition toggleErrorDetails :: "dash \<Rightarrow> err_id \<Rightarrow> dash" where
  "toggleErrorDetails s i =
     (if expandedError s = Some i
      then s\<lparr>expandedError := None, activeView := Overview, detailedErrorData := empty_detail,
             detail_for := None\<rparr>
      else s\<lparr>expandedError := Some i, activeView := Overview,
             requests := requests s @ [GetDetail i],
             pending_details := pending_details s @ [i]\<rparr>)"

text \<open>
  The rest of \<open>toggleErrorDetails\<close>, when the detail request for \<open>i\<close> settles: a
  response is stored unconditionally (line 75), a rejection is only logged.
\<close>

definition detail_done :: "dash \<Rightarrow> err_id \<Rightarrow> error_detail option \<Rightarrow> dash" where
  "detail_done s i r =
     (let s' = s\<lparr>pending_details := remove1 i (pending_details s)\<rparr> in
      if \<not> mounted (timers s) then s'
      else (case r of None \<Rightarrow> s' | Some d \<Rightarrow> s'\<lparr>detailedErrorData := d, detail_for := Some i\<rparr>))"

text \<open>
  The highlight timeout (lines 33--39): after 1000 ms it looks the card up by its DOM id
  and, if it is in the document, adds the ring classes.  While the list is loading the
  page shows only the spinner, so no card is found.  \<open>ring_card h s\<close> is the lookup of
  the DOM id \<open>error-h\<close> in a dashboard \<open>s\<close> (lines 34--37): the first card with that id
  gets the ring, if the page is rendered at all.
\<close>

definition ring_card :: "string \<Rightarrow> dash \<Rightarrow> dash" where
  "ring_card h s =
     (if rendered s then
        (case find (\<lambda>e. card_dom_id (eg_id e) = ''error-'' @ h) (errors s) of
           None \<Rightarrow> s
         | Some e \<Rightarrow> s\<lparr>ringed := Some (eg_id e)\<rparr>)
      else s)"

definition highlight_fire :: "dash \<Rightarrow> dash" where
  "highlight_fire s =
     (let s' = s\<lparr>highlight_timer := False\<rparr> in
      case highlightedError s of
        None \<Rightarrow> s'
      | Some h \<Rightarrow> ring_card h s')"

text \<open>
  Mounting (lines 26--41, then 93--105): the highlight effect reads the parameter and,
  when it is a non-empty string, stores it and arms its timeout; the fetch effect calls
  \<open>fetchData\<close> and arms the scheduler.
\<close>

definition truthy :: "string option \<Rightarrow> bool" where
  "truthy h \<longleftrightarrow> (case h of None \<Rightarrow> False | Some x \<Rightarrow> x \<noteq> [])"

definition dashboard_mount :: "string \<Rightarrow> dash" where
  "dashboard_mount search =
     (let h = highlight_param search in
      fetchData
       \<lparr>errors = [], stats = empty_stats, loading = True, expandedError = None,
        activeView = Overview, detailedErrorData = empty_detail,
        highlightedError = (if truthy h then h else None), timers = sched_mount,
        highlight_timer = truthy h, ringed = None, requests = [], pending_polls = [],
        next_poll = 0, pending_details = [], shown_poll = None, detail_for = None\<rparr>)"

section \<open>Events\<close>

datatype dash_event =
    Timer timer_event
  | Refresh
  | PollResult nat poll_outcome
  | Toggle err_id
  | SelectView err_id sub_view
  | DetailResult err_id "error_detail option"
  | HighlightTimer

text \<open>
  The guards: the refresh button (line 405) and a card's toggle (line 475) exist only on
  the rendered page; the six view buttons (lines 488--547) only inside the expanded card;
  a result answers a request in flight; the timers fire only while armed.
\<close>

fun dash_step :: "dash \<Rightarrow> dash_event \<Rightarrow> dash option" where
  "dash_step s (Timer e) =
     (case sched_step (timers s) e of
        None \<Rightarrow> None
      | Some (t, f) \<Rightarrow> Some (if f then fetchData (s\<lparr>timers := t\<rparr>) else s\<lparr>timers := t\<rparr>))"
| "dash_step s Refresh = (if rendered s then Some (fetchData s) else None)"
| "dash_step s (PollResult k r) =
     (if k \<in> set (pending_polls s) then Some (poll_done s k r) else None)"
| "dash_step s (Toggle i) = (if card_rendered s i then Some (toggleErrorDetails s i) else None)"
| "dash_step s (SelectView i v) =
     (if card_rendered s i \<and> expandedError s = Some i then Some (s\<lparr>activeView := v\<rparr>) else None)"
| "dash_step s (DetailResult i r) =
     (if i \<in> set (pending_details s) then Some (detail_done s i r) else None)"
| "dash_step s HighlightTimer = (if highlight_timer s then Some (highlight_fire s) else None)"

fun dash_run :: "dash \<Rightarrow> dash_event list \<Rightarrow> dash option" where
  "dash_run s [] = Some s"
| "dash_run s (e # es) = (case dash_step s e of None \<Rightarrow> None | Some s' \<Rightarrow> dash_run s' es)"

inductive dash_reach :: "dash \<Rightarrow> bool" where
  mount: "dash_reach (dashboard_mount search)"
| step: "dash_reach s \<Longrightarrow> dash_step s e = Some s' \<Longrightarrow> dash_reach s'"

text \<open>The per-card view state of spec section 4.3, read off the single expanded slot.\<close>

datatype card_ui = Collapsed | Expanded sub_view

definition card_state :: "dash \<Rightarrow> err_id \<Rightarrow> card_ui" where
  "card_state s i = (if expandedError s = Some i then Expanded (activeView s) else Collapsed)"

text \<open>
  The per-card machine of spec section 4.3, as an abstract specification: toggling
  switches between collapsed and the overview, and a sub-view can be chosen only while
  expanded.  The spec keeps one such machine per card, independent of the others.
\<close>

fun spec_toggle :: "card_ui \<Rightarrow> card_ui" where
  "spec_toggle Collapsed = Expanded Overview"
| "spec_toggle (Expanded v) = Collapsed"

fun spec_select :: "sub_view \<Rightarrow> card_ui \<Rightarrow> card_ui option" where
  "spec_select v Collapsed = None"
| "spec_select v (Expanded w) = Some (Expanded v)"

text \<open>The blue border of a card (lines 419--421): \<open>highlightedError === error.id\<close>.\<close>

definition card_border :: "dash \<Rightarrow> error_group \<Rightarrow> bool" where
  "card_border s e = (case highlightedError s of None \<Rightarrow> False | Some h \<Rightarrow> eg_id e = IdStr h)"

text \<open>The invariant of the reachable states of the dashboard.\<close>

definition dash_inv :: "dash \<Rightarrow> bool" where
  "dash_inv s \<longleftrightarrow>
     (\<not> mounted (timers s) \<longrightarrow> \<not> timeout_pending (timers s))
   \<and> (interval_active (timers s) \<longrightarrow> \<not> timeout_pending (timers s))
   \<and> (\<forall>k \<in> set (pending_polls s). k < next_poll s) \<and> distinct (pending_polls s)
   \<and> (\<forall>k. shown_poll s = Some k \<longrightarrow> k < next_poll s)
   \<and> count_list (requests s) GetStats = next_poll s
   \<and> (\<forall>i. count_list (pending_details s) i \<le> count_list (requests s) (GetDetail i))
   \<and> (\<forall>i. ringed s = Some i \<longrightarrow> i \<in> set (card_ids s))
   \<and> (loading s \<longrightarrow> errors s = [] \<and> expandedError s = None \<and> pending_details s = [])
   \<and> (highlight_timer s \<longrightarrow> truthy (highlightedError s))"

text \<open>
  Sample data for the witnesses: two error groups \<open>A\<close> and \<open>B\<close>, and the dashboard
  opened with \<open>?highlight=A\<close> once its first poll has delivered both.
\<close>

definition sample_group :: "string \<Rightarrow> error_group" where
  "sample_group n =
     \<lparr>eg_id = IdStr n, eg_env = ''prod'', eg_service = ''checkout'',
      eg_exception = ''TimeoutError'', eg_root_name = None, eg_span_kind = ''server'',
      eg_http_code = 504, eg_count = 3, eg_window_start = ''2024-05-01T10:00:00'',
      eg_window_end = ''2024-05-01T10:05:00''\<rparr>"

definition sample_detail :: "string \<Rightarrow> error_detail" where
  "sample_detail n =
     \<lparr>dt_error = Some (sample_group n), dt_traces = Some [], dt_spans = Some [], dt_logs = Some [],
      dt_rca_report = None\<rparr>"

definition sample_loaded :: dash where
  "sample_loaded =
     poll_done (dashboard_mount ''?highlight=A'') 0
       (PollBodies (Some [sample_group ''A'', sample_group ''B'']) empty_stats)"

lemma sample_loaded_fields:
  "errors sample_loaded = [sample_group ''A'', sample_group ''B'']"
  "loading sample_loaded = False" "timers sample_loaded = sched_mount"
  "expandedError sample_loaded = None" "activeView sample_loaded = Overview"
  "detailedErrorData sample_loaded = empty_detail"
  "highlightedError sample_loaded = Some ''A''" "highlight_timer sample_loaded = True"
  "ringed sample_loaded = None" "requests sample_loaded = [poll_errors_request, GetStats]"
  "pending_polls sample_loaded = []" "next_poll sample_loaded = 1"
  "pending_details sample_loaded = []" "shown_poll sample_loaded = Some 0"
  "detail_for sample_loaded = None"
  by (simp_all add: sample_loaded_def poll_done_def dashboard_mount_def fetchData_def
      highlight_param_def search_params_get_def url_params_def parse_pair_def form_decode_def
      truthy_def sched_mount_def)

lemma sample_loaded_rendered:
  "card_rendered sample_loaded (IdStr ''A'')" "card_rendered sample_loaded (IdStr ''B'')"
  by (simp_all add: card_rendered_def rendered_def card_ids_def sample_loaded_fields
      sample_group_def sched_mount_def)

section \<open>Shape of the steps\<close>

text \<open>Each event succeeds exactly under its guard, with its handler's result.\<close>

lemma step_Refresh: "dash_step s Refresh = Some s' \<longleftrightarrow> rendered s \<and> s' = fetchData s"
  by auto

lemma step_PollResult:
  "dash_step s (PollResult k r) = Some s' \<longleftrightarrow> k \<in> set (pending_polls s) \<and> s' = poll_done s k r"
  by auto

lemma step_Toggle:
  "dash_step s (Toggle i) = Some s' \<longleftrightarrow> card_rendered s i \<and> s' = toggleErrorDetails s i"
  by auto

lemma step_SelectView:
  "dash_step s (SelectView i v) = Some s' \<longleftrightarrow>
     card_rendered s i \<and> expandedError s = Some i \<and> s' = s\<lparr>activeView := v\<rparr>"
  by auto

lemma step_DetailResult:
  "dash_step s (DetailResult i r) = Some s' \<longleftrightarrow>
     i \<in> set (pending_details s) \<and> s' = detail_done s i r"
  by auto

lemma step_HighlightTimer:
  "dash_step s HighlightTimer = Some s' \<longleftrightarrow> highlight_timer s \<and> s' = highlight_fire s"
  by auto

lemma step_Timer:
  "dash_step s (Timer e) = Some s' \<longleftrightarrow>
     (\<exists>t f. sched_step (timers s) e = Some (t, f)
            \<and> s' = (if f then fetchData (s\<lparr>timers := t\<rparr>) else s\<lparr>timers := t\<rparr>))"
  by (auto split: option.splits)

lemmas dash_step_Some =
  step_Refresh step_PollResult step_Toggle step_SelectView step_DetailResult
  step_HighlightTimer step_Timer

text \<open>From here on a step is read through these equivalences; concrete runs unfold
  \<open>dash_step.simps\<close> by name.\<close>

declare dash_step.simps [simp del]

text \<open>Fields each handler leaves alone, for the simplifier.\<close>

lemma fetchData_fields [simp]:
  "errors (fetchData s) = errors s" "stats (fetchData s) = stats s"
  "loading (fetchData s) = loading s" "expandedError (fetchData s) = expandedError s"
  "activeView (fetchData s) = activeView s"
  "detailedErrorData (fetchData s) = detailedErrorData s"
  "highlightedError (fetchData s) = highlightedError s" "timers (fetchData s) = timers s"
  "highlight_timer (fetchData s) = highlight_timer s" "ringed (fetchData s) = ringed s"
  "requests (fetchData s) = requests s @ [poll_errors_request, GetStats]"
  "pending_polls (fetchData s) = pending_polls s @ [next_poll s]"
  "next_poll (fetchData s) = Suc (next_poll s)"
  "pending_details (fetchData s) = pending_details s" "shown_poll (fetchData s) = shown_poll s"
  "detail_for (fetchData s) = detail_for s"
  by (simp_all add: fetchData_def)

lemma poll_done_frame [simp]:
  "expandedError (poll_done s k r) = expandedError s"
  "activeView (poll_done s k r) = activeView s"
  "detailedErrorData (poll_done s k r) = detailedErrorData s"
  "requests (poll_done s k r) = requests s" "timers (poll_done s k r) = timers s"
  "highlightedError (poll_done s k r) = highlightedError s"
  "highlight_timer (poll_done s k r) = highlight_timer s"
  "next_poll (poll_done s k r) = next_poll s"
  "pending_polls (poll_done s k r) = remove1 k (pending_polls s)"
  "pending_details (poll_done s k r) = pending_details s"
  "detail_for (poll_done s k r) = detail_for s"
  by (simp_all add: poll_done_def Let_def split: poll_outcome.splits)

lemma detail_done_frame [simp]:
  "errors (detail_done s i r) = errors s" "stats (detail_done s i r) = stats s"
  "loading (detail_done s i r) = loading s"
  "expandedError (detail_done s i r) = expandedError s"
  "activeView (detail_done s i r) = activeView s" "requests (detail_done s i r) = requests s"
  "timers (detail_done s i r) = timers s"
  "highlightedError (detail_done s i r) = highlightedError s"
  "highlight_timer (detail_done s i r) = highlight_timer s" "ringed (detail_done s i r) = ringed s"
  "pending_polls (detail_done s i r) = pending_polls s" "next_poll (detail_done s i r) = next_poll s"
  "shown_poll (detail_done s i r) = shown_poll s"
  "pending_details (detail_done s i r) = remove1 i (pending_details s)"
  by (simp_all add: detail_done_def Let_def split: option.splits)

lemma highlight_fire_frame [simp]:
  "errors (highlight_fire s) = errors s" "stats (highlight_fire s) = stats s"
  "loading (highlight_fire s) = loading s" "expandedError (highlight_fire s) = expandedError s"
  "activeView (highlight_fire s) = activeView s"
  "detailedErrorData (highlight_fire s) = detailedErrorData s"
  "requests (highlight_fire s) = requests s" "timers (highlight_fire s) = timers s"
  "highlightedError (highlight_fire s) = highlightedError s"
  "highlight_timer (highlight_fire s) = False"
  "pending_polls (highlight_fire s) = pending_polls s" "next_poll (highlight_fire s) = next_poll s"
  "pending_details (highlight_fire s) = pending_details s"
  "shown_poll (highlight_fire s) = shown_poll s" "detail_for (highlight_fire s) = detail_for s"
  by (simp_all add: highlight_fire_def ring_card_def Let_def split: option.splits)

lemma rendered_highlight_timer [simp]: "rendered (s\<lparr>highlight_timer := b\<rparr>) = rendered s"
  by (simp add: rendered_def)

lemma ring_card_timers [simp]: "timers (ring_card h s) = timers s"
  by (simp add: ring_card_def split: option.splits)

lemma toggle_frame [simp]:
  "errors (toggleErrorDetails s i) = errors s" "stats (toggleErrorDetails s i) = stats s"
  "loading (toggleErrorDetails s i) = loading s" "timers (toggleErrorDetails s i) = timers s"
  "highlightedError (toggleErrorDetails s i) = highlightedError s"
  "highlight_timer (toggleErrorDetails s i) = highlight_timer s"
  "ringed (toggleErrorDetails s i) = ringed s"
  "pending_polls (toggleErrorDetails s i) = pending_polls s"
  "next_poll (toggleErrorDetails s i) = next_poll s"
  "shown_poll (toggleErrorDetails s i) = shown_poll s"
  "activeView (toggleErrorDetails s i) = Overview"
  by (simp_all add: toggleErrorDetails_def)

section \<open>The card view state machine\<close>

text \<open>
  C1.  Expanding a collapsed card: it becomes the expanded card on its overview, and
  exactly one request is issued, the detail of that card.  The cached detail is not
  cleared: until the response arrives the sub-views show whatever the cache held.
\<close>

theorem toggle_expands:
  assumes "expandedError s \<noteq> Some i" and "dash_step s (Toggle i) = Some s'"
  shows "expandedError s' = Some i \<and> activeView s' = Overview
         \<and> requests s' = requests s @ [GetDetail i]
         \<and> pending_details s' = pending_details s @ [i]
         \<and> detailedErrorData s' = detailedErrorData s"
  using assms by (auto simp: step_Toggle toggleErrorDetails_def)

theorem toggle_expands_witness:
  "expandedError (toggleErrorDetails sample_loaded (IdStr ''A'')) = Some (IdStr ''A'')
   \<and> requests (toggleErrorDetails sample_loaded (IdStr ''A''))
       = [poll_errors_request, GetStats, GetDetail (IdStr ''A'')]"
proof -
  have h1: "expandedError sample_loaded \<noteq> Some (IdStr ''A'')" by (simp add: sample_loaded_fields)
  have h2: "dash_step sample_loaded (Toggle (IdStr ''A''))
              = Some (toggleErrorDetails sample_loaded (IdStr ''A''))"
    by (simp add: step_Toggle sample_loaded_rendered)
  show ?thesis using toggle_expands [OF h1 h2] by (simp add: sample_loaded_fields)
qed

text \<open>
  C2.  Collapsing the expanded card: no card is expanded, the view is back on the
  overview, the cached detail is discarded, and nothing is requested.
\<close>

theorem toggle_collapses:
  assumes "expandedError s = Some i" and "dash_step s (Toggle i) = Some s'"
  shows "expandedError s' = None \<and> activeView s' = Overview
         \<and> detailedErrorData s' = empty_detail \<and> requests s' = requests s"
  using assms by (auto simp: step_Toggle toggleErrorDetails_def)

lemma sample_expanded_rendered:
  "card_rendered (toggleErrorDetails sample_loaded (IdStr ''A'')) (IdStr ''A'')"
  using sample_loaded_rendered(1) by (simp add: card_rendered_def rendered_def card_ids_def)

theorem toggle_collapses_witness:
  "detailedErrorData (toggleErrorDetails (toggleErrorDetails sample_loaded (IdStr ''A'')) (IdStr ''A''))
     = empty_detail
   \<and> expandedError (toggleErrorDetails (toggleErrorDetails sample_loaded (IdStr ''A'')) (IdStr ''A''))
     = None"
proof -
  let ?s = "toggleErrorDetails sample_loaded (IdStr ''A'')"
  have h1: "expandedError ?s = Some (IdStr ''A'')"
    by (simp add: toggleErrorDetails_def sample_loaded_fields)
  have h2: "dash_step ?s (Toggle (IdStr ''A'')) = Some (toggleErrorDetails ?s (IdStr ''A''))"
    by (simp add: step_Toggle sample_expanded_rendered)
  show ?thesis using toggle_collapses [OF h1 h2] by simp
qed

text \<open>
  C4.  Selecting a sub-view is a pure state change: the step is enabled only on the
  expanded card, and it changes the active view and nothing else (no request).
\<close>

theorem select_view_pure:
  assumes "dash_step s (SelectView i v) = Some s'"
  shows "expandedError s = Some i \<and> s' = s\<lparr>activeView := v\<rparr>"
  using assms by (simp add: dash_step.simps split: if_splits)

theorem select_view_pure_witness:
  "dash_step (toggleErrorDetails sample_loaded (IdStr ''A'')) (SelectView (IdStr ''A'') Spans)
     = Some ((toggleErrorDetails sample_loaded (IdStr ''A''))\<lparr>activeView := Spans\<rparr>)
   \<and> expandedError (toggleErrorDetails sample_loaded (IdStr ''A'')) = Some (IdStr ''A'')"
proof -
  let ?s = "toggleErrorDetails sample_loaded (IdStr ''A'')"
  have e: "expandedError ?s = Some (IdStr ''A'')"
    by (simp add: toggleErrorDetails_def sample_loaded_fields)
  have h: "dash_step ?s (SelectView (IdStr ''A'') Spans) = Some (?s\<lparr>activeView := Spans\<rparr>)"
    by (simp add: step_SelectView sample_expanded_rendered e)
  show ?thesis using h select_view_pure [OF h] by simp
qed

text \<open>
  C3.  Spec section 8: from a collapsed card, expand, collapse and expand again issues
  exactly two detail requests for it, because collapsing discards the cache.
\<close>

theorem toggle_twice_fetches_twice:
  assumes "card_rendered s i" and "expandedError s \<noteq> Some i"
  shows "\<exists>s'. dash_run s [Toggle i, Toggle i, Toggle i] = Some s'
           \<and> expandedError s' = Some i
           \<and> count_list (requests s') (GetDetail i) = count_list (requests s) (GetDetail i) + 2"
proof -
  let ?s1 = "toggleErrorDetails s i"
  let ?s2 = "toggleErrorDetails ?s1 i"
  let ?s3 = "toggleErrorDetails ?s2 i"
  have r: "card_rendered ?s1 i" "card_rendered ?s2 i"
    using assms(1) by (simp_all add: card_rendered_def rendered_def card_ids_def)
  have e1: "expandedError ?s1 = Some i" and q1: "requests ?s1 = requests s @ [GetDetail i]"
    using assms(2) by (simp_all add: toggleErrorDetails_def)
  have e2: "expandedError ?s2 = None" and q2: "requests ?s2 = requests ?s1"
    using e1 by (simp_all add: toggleErrorDetails_def)
  have e3: "expandedError ?s3 = Some i" and q3: "requests ?s3 = requests ?s2 @ [GetDetail i]"
    using e2 by (simp_all add: toggleErrorDetails_def)
  have "dash_run s [Toggle i, Toggle i, Toggle i] = Some ?s3"
    using assms(1) r by (simp add: step_Toggle [THEN iffD2])
  with e3 q1 q2 q3 show ?thesis by simp
qed

theorem toggle_twice_fetches_twice_witness:
  "card_rendered sample_loaded (IdStr ''A'') \<and> expandedError sample_loaded \<noteq> Some (IdStr ''A'')
   \<and> (\<exists>s'. dash_run sample_loaded [Toggle (IdStr ''A''), Toggle (IdStr ''A''), Toggle (IdStr ''A'')]
              = Some s'
          \<and> expandedError s' = Some (IdStr ''A'')
          \<and> count_list (requests s') (GetDetail (IdStr ''A''))
              = count_list (requests sample_loaded) (GetDetail (IdStr ''A'')) + 2)"
proof -
  have h1: "card_rendered sample_loaded (IdStr ''A'')" by (rule sample_loaded_rendered)
  have h2: "expandedError sample_loaded \<noteq> Some (IdStr ''A'')" by (simp add: sample_loaded_fields)
  show ?thesis using h1 h2 toggle_twice_fetches_twice [OF h1 h2] by blast
qed

section \<open>Polling\<close>

text \<open>
  C5.  A failed poll (a rejected request or an unparsable body) leaves the list, the
  stats and every card's view state exactly as they were; the dashboard only leaves its
  loading state.
\<close>

theorem poll_rejected_keeps_state:
  assumes "dash_step s (PollResult k PollRejected) = Some s'"
  shows "errors s' = errors s \<and> stats s' = stats s \<and> card_state s' = card_state s
         \<and> ringed s' = ringed s \<and> shown_poll s' = shown_poll s"
  using assms by (auto simp: step_PollResult poll_done_def card_state_def Let_def)

theorem poll_rejected_keeps_state_witness:
  "errors (poll_done (fetchData sample_loaded) 1 PollRejected) = [sample_group ''A'', sample_group ''B'']
   \<and> loading (poll_done (fetchData sample_loaded) 1 PollRejected) = False"
proof -
  have h: "dash_step (fetchData sample_loaded) (PollResult 1 PollRejected)
             = Some (poll_done (fetchData sample_loaded) 1 PollRejected)"
    by (simp add: step_PollResult sample_loaded_fields)
  have "errors (poll_done (fetchData sample_loaded) 1 PollRejected) = errors (fetchData sample_loaded)"
    using poll_rejected_keeps_state [OF h] by simp
  then show ?thesis
    by (simp add: sample_loaded_fields poll_done_def Let_def sched_mount_def)
qed

text \<open>
  C24.  A poll whose errors body has no \<open>errors\<close> field (an HTTP error answered with a JSON
  error object, which \<open>fetch\<close> does not reject) is not treated as a failure: the list is
  replaced by the empty list and the stats by the second body.
\<close>

theorem poll_without_errors_field_clears:
  assumes "mounted (timers s)" and "dash_step s (PollResult k (PollBodies None st)) = Some s'"
  shows "errors s' = [] \<and> stats s' = st \<and> ringed s' = None"
  using assms by (auto simp: step_PollResult poll_done_def Let_def split: option.splits)

theorem poll_without_errors_field_clears_witness:
  "errors (poll_done (fetchData sample_loaded) 1 (PollBodies None empty_stats)) = []
   \<and> errors (fetchData sample_loaded) \<noteq> []"
proof -
  have h1: "mounted (timers (fetchData sample_loaded))"
    by (simp add: sample_loaded_fields sched_mount_def)
  have h2: "dash_step (fetchData sample_loaded) (PollResult 1 (PollBodies None empty_stats))
             = Some (poll_done (fetchData sample_loaded) 1 (PollBodies None empty_stats))"
    by (simp add: step_PollResult sample_loaded_fields)
  show ?thesis using poll_without_errors_field_clears [OF h1 h2]
    by (simp add: sample_loaded_fields)
qed

text \<open>
  C6.  Whatever a poll delivers, every card keeps its view state: the expanded card is
  stored by id, not by position, so a card present before and after stays expanded on
  the same sub-view.
\<close>

theorem poll_keeps_card_state:
  assumes "dash_step s (PollResult k r) = Some s'"
  shows "card_state s' = card_state s"
  using assms
  by (auto simp: dash_step.simps poll_done_def Let_def card_state_def split: if_splits poll_outcome.splits)

text \<open>The witness drops card \<open>A\<close> from the list while it is expanded: it stays the
  expanded card, with no card on the page to show it.\<close>

theorem poll_keeps_card_state_witness:
  "card_state (poll_done (fetchData (toggleErrorDetails sample_loaded (IdStr ''A''))) 1
                 (PollBodies (Some [sample_group ''B'']) empty_stats)) (IdStr ''A'')
     = Expanded Overview"
proof -
  let ?s = "fetchData (toggleErrorDetails sample_loaded (IdStr ''A''))"
  let ?r = "PollBodies (Some [sample_group ''B'']) empty_stats"
  have h: "dash_step ?s (PollResult 1 ?r) = Some (poll_done ?s 1 ?r)"
    by (simp add: step_PollResult sample_loaded_fields)
  have "card_state ?s (IdStr ''A'') = Expanded Overview"
    by (simp add: card_state_def toggleErrorDetails_def sample_loaded_fields)
  then show ?thesis using poll_keeps_card_state [OF h] by simp
qed

section \<open>Refinement of the per-card machine\<close>

text \<open>
  C7.  Toggling a card refines the spec's per-card machine on that card, and collapses
  every other card: the code keeps one expanded slot, so expanding a card closes the one
  that was open, where the spec's machines are independent.
\<close>

theorem toggle_refines:
  assumes "dash_step s (Toggle i) = Some s'"
  shows "card_state s' = (\<lambda>j. if j = i then spec_toggle (card_state s i) else Collapsed)"
  using assms by (auto simp: step_Toggle toggleErrorDetails_def card_state_def)

theorem toggle_refines_witness:
  "card_state (toggleErrorDetails (toggleErrorDetails sample_loaded (IdStr ''A'')) (IdStr ''B''))
     = (\<lambda>j. if j = IdStr ''B'' then Expanded Overview else Collapsed)"
proof -
  let ?s = "toggleErrorDetails sample_loaded (IdStr ''A'')"
  have r: "card_rendered ?s (IdStr ''B'')"
    using sample_loaded_rendered(2) by (simp add: card_rendered_def rendered_def card_ids_def)
  have h: "dash_step ?s (Toggle (IdStr ''B'')) = Some (toggleErrorDetails ?s (IdStr ''B''))"
    by (simp add: step_Toggle r)
  have c: "card_state ?s (IdStr ''B'') = Collapsed"
    by (simp add: card_state_def toggleErrorDetails_def sample_loaded_fields)
  show ?thesis using toggle_refines [OF h] c by (simp add: fun_eq_iff)
qed

text \<open>
  C10.  Selecting a sub-view refines the spec's \<open>selectSubView\<close>: it is possible only
  where the spec allows it (on an expanded card) and leaves the other cards alone.
\<close>

theorem select_refines:
  assumes "dash_step s (SelectView i v) = Some s'"
  shows "spec_select v (card_state s i) = Some (card_state s' i)
         \<and> (\<forall>j. j \<noteq> i \<longrightarrow> card_state s' j = card_state s j)"
  using assms by (auto simp: dash_step.simps card_state_def split: if_splits)

theorem select_refines_witness:
  "spec_select Logs (card_state (toggleErrorDetails sample_loaded (IdStr ''A'')) (IdStr ''A''))
     = Some (Expanded Logs)"
proof -
  let ?s = "toggleErrorDetails sample_loaded (IdStr ''A'')"
  have e: "expandedError ?s = Some (IdStr ''A'')"
    by (simp add: toggleErrorDetails_def sample_loaded_fields)
  have h: "dash_step ?s (SelectView (IdStr ''A'') Logs) = Some (?s\<lparr>activeView := Logs\<rparr>)"
    by (simp add: step_SelectView sample_expanded_rendered e)
  have "card_state (?s\<lparr>activeView := Logs\<rparr>) (IdStr ''A'') = Expanded Logs"
    by (simp add: card_state_def e)
  then show ?thesis using select_refines [OF h] by simp
qed

section \<open>Reachable states\<close>

lemma dash_run_reach: "dash_reach s \<Longrightarrow> dash_run s es = Some s' \<Longrightarrow> dash_reach s'"
proof (induction es arbitrary: s)
  case Nil
  then show ?case by simp
next
  case (Cons e es)
  then obtain t where st: "dash_step s e = Some t" and rt: "dash_run t es = Some s'"
    by (auto split: option.splits)
  from Cons.prems(1) st have "dash_reach t" by (rule dash_reach.step)
  then show ?case using rt by (rule Cons.IH)
qed

lemma sample_loaded_reach: "dash_reach sample_loaded"
proof -
  have "dash_step (dashboard_mount ''?highlight=A'')
          (PollResult 0 (PollBodies (Some [sample_group ''A'', sample_group ''B'']) empty_stats))
        = Some sample_loaded"
    by (simp add: step_PollResult sample_loaded_def dashboard_mount_def Let_def)
  with dash_reach.mount show ?thesis by (rule dash_reach.step)
qed

text \<open>
  C8.  The single detail slot shows another card's data: from any state where two
  distinct cards \<open>a\<close> and \<open>b\<close> are on the page and \<open>a\<close> is collapsed, expand \<open>a\<close>,
  expand \<open>b\<close> before \<open>a\<close>'s response arrives, let \<open>a\<close>'s response \<open>d\<close> arrive and
  \<open>b\<close>'s fail.  Then \<open>b\<close> is expanded and its sub-views render \<open>a\<close>'s detail \<open>d\<close>.  The
  spec asks that a late response for a card no longer expanded be discarded.
\<close>

theorem detail_stale_after_switch:
  assumes "card_rendered s a" "card_rendered s b" "a \<noteq> b" "expandedError s \<noteq> Some a"
  shows "\<exists>s'. dash_run s [Toggle a, Toggle b, DetailResult a (Some d), DetailResult b None] = Some s'
           \<and> expandedError s' = Some b \<and> detailedErrorData s' = d \<and> detail_for s' = Some a
           \<and> errors s' = errors s"
  using assms
  by (simp add: dash_step.simps toggleErrorDetails_def detail_done_def card_rendered_def
      rendered_def card_ids_def Let_def)

theorem detail_stale_after_switch_witness:
  "\<exists>s'. dash_run sample_loaded
          [Toggle (IdStr ''A''), Toggle (IdStr ''B''),
           DetailResult (IdStr ''A'') (Some (sample_detail ''A'')), DetailResult (IdStr ''B'') None]
        = Some s'
      \<and> expandedError s' = Some (IdStr ''B'') \<and> detailedErrorData s' = sample_detail ''A''"
proof -
  have h: "card_rendered sample_loaded (IdStr ''A'')" "card_rendered sample_loaded (IdStr ''B'')"
    "expandedError sample_loaded \<noteq> Some (IdStr ''A'')"
    by (simp_all add: card_rendered_def rendered_def card_ids_def sample_loaded_fields
        sample_group_def sched_mount_def)
  show ?thesis
    using detail_stale_after_switch [OF h(1,2) _ h(3), of "sample_detail ''A''"] by auto
qed

section \<open>The invariant of reachable states\<close>

lemma inv_fetchData: "dash_inv s \<Longrightarrow> dash_inv (fetchData s)"
  by (auto simp: dash_inv_def card_ids_def poll_errors_request_def)

lemma inv_timers:
  assumes "dash_inv s" and "sched_step (timers s) e = Some (t, f)"
  shows "dash_inv (s\<lparr>timers := t\<rparr>)"
  using assms by (cases e) (auto simp: dash_inv_def card_ids_def split: if_splits)

lemma poll_done_cases:
  "poll_done s k r = s\<lparr>pending_polls := remove1 k (pending_polls s)\<rparr> \<or>
   poll_done s k r = s\<lparr>pending_polls := remove1 k (pending_polls s), loading := False\<rparr> \<or>
   (\<exists>es st. poll_done s k r = s\<lparr>pending_polls := remove1 k (pending_polls s),
      errors := or_nil es, stats := st, loading := False, shown_poll := Some k,
      ringed := (case ringed s of None \<Rightarrow> None
                 | Some i \<Rightarrow> if i \<in> set (map eg_id (or_nil es)) then Some i else None)\<rparr>)"
  by (auto simp: poll_done_def Let_def split: poll_outcome.splits)

lemma inv_poll_done:
  assumes i: "dash_inv s" and k: "k \<in> set (pending_polls s)" shows "dash_inv (poll_done s k r)"
proof -
  have kn: "k < next_poll s" using i k by (simp add: dash_inv_def)
  have rm: "\<forall>j \<in> set (remove1 k (pending_polls s)). j < next_poll s"
    using i set_remove1_subset [of k "pending_polls s"] by (auto simp: dash_inv_def)
  have d: "distinct (remove1 k (pending_polls s))" using i by (simp add: dash_inv_def)
  from poll_done_cases [of s k r] show ?thesis
  proof (elim disjE exE)
    assume "poll_done s k r = s\<lparr>pending_polls := remove1 k (pending_polls s)\<rparr>"
    then show ?thesis using i rm d unfolding dash_inv_def by (simp add: card_ids_def)
  next
    assume "poll_done s k r = s\<lparr>pending_polls := remove1 k (pending_polls s), loading := False\<rparr>"
    then show ?thesis using i rm d unfolding dash_inv_def by (simp add: card_ids_def)
  next
    fix es st
    assume "poll_done s k r = s\<lparr>pending_polls := remove1 k (pending_polls s),
      errors := or_nil es, stats := st, loading := False, shown_poll := Some k,
      ringed := (case ringed s of None \<Rightarrow> None
                 | Some i \<Rightarrow> if i \<in> set (map eg_id (or_nil es)) then Some i else None)\<rparr>"
    then show ?thesis using i rm d kn unfolding dash_inv_def
      by (simp add: card_ids_def split: option.splits)
  qed
qed

lemma inv_toggle:
  assumes "dash_inv s" and "card_rendered s i" shows "dash_inv (toggleErrorDetails s i)"
  using assms by (auto simp: dash_inv_def toggleErrorDetails_def card_ids_def card_rendered_def rendered_def)

lemma count_remove1_le: "count_list (remove1 x xs) y \<le> count_list xs y"
  by (induction xs) auto

lemma detail_done_cases:
  "detail_done s i r = s\<lparr>pending_details := remove1 i (pending_details s)\<rparr> \<or>
   (\<exists>d. detail_done s i r = s\<lparr>pending_details := remove1 i (pending_details s),
                                 detailedErrorData := d, detail_for := Some i\<rparr>)"
  by (auto simp: detail_done_def Let_def split: option.splits)

lemma inv_detail_done:
  assumes i: "dash_inv s" and p: "i \<in> set (pending_details s)" shows "dash_inv (detail_done s i r)"
proof -
  have c0: "\<forall>j. count_list (pending_details s) j \<le> count_list (requests s) (GetDetail j)"
    using i by (simp add: dash_inv_def)
  have c: "\<forall>j. count_list (remove1 i (pending_details s)) j \<le> count_list (requests s) (GetDetail j)"
  proof
    fix j
    show "count_list (remove1 i (pending_details s)) j \<le> count_list (requests s) (GetDetail j)"
      using count_remove1_le [of i "pending_details s" j] spec [OF c0, of j] by linarith
  qed
  have nl: "\<not> loading s" using i p by (auto simp: dash_inv_def)
  from detail_done_cases [of s i r] show ?thesis
  proof (elim disjE exE)
    assume "detail_done s i r = s\<lparr>pending_details := remove1 i (pending_details s)\<rparr>"
    then show ?thesis using i c nl unfolding dash_inv_def by (simp add: card_ids_def)
  next
    fix d
    assume "detail_done s i r = s\<lparr>pending_details := remove1 i (pending_details s),
                                 detailedErrorData := d, detail_for := Some i\<rparr>"
    then show ?thesis using i c nl unfolding dash_inv_def by (simp add: card_ids_def)
  qed
qed

lemma find_card: "find P (errors s) = Some e \<Longrightarrow> eg_id e \<in> set (card_ids s)"
  by (auto simp: card_ids_def find_Some_iff)

lemma highlight_fire_cases:
  "highlight_fire s = s\<lparr>highlight_timer := False\<rparr> \<or>
   (\<exists>e P. find P (errors s) = Some e
          \<and> highlight_fire s = s\<lparr>highlight_timer := False, ringed := Some (eg_id e)\<rparr>)"
  by (auto simp: highlight_fire_def ring_card_def Let_def split: option.splits)

lemma inv_highlight_fire:
  assumes i: "dash_inv s" shows "dash_inv (highlight_fire s)"
  using highlight_fire_cases [of s]
proof (elim disjE exE conjE)
  assume "highlight_fire s = s\<lparr>highlight_timer := False\<rparr>"
  then show ?thesis using i unfolding dash_inv_def by (simp add: card_ids_def)
next
  fix e P
  assume f: "find P (errors s) = Some e"
    and h: "highlight_fire s = s\<lparr>highlight_timer := False, ringed := Some (eg_id e)\<rparr>"
  from f have "eg_id e \<in> set (card_ids s)" by (rule find_card)
  then show ?thesis using i h unfolding dash_inv_def by (simp add: card_ids_def)
qed

lemma inv_step: "dash_inv s \<Longrightarrow> dash_step s e = Some s' \<Longrightarrow> dash_inv s'"
proof (cases e)
  case (Timer x)
  assume i: "dash_inv s" and st: "dash_step s e = Some s'"
  with Timer obtain t f where
    ts: "sched_step (timers s) x = Some (t, f)"
    and s': "s' = (if f then fetchData (s\<lparr>timers := t\<rparr>) else s\<lparr>timers := t\<rparr>)"
    by (auto simp: step_Timer)
  from inv_timers [OF i ts] s' show ?thesis by (auto intro: inv_fetchData)
next
  case Refresh
  then show "dash_inv s \<Longrightarrow> dash_step s e = Some s' \<Longrightarrow> dash_inv s'"
    by (auto simp: step_Refresh intro: inv_fetchData)
next
  case (PollResult k r)
  then show "dash_inv s \<Longrightarrow> dash_step s e = Some s' \<Longrightarrow> dash_inv s'"
    by (auto simp: step_PollResult intro: inv_poll_done)
next
  case (Toggle i)
  then show "dash_inv s \<Longrightarrow> dash_step s e = Some s' \<Longrightarrow> dash_inv s'"
    by (auto simp: step_Toggle intro: inv_toggle)
next
  case (SelectView i v)
  then show "dash_inv s \<Longrightarrow> dash_step s e = Some s' \<Longrightarrow> dash_inv s'"
    by (auto simp: step_SelectView dash_inv_def card_ids_def)
next
  case (DetailResult i r)
  then show "dash_inv s \<Longrightarrow> dash_step s e = Some s' \<Longrightarrow> dash_inv s'"
    by (auto simp: step_DetailResult intro: inv_detail_done)
next
  case HighlightTimer
  then show "dash_inv s \<Longrightarrow> dash_step s e = Some s' \<Longrightarrow> dash_inv s'"
    by (auto simp: step_HighlightTimer intro: inv_highlight_fire)
qed

text \<open>
  C9.  In every reachable state: a torn-down dashboard has no pending timeout, the
  interval runs only after the timeout has fired, the polls in flight are distinct and
  were issued, each poll issued exactly one stats request, every detail request in
  flight was issued, the ring classes are only ever on a card of the list, nothing is
  expanded or requested while the first poll is loading, and the highlight timer is
  armed only for a non-empty parameter.
\<close>

theorem dash_reach_inv: "dash_reach s \<Longrightarrow> dash_inv s"
proof (induction rule: dash_reach.induct)
  case (mount search)
  show ?case
    by (simp add: dash_inv_def dashboard_mount_def Let_def sched_mount_def card_ids_def
        poll_errors_request_def)
next
  case (step s e s')
  then show ?case by (blast intro: inv_step)
qed

theorem dash_reach_inv_witness: "dash_inv sample_loaded"
  using dash_reach_inv [OF sample_loaded_reach] .

section \<open>The deep-link highlight\<close>

lemma find_dom_id:
  assumes "h \<in> set (map id_text (card_ids s))"
  shows "\<exists>e. find (\<lambda>e. card_dom_id (eg_id e) = ''error-'' @ h) (errors s) = Some e
             \<and> e \<in> set (errors s) \<and> id_text (eg_id e) = h"
proof -
  from assms obtain e where "e \<in> set (errors s)" "id_text (eg_id e) = h"
    by (auto simp: card_ids_def)
  then have "find (\<lambda>e. card_dom_id (eg_id e) = ''error-'' @ h) (errors s) \<noteq> None"
    by (auto simp: find_None_iff card_dom_id_def)
  then obtain e' where f: "find (\<lambda>e. card_dom_id (eg_id e) = ''error-'' @ h) (errors s) = Some e'"
    by auto
  then have "e' \<in> set (errors s) \<and> id_text (eg_id e') = h"
    by (auto simp: find_Some_iff card_dom_id_def)
  with f show ?thesis by blast
qed

text \<open>
  C26.  When the highlight timeout fires on the rendered list and a card's id text is the
  parameter, that card gets the emphasis.
\<close>

theorem highlight_rings_match:
  assumes "dash_step s HighlightTimer = Some s'" and "rendered s"
    and "highlightedError s = Some h" and "h \<in> set (map id_text (card_ids s))"
  shows "\<exists>e \<in> set (errors s). ringed s' = Some (eg_id e) \<and> id_text (eg_id e) = h"
proof -
  from find_dom_id [OF assms(4)] obtain e where
    f: "find (\<lambda>e. card_dom_id (eg_id e) = ''error-'' @ h) (errors s) = Some e"
    and e: "e \<in> set (errors s)" "id_text (eg_id e) = h"
    by blast
  from assms(1) have "s' = highlight_fire s" by (simp add: step_HighlightTimer)
  with assms(2,3) f have "ringed s' = Some (eg_id e)" by (simp add: highlight_fire_def ring_card_def Let_def)
  with e show ?thesis by blast
qed

theorem highlight_rings_match_witness:
  "ringed (highlight_fire sample_loaded) = Some (IdStr ''A'')"
proof -
  have h1: "dash_step sample_loaded HighlightTimer = Some (highlight_fire sample_loaded)"
    by (simp add: step_HighlightTimer sample_loaded_fields)
  have h2: "rendered sample_loaded" by (simp add: rendered_def sample_loaded_fields sched_mount_def)
  have h3: "highlightedError sample_loaded = Some ''A''" by (simp add: sample_loaded_fields)
  have h4: "''A'' \<in> set (map id_text (card_ids sample_loaded))"
    by (simp add: card_ids_def sample_loaded_fields sample_group_def)
  obtain e where "e \<in> set (errors sample_loaded)" "ringed (highlight_fire sample_loaded) = Some (eg_id e)"
      "id_text (eg_id e) = ''A''"
    using highlight_rings_match [OF h1 h2 h3 h4] by blast
  then show ?thesis by (auto simp: sample_loaded_fields sample_group_def)
qed

text \<open>
  An unknown id is not an error: the timeout fires, finds no card, and changes
  nothing but disarming itself.
\<close>

lemma highlight_unknown_noop:
  assumes "highlight_timer s" and "highlightedError s = Some h"
    and "h \<notin> set (map id_text (card_ids s))"
  shows "dash_step s HighlightTimer = Some (s\<lparr>highlight_timer := False\<rparr>)"
proof -
  have "find (\<lambda>e. card_dom_id (eg_id e) = ''error-'' @ h) (errors s) = None"
    using assms(3) by (auto simp: find_None_iff card_dom_id_def card_ids_def)
  with assms show ?thesis
    by (simp add: step_HighlightTimer highlight_fire_def ring_card_def Let_def)
qed

theorem highlight_unknown_noop_witness:
  "dash_step (sample_loaded\<lparr>highlightedError := Some ''unknown''\<rparr>) HighlightTimer
     = Some (sample_loaded\<lparr>highlightedError := Some ''unknown'', highlight_timer := False\<rparr>)"
proof -
  let ?s = "sample_loaded\<lparr>highlightedError := Some ''unknown''\<rparr>"
  have h1: "highlight_timer ?s" by (simp add: sample_loaded_fields)
  have h2: "highlightedError ?s = Some ''unknown''" by simp
  have h3: "''unknown'' \<notin> set (map id_text (card_ids ?s))"
    by (simp add: card_ids_def sample_loaded_fields sample_group_def)
  show ?thesis using highlight_unknown_noop [OF h1 h2 h3] by simp
qed

lemma no_ring_step:
  assumes "\<not> highlight_timer s" "ringed s = None" "dash_step s e = Some s'"
  shows "\<not> highlight_timer s' \<and> ringed s' = None"
proof (cases e)
  case (PollResult k r)
  with assms show ?thesis
    by (auto simp: step_PollResult poll_done_def Let_def split: poll_outcome.splits)
next
  case (Toggle i)
  with assms show ?thesis by (auto simp: step_Toggle)
next
  case (DetailResult i r)
  with assms show ?thesis by (auto simp: step_DetailResult)
next
  case (Timer x)
  with assms show ?thesis by (auto simp: step_Timer split: if_splits)
qed (use assms in \<open>auto simp: dash_step_Some\<close>)

text \<open>
  C27.  The highlight is tried once, 1000 ms after mount, and not against a data-ready
  signal: once the timeout has passed without finding the card, no later event ever
  emphasises a card, even when the card arrives with the next poll.
\<close>

theorem highlight_once_only:
  assumes "\<not> highlight_timer s" and "ringed s = None" and "dash_run s es = Some s'"
  shows "ringed s' = None"
  using assms
proof (induction es arbitrary: s)
  case Nil
  then show ?case by simp
next
  case (Cons e es)
  then obtain t where st: "dash_step s e = Some t" and rt: "dash_run t es = Some s'"
    by (auto split: option.splits)
  from no_ring_step [OF Cons.prems(1,2) st] have "\<not> highlight_timer t" "ringed t = None" by auto
  then show ?case using rt by (rule Cons.IH)
qed

text \<open>The witness is the race: the timeout fires while the first poll is in flight, and
  card \<open>A\<close> then arrives but is never emphasised.\<close>

theorem highlight_once_only_witness:
  "ringed (poll_done (highlight_fire (dashboard_mount ''?highlight=A'')) 0
             (PollBodies (Some [sample_group ''A'']) empty_stats)) = None
   \<and> IdStr ''A'' \<in> set (card_ids (poll_done (highlight_fire (dashboard_mount ''?highlight=A'')) 0
             (PollBodies (Some [sample_group ''A'']) empty_stats)))"
proof -
  let ?m = "highlight_fire (dashboard_mount ''?highlight=A'')"
  let ?r = "PollBodies (Some [sample_group ''A'']) empty_stats"
  have m: "\<not> highlight_timer ?m" "ringed ?m = None" "pending_polls ?m = [0]" "timers ?m = sched_mount"
    by (simp_all add: highlight_fire_def ring_card_def dashboard_mount_def Let_def rendered_def split: option.splits)
  have p: "pending_polls (dashboard_mount ''?highlight=A'') = [0]"
    by (simp add: dashboard_mount_def Let_def)
  have run: "dash_run ?m [PollResult 0 ?r] = Some (poll_done ?m 0 ?r)"
    by (simp add: dash_step.simps p)
  have "ringed (poll_done ?m 0 ?r) = None" by (rule highlight_once_only [OF m(1,2) run])
  moreover have "IdStr ''A'' \<in> set (card_ids (poll_done ?m 0 ?r))"
    using m(4) by (simp add: card_ids_def poll_done_def Let_def sched_mount_def sample_group_def)
  ultimately show ?thesis by simp
qed

text \<open>
  C29.  A card whose id is a JSON number never gets the blue border: the border compares
  the string parameter with \<open>===\<close> (line 420), while the ring classes, found through the
  template literal of the DOM id, do reach it.
\<close>

theorem numeric_id_rings_without_border:
  assumes "rendered s" and "highlightedError s = Some (int_text n)"
    and "e \<in> set (errors s)" and "eg_id e = IdNum n"
  shows "\<not> card_border s e
         \<and> (\<exists>e' \<in> set (errors s). ringed (highlight_fire s) = Some (eg_id e')
                                \<and> id_text (eg_id e') = int_text n)"
proof -
  have "int_text n \<in> set (map id_text (card_ids s))"
    using assms(3,4) by (force simp: card_ids_def)
  from find_dom_id [OF this] obtain e' where
    f: "find (\<lambda>e. card_dom_id (eg_id e) = ''error-'' @ int_text n) (errors s) = Some e'"
    and e': "e' \<in> set (errors s)" "id_text (eg_id e') = int_text n"
    by blast
  have "ringed (highlight_fire s) = Some (eg_id e')"
    using assms(1,2) f by (simp add: highlight_fire_def ring_card_def Let_def)
  moreover have "\<not> card_border s e" using assms(2,4) by (simp add: card_border_def)
  ultimately show ?thesis using e' by blast
qed

theorem numeric_id_rings_without_border_witness:
  "\<not> card_border (sample_loaded\<lparr>errors := [(sample_group ''A'')\<lparr>eg_id := IdNum 7\<rparr>],
                                 highlightedError := Some ''7''\<rparr>)
                 ((sample_group ''A'')\<lparr>eg_id := IdNum 7\<rparr>)
   \<and> ringed (highlight_fire (sample_loaded\<lparr>errors := [(sample_group ''A'')\<lparr>eg_id := IdNum 7\<rparr>],
                                            highlightedError := Some ''7''\<rparr>)) = Some (IdNum 7)"
proof -
  let ?e = "(sample_group ''A'')\<lparr>eg_id := IdNum 7\<rparr>"
  let ?s = "sample_loaded\<lparr>errors := [?e], highlightedError := Some ''7''\<rparr>"
  have t: "int_text 7 = ''7''" by code_simp
  have h1: "rendered ?s" by (simp add: rendered_def sample_loaded_fields sched_mount_def)
  have h2: "highlightedError ?s = Some (int_text 7)" by (simp add: t)
  have h3: "?e \<in> set (errors ?s)" by simp
  have h4: "eg_id ?e = IdNum 7" by simp
  show ?thesis using numeric_id_rings_without_border [OF h1 h2 h3 h4] by auto
qed

section \<open>Polls out of order, and after teardown\<close>

text \<open>
  C25.  Polls are not sequenced: from any rendered state, of two refreshes in flight
  the older may settle last, and whatever the newer one returned, the older one's
  list and stats are what the page shows (spec section 5 asks for sequence numbers to
  prevent this).
\<close>

theorem polls_out_of_order:
  assumes "rendered s"
  shows "\<exists>s'. dash_run s [Refresh, Refresh, PollResult (Suc (next_poll s)) (PollBodies es2 st2),
                          PollResult (next_poll s) (PollBodies es1 st1)] = Some s'
           \<and> errors s' = or_nil es1 \<and> stats s' = st1 \<and> \<not> loading s'
           \<and> shown_poll s' = Some (next_poll s) \<and> next_poll s' = next_poll s + 2"
  using assms
  by (simp add: dash_step.simps fetchData_def poll_done_def rendered_def Let_def)

theorem polls_out_of_order_witness:
  "\<exists>s'. dash_run sample_loaded
          [Refresh, Refresh, PollResult 2 (PollBodies (Some [sample_group ''B'']) empty_stats),
           PollResult 1 (PollBodies (Some [sample_group ''A'', sample_group ''B'']) empty_stats)]
        = Some s'
      \<and> errors s' = [sample_group ''A'', sample_group ''B''] \<and> shown_poll s' = Some 1"
proof -
  have h: "rendered sample_loaded" "next_poll sample_loaded = 1"
    by (simp_all add: rendered_def sample_loaded_fields sched_mount_def)
  show ?thesis
    using polls_out_of_order [OF h(1), of "Some [sample_group ''B'']" empty_stats
        "Some [sample_group ''A'', sample_group ''B'']" empty_stats] h(2)
    unfolding numeral_2_eq_2 by (simp add: or_nil_def) blast
qed

text \<open>
  After teardown the visible state is frozen (React drops updates of an unmounted
  component and no button exists), while the leaked interval may still issue requests.
\<close>

lemma unmounted_frozen:
  assumes "\<not> mounted (timers s)" and "dash_step s e = Some s'"
  shows "errors s' = errors s \<and> stats s' = stats s \<and> expandedError s' = expandedError s
         \<and> detailedErrorData s' = detailedErrorData s \<and> ringed s' = ringed s"
proof (cases e)
  case (PollResult k r)
  with assms show ?thesis by (auto simp: step_PollResult poll_done_def Let_def)
next
  case (DetailResult i r)
  with assms show ?thesis by (auto simp: step_DetailResult detail_done_def Let_def)
next
  case HighlightTimer
  with assms show ?thesis
    by (auto simp: step_HighlightTimer highlight_fire_def ring_card_def Let_def rendered_def split: option.splits)
next
  case (Timer x)
  with assms show ?thesis by (auto simp: step_Timer)
qed (use assms in \<open>auto simp: dash_step_Some card_rendered_def rendered_def\<close>)

lemma unmounted_frozen_witness:
  "errors (fetchData (sample_loaded\<lparr>timers := \<lparr>timeout_pending = False, interval_active = True,
                                                mounted = False\<rparr>\<rparr>))
     = [sample_group ''A'', sample_group ''B'']
   \<and> length (requests (fetchData (sample_loaded\<lparr>timers := \<lparr>timeout_pending = False,
                                     interval_active = True, mounted = False\<rparr>\<rparr>))) = 4"
proof -
  let ?s = "sample_loaded\<lparr>timers := \<lparr>timeout_pending = False, interval_active = True, mounted = False\<rparr>\<rparr>"
  have h1: "\<not> mounted (timers ?s)" by simp
  have h2: "dash_step ?s (Timer IntervalTick) = Some (fetchData ?s)"
    by (simp add: dash_step.simps)
  have "errors (fetchData ?s) = errors ?s" using unmounted_frozen [OF h1 h2] by simp
  then show ?thesis by (simp add: sample_loaded_fields)
qed

end
