(* ===== verification/Analytics.thy ===== *)
theory Analytics
  imports Telemetry
begin

text \<open>
  The two analytics charts of the dashboard (\<open>Dashboard.js\<close> lines 360--399) and
  their palette (line 108).  Drawing is recharts' business and is not modelled; what
  the component decides is the data each chart is given, and for the pie the label and
  the colour of each slice.  The bar chart plots \<open>last_24_hours.environments\<close>, one bar
  per entry; the pie plots \<open>last_24_hours.top_services\<close>, a slice per entry sized by its
  \<open>count\<close>, and labels it with the service and its share rounded by \<open>toFixed(0)\<close>.
  The share is recharts' \<open>percent\<close>, the count over the total of the counts; recharts
  draws no slice when that total is \<open>0\<close>.  Shares are exact rationals here, where the
  browser has doubles.
\<close>

section \<open>Chart data\<close>

definition COLORS :: "string list" where
  "COLORS = [''#0088FE'', ''#00C49F'', ''#FFBB28'', ''#FF8042'', ''#8884D8'', ''#82CA9D'']"

definition env_bars :: "stats \<Rightarrow> (string \<times> nat) list" where
  "env_bars st = or_nil (case st_last_24_hours st of None \<Rightarrow> None | Some l \<Rightarrow> l24_environments l)"

definition pie_data :: "stats \<Rightarrow> (string \<times> nat) list" where
  "pie_data st = or_nil (case st_last_24_hours st of None \<Rightarrow> None | Some l \<Rightarrow> l24_top_services l)"

text \<open>\<open>Number.prototype.toFixed(0)\<close> of a non-negative number: the nearest integer,
  the larger one on a tie.\<close>

definition js_to_fixed0 :: "rat \<Rightarrow> int" where
  "js_to_fixed0 x = \<lfloor>x + 1 / 2\<rfloor>"

definition pie_label :: "string \<Rightarrow> rat \<Rightarrow> string" where
  "pie_label svc p = svc @ '' '' @ int_text (js_to_fixed0 (p * 100)) @ ''%''"

record pie_slice =
  ps_service :: string
  ps_count :: nat
  ps_percent :: rat
  ps_label :: string
  ps_fill :: string

text \<open>The slice of entry \<open>i\<close>, \<open>Cell\<close> colour \<open>COLORS[index % COLORS.length]\<close>.\<close>

definition pie_slice_of :: "nat \<Rightarrow> nat \<Rightarrow> string \<times> nat \<Rightarrow> pie_slice" where
  "pie_slice_of t i e =
     (let p = of_nat (snd e) / of_nat t in
      \<lparr>ps_service = fst e, ps_count = snd e, ps_percent = p, ps_label = pie_label (fst e) p,
       ps_fill = COLORS ! (i mod length COLORS)\<rparr>)"

definition service_pie :: "stats \<Rightarrow> pie_slice list" where
  "service_pie st =
     (let d = pie_data st; t = sum_list (map snd d) in
      if t = 0 then [] else map (\<lambda>(i, e). pie_slice_of t i e) (enumerate 0 d))"

definition sample_stats3 :: stats where
  "sample_stats3 =
     \<lparr>st_last_24_hours = Some \<lparr>l24_total_errors = Some 3, l24_environments = None,
        l24_top_services = Some [(''api'', 1), (''web'', 1), (''db'', 1)]\<rparr>,
      st_total_data = None\<rparr>"

section \<open>Lemmas\<close>

lemma sum_list_div: "sum_list (map (\<lambda>e. of_nat (f e) / (c :: rat)) xs) = of_nat (sum_list (map f xs)) / c"
  by (induction xs) (simp_all add: add_divide_distrib)

lemma to_fixed0_error: "\<bar>of_int (js_to_fixed0 x) - x\<bar> \<le> 1 / 2"
proof -
  from floor_correct [of "x + 1 / 2"]
  have "of_int \<lfloor>x + 1 / 2\<rfloor> \<le> x + 1 / 2" "x + 1 / 2 < of_int \<lfloor>x + 1 / 2\<rfloor> + 1"
    by simp_all
  then show ?thesis unfolding js_to_fixed0_def abs_le_iff by linarith
qed

lemma sum_rounding_error:
  "\<bar>of_int (sum_list (map (\<lambda>x. js_to_fixed0 x) xs)) - sum_list xs\<bar> \<le> of_nat (length xs) / 2"
proof (induction xs)
  case (Cons x xs)
  have "\<bar>(of_int (js_to_fixed0 x) - x) + (of_int (sum_list (map js_to_fixed0 xs)) - sum_list xs)\<bar>
        \<le> \<bar>of_int (js_to_fixed0 x) - x\<bar> + \<bar>of_int (sum_list (map js_to_fixed0 xs)) - sum_list xs\<bar>"
    by (rule abs_triangle_ineq)
  with to_fixed0_error [of x] Cons.IH show ?case by (simp add: algebra_simps)
qed simp

lemma service_pie_percents:
  "service_pie st \<noteq> [] \<Longrightarrow>
   map ps_percent (service_pie st)
     = map (\<lambda>e. of_nat (snd e) / of_nat (sum_list (map snd (pie_data st)))) (pie_data st)
   \<and> map ps_service (service_pie st) = map fst (pie_data st)
   \<and> sum_list (map snd (pie_data st)) \<noteq> 0"
proof -
  assume ne: "service_pie st \<noteq> []"
  let ?d = "pie_data st" let ?t = "sum_list (map snd ?d)"
  from ne have t: "?t \<noteq> 0" by (auto simp: service_pie_def Let_def split: if_splits)
  have gen: "map ps_percent (map (\<lambda>(i, e). pie_slice_of ?t i e) xs)
        = map (\<lambda>e. of_nat (snd e) / of_nat ?t) (map snd xs)" for xs :: "(nat \<times> string \<times> nat) list"
    by (induction xs) (auto simp: pie_slice_of_def Let_def)
  have gen2: "map ps_service (map (\<lambda>(i, e). pie_slice_of ?t i e) xs) = map fst (map snd xs)"
    for xs :: "(nat \<times> string \<times> nat) list"
    by (induction xs) (auto simp: pie_slice_of_def Let_def)
  have s: "service_pie st = map (\<lambda>(i, e). pie_slice_of ?t i e) (enumerate 0 ?d)"
    by (simp only: service_pie_def Let_def if_not_P [OF t])
  show ?thesis using t unfolding s gen gen2 map_snd_enumerate by simp
qed

lemma service_pie_sum: "service_pie st \<noteq> [] \<Longrightarrow> sum_list (map ps_percent (service_pie st)) = 1"
proof -
  assume ne: "service_pie st \<noteq> []"
  from service_pie_percents [OF ne] have p: "map ps_percent (service_pie st)
       = map (\<lambda>e. of_nat (snd e) / of_nat (sum_list (map snd (pie_data st)))) (pie_data st)"
    and t: "sum_list (map snd (pie_data st)) \<noteq> 0" by simp_all
  show ?thesis unfolding p sum_list_div using t by simp
qed

section \<open>Properties of the charts\<close>

text \<open>
  The pie is a partition: when it is drawn, its slices follow the services in the
  order of the stats body, each share lies between 0 and 1, and the shares add up to 1.
\<close>

lemma pie_shares:
  assumes "service_pie st \<noteq> []"
  shows "map ps_service (service_pie st) = map fst (pie_data st)
         \<and> (\<forall>sl \<in> set (service_pie st). 0 \<le> ps_percent sl \<and> ps_percent sl \<le> 1)
         \<and> sum_list (map ps_percent (service_pie st)) = 1"
proof -
  let ?d = "pie_data st" let ?t = "sum_list (map snd ?d)"
  from service_pie_percents [OF assms] have p: "map ps_percent (service_pie st)
       = map (\<lambda>e. of_nat (snd e) / of_nat ?t) ?d"
    and sv: "map ps_service (service_pie st) = map fst ?d" and t: "?t \<noteq> 0" by simp_all
  have le: "snd e \<le> ?t" if "e \<in> set ?d" for e
    using that by (intro member_le_sum_list) auto
  have "\<forall>x \<in> set (map ps_percent (service_pie st)). 0 \<le> x \<and> x \<le> 1"
    unfolding p using t le by (auto simp: divide_le_eq_1)
  then have "\<forall>sl \<in> set (service_pie st). 0 \<le> ps_percent sl \<and> ps_percent sl \<le> 1" by simp
  with sv service_pie_sum [OF assms] show ?thesis by blast
qed

text \<open>
  The labels round each share to a whole percent, so they need not add up to 100:
  with \<open>n\<close> slices their sum is within \<open>n/2\<close> of 100, and three services of equal
  count are labelled 33% each, 99% in all.
\<close>

lemma pie_label_rounding:
  assumes "service_pie st \<noteq> []"
  shows "\<bar>(of_int (sum_list (map (\<lambda>sl. js_to_fixed0 (ps_percent sl * 100)) (service_pie st))) :: rat) - 100\<bar>
         \<le> of_nat (length (service_pie st)) / 2"
proof -
  let ?xs = "map (\<lambda>sl. ps_percent sl * 100) (service_pie st)"
  have "sum_list ?xs = 100"
    using service_pie_sum [OF assms] by (simp add: sum_list_mult_const)
  with sum_rounding_error [of ?xs] show ?thesis by (simp add: comp_def)
qed

lemma sample_pie_nonempty: "service_pie sample_stats3 \<noteq> []"
  by (simp add: service_pie_def pie_data_def sample_stats3_def)

lemma pie_shares_witness:
  "service_pie sample_stats3 \<noteq> [] \<and> sum_list (map ps_percent (service_pie sample_stats3)) = 1"
  using pie_shares [OF sample_pie_nonempty] sample_pie_nonempty by simp

lemma pie_label_rounding_witness:
  "service_pie sample_stats3 \<noteq> []
   \<and> sum_list (map (\<lambda>sl. js_to_fixed0 (ps_percent sl * 100)) (service_pie sample_stats3)) = 99
   \<and> \<bar>(99::rat) - 100\<bar> \<le> (of_nat (length (service_pie sample_stats3)) :: rat) / 2"
proof -
  have v: "sum_list (map (\<lambda>sl. js_to_fixed0 (ps_percent sl * 100)) (service_pie sample_stats3)) = 99"
    by code_simp
  show ?thesis using pie_label_rounding [OF sample_pie_nonempty] sample_pie_nonempty v by simp
qed

lemma service_pie_nth:
  assumes "sum_list (map snd (pie_data st)) \<noteq> 0" "i < length (pie_data st)"
  shows "service_pie st ! i = pie_slice_of (sum_list (map snd (pie_data st))) i (pie_data st ! i)"
proof -
  have "service_pie st = map (\<lambda>(i, e). pie_slice_of (sum_list (map snd (pie_data st))) i e)
                              (enumerate 0 (pie_data st))"
    by (simp only: service_pie_def Let_def if_not_P [OF assms(1)])
  then show ?thesis using assms(2) by (simp add: nth_enumerate_eq)
qed

lemma int_text_zero: "int_text 0 = ''0''"
  by code_simp

lemma to_fixed0_zero: "0 \<le> x \<Longrightarrow> x < 1 / 2 \<Longrightarrow> js_to_fixed0 x = 0"
  unfolding js_to_fixed0_def by (simp add: floor_eq_iff)

text \<open>
  C18.  What the pie's labels and colours say: a service with errors but less than one
  two-hundredth of them is drawn with the label \<open>0%\<close>, and with the palette's six
  colours the slice six places on has the same colour.
\<close>

theorem pie_label_colour:
  assumes "i < length (pie_data st)" "0 < sum_list (map snd (pie_data st))"
  shows "(200 * snd (pie_data st ! i) < sum_list (map snd (pie_data st))
            \<longrightarrow> ps_label (service_pie st ! i) = fst (pie_data st ! i) @ '' 0%'')
         \<and> (i + 6 < length (pie_data st)
            \<longrightarrow> ps_fill (service_pie st ! (i + 6)) = ps_fill (service_pie st ! i))"
proof (intro conjI impI)
  let ?t = "sum_list (map snd (pie_data st))" let ?c = "snd (pie_data st ! i)"
  have t: "?t \<noteq> 0" using assms(2) by linarith
  assume small: "200 * ?c < ?t"
  have "(of_nat ?c / of_nat ?t * 100 :: rat) < 1 / 2"
  proof -
    have "(of_nat (200 * ?c) :: rat) < of_nat ?t" using small by (simp only: of_nat_less_iff)
    then show ?thesis using assms(2) by (simp add: field_simps)
  qed
  then have "js_to_fixed0 (of_nat ?c / of_nat ?t * 100) = 0" by (intro to_fixed0_zero) simp_all
  then show "ps_label (service_pie st ! i) = fst (pie_data st ! i) @ '' 0%''"
    using service_pie_nth [OF t assms(1)]
    by (simp add: pie_slice_of_def pie_label_def Let_def int_text_zero)
next
  let ?t = "sum_list (map snd (pie_data st))"
  assume l: "i + 6 < length (pie_data st)"
  have t: "?t \<noteq> 0" using assms(2) by linarith
  show "ps_fill (service_pie st ! (i + 6)) = ps_fill (service_pie st ! i)"
    using service_pie_nth [OF t l] service_pie_nth [OF t assms(1)]
    by (simp add: pie_slice_of_def Let_def COLORS_def)
qed

definition sample_stats8 :: stats where
  "sample_stats8 =
     \<lparr>st_last_24_hours = Some \<lparr>l24_total_errors = Some 307, l24_environments = None,
        l24_top_services = Some [(''api'', 300), (''web'', 1), (''db'', 1), (''auth'', 1),
                                 (''cart'', 1), (''mail'', 1), (''search'', 1), (''pay'', 1)]\<rparr>,
      st_total_data = None\<rparr>"

theorem pie_label_colour_witness:
  "ps_label (service_pie sample_stats8 ! 1) = ''web 0%''
   \<and> ps_fill (service_pie sample_stats8 ! 7) = ps_fill (service_pie sample_stats8 ! 1)"
proof -
  have d: "pie_data sample_stats8 = [(''api'', 300), (''web'', 1), (''db'', 1), (''auth'', 1),
                                 (''cart'', 1), (''mail'', 1), (''search'', 1), (''pay'', 1)]"
    by (simp add: pie_data_def sample_stats8_def)
  show ?thesis using pie_label_colour [of 1 sample_stats8] unfolding d by simp
qed

end
