(* ===== verification/Views.thy ===== *)
theory Views
  imports Dashboard Analytics
begin

text \<open>
  What the dashboard shows, as pure functions of its state (\<open>Dashboard.js\<close> lines
  110--298 and 311--598): the five sub-view renderers of the cached detail, the overview
  of a card, the stats panel and the page as a whole.  Markup and styling are dropped;
  what remains is which table, panel or empty state a view shows and the text of its
  cells.  JSX renders an absent field as nothing (\<open>text_of\<close> of the prelude); dates are shown
  as the raw strings (their \<open>toLocaleString\<close> formatting is not modelled), and a
  duration's \<open>toFixed(2)\<close> rounding is not modelled either.
\<close>

section \<open>Rendered values\<close>

datatype dur_cell = DurNA | DurMs rat

record span_row =
  sr_trace_id :: string
  sr_span_id :: string
  sr_operation :: string
  sr_duration :: dur_cell
  sr_start :: string
  sr_tags :: "(string \<times> string) list option"

record log_row =
  lr_trace_id :: string
  lr_level :: string
  lr_message :: string
  lr_timestamp :: string

datatype view_out =
    EmptyState string
  | TracesTable "(string \<times> string) list"
  | SpansTable "span_row list"
  | LogsTable "log_row list"
  | CorrelationPanel "error_group option" nat nat nat
  | RCAText string
  | OverviewPanel string string string int string string

section \<open>The sub-view renderers\<close>

definition renderTracesView :: "error_detail \<Rightarrow> view_out" where
  "renderTracesView d =
     (let traces = or_nil (dt_traces d) in
      if traces \<noteq> [] then TracesTable (map (\<lambda>t. (tr_trace_id_hex t, tr_trace_id_b64 t)) traces)
      else EmptyState ''No traces found'')"

text \<open>\<open>span.duration ? ... : 'N/A'\<close>: a duration of \<open>0\<close> is falsy and shows as N/A.\<close>

definition duration_cell :: "rat option \<Rightarrow> dur_cell" where
  "duration_cell d = (case d of None \<Rightarrow> DurNA | Some x \<Rightarrow> if x = 0 then DurNA else DurMs (x * 1000))"

definition span_row_of :: "span \<Rightarrow> span_row" where
  "span_row_of sp =
     \<lparr>sr_trace_id = text_of (sp_trace_id_hex sp), sr_span_id = sp_span_id sp,
      sr_operation = or_na (sp_operation_name sp), sr_duration = duration_cell (sp_duration sp),
      sr_start = or_na (sp_start_time sp), sr_tags = sp_tags sp\<rparr>"

definition renderSpansView :: "error_detail \<Rightarrow> view_out" where
  "renderSpansView d =
     (let spans = or_nil (dt_spans d) in
      if spans \<noteq> [] then SpansTable (map span_row_of spans) else EmptyState ''No spans found'')"

definition log_field :: "(log_data \<Rightarrow> string option) \<Rightarrow> log_entry \<Rightarrow> string" where
  "log_field f l = or_na (case lg_log_data l of None \<Rightarrow> None | Some ld \<Rightarrow> f ld)"

definition log_row_of :: "log_entry \<Rightarrow> log_row" where
  "log_row_of l =
     \<lparr>lr_trace_id = text_of (lg_trace_id_hex l), lr_level = log_field ld_level l,
      lr_message = log_field ld_message l, lr_timestamp = log_field ld_timestamp l\<rparr>"

definition renderLogsView :: "error_detail \<Rightarrow> view_out" where
  "renderLogsView d =
     (let logs = or_nil (dt_logs d) in
      if logs \<noteq> [] then LogsTable (map log_row_of logs) else EmptyState ''No logs found'')"

definition renderCorrelationView :: "error_detail \<Rightarrow> view_out" where
  "renderCorrelationView d =
     CorrelationPanel (dt_error d) (length (or_nil (dt_traces d))) (length (or_nil (dt_spans d)))
       (length (or_nil (dt_logs d)))"

definition renderRCAView :: "error_detail \<Rightarrow> view_out" where
  "renderRCAView d =
     (case dt_rca_report d of
        None \<Rightarrow> EmptyState ''No RCA analysis available''
      | Some r \<Rightarrow> RCAText (rca_analysis_summary r))"

text \<open>The overview (lines 552--576) shows the card's own fields, not the detail.\<close>

definition renderOverview :: "error_group \<Rightarrow> view_out" where
  "renderOverview e =
     OverviewPanel (eg_env e) (eg_service e) (eg_exception e) (eg_count e) (eg_window_start e)
       (eg_window_end e)"

text \<open>The dispatch on \<open>activeView\<close> (lines 552--581).\<close>

fun render_view :: "sub_view \<Rightarrow> error_group \<Rightarrow> error_detail \<Rightarrow> view_out" where
  "render_view Overview e d = renderOverview e"
| "render_view Traces e d = renderTracesView d"
| "render_view Spans e d = renderSpansView d"
| "render_view Logs e d = renderLogsView d"
| "render_view Correlation e d = renderCorrelationView d"
| "render_view RCA e d = renderRCAView d"

section \<open>The stats panel and the page\<close>

text \<open>The four counters of the stats cards (lines 320--358), each with \<open>|| 0\<close>.\<close>

record stats_panel =
  sp_total_errors :: nat
  sp_services :: nat
  sp_traces :: nat
  sp_logs :: nat

definition render_stats :: "stats \<Rightarrow> stats_panel" where
  "render_stats st =
     \<lparr>sp_total_errors = or_zero (case st_last_24_hours st of None \<Rightarrow> None | Some l \<Rightarrow> l24_total_errors l),
      sp_services = (case st_last_24_hours st of None \<Rightarrow> 0
                     | Some l \<Rightarrow> length (or_nil (l24_top_services l))),
      sp_traces = or_zero (case st_total_data st of None \<Rightarrow> None | Some t \<Rightarrow> td_traces t),
      sp_logs = or_zero (case st_total_data st of None \<Rightarrow> None | Some t \<Rightarrow> td_logs t)\<rparr>"

text \<open>One card (lines 415--585): its group, border, ring classes, and the rendered
  sub-view when it is the expanded card.\<close>

record card_view =
  cv_group :: error_group
  cv_border :: bool
  cv_ring :: bool
  cv_details :: "view_out option"

definition render_card :: "dash \<Rightarrow> error_group \<Rightarrow> card_view" where
  "render_card s e =
     \<lparr>cv_group = e, cv_border = card_border s e, cv_ring = (ringed s = Some (eg_id e)),
      cv_details = (if expandedError s = Some (eg_id e)
                    then Some (render_view (activeView s) e (detailedErrorData s)) else None)\<rparr>"

datatype page = Spinner | Page stats_panel "(string \<times> nat) list" "pie_slice list" "card_view list" bool

text \<open>The page (lines 300--598): the spinner while loading, otherwise the stats, the
  data of the two charts (\<open>Analytics\<close>), the cards, and the "No errors found" notice
  for an empty list.\<close>

definition dashboard_page :: "dash \<Rightarrow> page" where
  "dashboard_page s =
     (if loading s then Spinner
      else Page (render_stats (stats s)) (env_bars (stats s)) (service_pie (stats s))
             (map (render_card s) (errors s)) (errors s = []))"

section \<open>Properties of the renderers\<close>

text \<open>
  Spec section 8: a detail whose traces, spans or logs are empty, or absent, shows
  that view's explicit empty state, and only then.
\<close>

lemma empty_views_iff:
  "(renderTracesView d = EmptyState ''No traces found'' \<longleftrightarrow> or_nil (dt_traces d) = [])
   \<and> (renderSpansView d = EmptyState ''No spans found'' \<longleftrightarrow> or_nil (dt_spans d) = [])
   \<and> (renderLogsView d = EmptyState ''No logs found'' \<longleftrightarrow> or_nil (dt_logs d) = [])"
  by (simp add: renderTracesView_def renderSpansView_def renderLogsView_def Let_def)

text \<open>
  While the first detail fetch is outstanding the cache is the empty object, and
  every sub-view degrades to its empty state (the correlation view to zero counts):
  missing fields are empty collections, not errors.
\<close>

lemma render_empty_detail:
  "render_view v e empty_detail =
     (case v of
        Overview \<Rightarrow> renderOverview e
      | Traces \<Rightarrow> EmptyState ''No traces found''
      | Spans \<Rightarrow> EmptyState ''No spans found''
      | Logs \<Rightarrow> EmptyState ''No logs found''
      | Correlation \<Rightarrow> CorrelationPanel None 0 0 0
      | RCA \<Rightarrow> EmptyState ''No RCA analysis available'')"
  by (cases v) (simp_all add: empty_detail_def renderTracesView_def renderSpansView_def
      renderLogsView_def renderCorrelationView_def renderRCAView_def Let_def)

text \<open>
  The spans table has one row per span, in order, and never shows a duration of
  0 ms: a zero duration is falsy and shows as N/A.
\<close>

lemma spans_table_rows:
  assumes "renderSpansView d = SpansTable rows"
  shows "map sr_span_id rows = map sp_span_id (or_nil (dt_spans d))
         \<and> (\<forall>r \<in> set rows. sr_duration r \<noteq> DurMs 0)"
proof -
  from assms have rows: "rows = map span_row_of (or_nil (dt_spans d))"
    by (auto simp: renderSpansView_def Let_def split: if_splits)
  have "\<And>sp. sr_duration (span_row_of sp) \<noteq> DurMs 0"
    by (auto simp: span_row_of_def duration_cell_def split: option.splits)
  with rows show ?thesis by (auto simp: span_row_of_def)
qed

theorem spans_table_rows_witness:
  "map sr_span_id (map span_row_of
      [\<lparr>sp_trace_id_hex = Some ''ab'', sp_trace_id = None, sp_span_id = ''s1'',
        sp_operation_name = None, sp_duration = Some 0, sp_start_time = None, sp_tags = None\<rparr>])
     = [''s1'']
   \<and> sr_duration (span_row_of
      \<lparr>sp_trace_id_hex = Some ''ab'', sp_trace_id = None, sp_span_id = ''s1'',
        sp_operation_name = None, sp_duration = Some 0, sp_start_time = None, sp_tags = None\<rparr>)
     = DurNA"
proof -
  let ?sp = "\<lparr>sp_trace_id_hex = Some ''ab'', sp_trace_id = None, sp_span_id = ''s1'',
        sp_operation_name = None, sp_duration = Some 0, sp_start_time = None, sp_tags = None\<rparr>"
  let ?d = "empty_detail\<lparr>dt_spans := Some [?sp]\<rparr>"
  have h: "renderSpansView ?d = SpansTable (map span_row_of [?sp])"
    by (simp add: renderSpansView_def empty_detail_def)
  have "map sr_span_id (map span_row_of [?sp]) = map sp_span_id [?sp]"
    using spans_table_rows [OF h] by (simp add: empty_detail_def)
  then show ?thesis by (simp add: span_row_of_def duration_cell_def)
qed

text \<open>
  C16.  The page is well formed: one card per error group, in the list's order; with
  distinct ids at most one card shows a sub-view (the single expanded slot); the
  "No errors found" notice exactly when there is no card.
\<close>

theorem page_single_expanded:
  assumes "distinct (map eg_id (errors s))" and "dashboard_page s = Page p bars pie cs b"
  shows "map cv_group cs = errors s \<and> length (filter (\<lambda>c. cv_details c \<noteq> None) cs) \<le> 1
         \<and> b = (cs = [])"
proof -
  from assms(2) have cs: "cs = map (render_card s) (errors s)" and b: "b = (errors s = [])"
    by (auto simp: dashboard_page_def split: if_splits)
  have "filter (\<lambda>c. cv_details c \<noteq> None) cs
        = map (render_card s) (filter (\<lambda>e. Some (eg_id e) = expandedError s) (errors s))"
    unfolding cs by (simp add: filter_map comp_def render_card_def eq_commute)
  moreover have "length (filter (\<lambda>e. Some (eg_id e) = expandedError s) (errors s)) \<le> 1"
  proof (cases "expandedError s")
    case (Some i)
    with distinct_filter_key [OF assms(1), of i] show ?thesis by simp
  qed simp
  ultimately show ?thesis using cs b by (simp add: comp_def render_card_def)
qed

theorem page_single_expanded_witness:
  "distinct (map eg_id (errors (toggleErrorDetails sample_loaded (IdStr ''A''))))
   \<and> length (filter (\<lambda>c. cv_details c \<noteq> None)
       (map (render_card (toggleErrorDetails sample_loaded (IdStr ''A'')))
            (errors (toggleErrorDetails sample_loaded (IdStr ''A''))))) \<le> 1"
proof -
  let ?s = "toggleErrorDetails sample_loaded (IdStr ''A'')"
  have d: "distinct (map eg_id (errors ?s))"
    by (simp add: toggleErrorDetails_def sample_loaded_fields sample_group_def)
  have l: "\<not> loading ?s" by (simp add: toggleErrorDetails_def sample_loaded_fields)
  have pg: "dashboard_page ?s = Page (render_stats (stats ?s)) (env_bars (stats ?s)) (service_pie (stats ?s))
             (map (render_card ?s) (errors ?s)) (errors ?s = [])"
    using l by (simp add: dashboard_page_def)
  show ?thesis using page_single_expanded [OF d pg] d by simp
qed

end
