(* ===== verification/DetailPage.thy ===== *)
theory DetailPage
  imports Telemetry "HOL-Library.Multiset"
begin

text \<open>
  The error detail page, \<open>ErrorDetail.js\<close>, mounted by the route
  \<open>/dashboard/error/:errorId\<close>.  Its state is the route parameter and the three
  \<open>useState\<close> hooks (lines 7--10); its handlers are the fetch effect
  \<open>fetchErrorDetails\<close> (lines 12--26), the download \<open>downloadErrorData\<close> (lines 28--42)
  and the tab buttons (line 147); its render (lines 44--343) is a pure function of the
  state.  As in the dashboard's model, an \<open>await\<close> splits a handler in two: the part
  before it issues a request, and an event of the environment delivers the outcome.
  The state carries ghost fields for what the handlers leave to the browser: the
  requests issued, the fetches and downloads outstanding (with the \<open>errorId\<close> each
  closure captured), and the files the download saved.

  React Router keeps the same component instance when only \<open>:errorId\<close> changes, so a
  route change keeps the state and re-runs the effect (\<open>[errorId]\<close> dependency).
  After the route leaves the page, React ignores \<open>setState\<close> on the unmounted
  component, while the download's DOM calls still run.
\<close>

section \<open>State\<close>

datatype detail_tab = TabOverview | TabTraces | TabSpans | TabLogs | TabRCA

text \<open>How \<open>axios.get\<close> settles: a body, or a rejection, which is either an HTTP error
  status such as 404 or a failure of the network itself.\<close>

datatype detail_outcome = DetailBody error_detail | DetailMissing | DetailUnreachable

record detail_state =
  errorId :: string
  errorData :: "error_detail option"
  dp_loading :: bool
  activeTab :: detail_tab
  dp_requests :: "request list"
  dp_pending :: "string list"
  dp_downloads :: "string list"
  dp_saved :: "(string \<times> error_detail) list"
  dp_mounted :: bool

section \<open>Handlers\<close>

text \<open>\<open>fetchErrorDetails\<close> up to its \<open>await\<close> (lines 16--19).\<close>

definition fetchErrorDetails :: "detail_state \<Rightarrow> detail_state" where
  "fetchErrorDetails s =
     s\<lparr>dp_loading := True, dp_requests := dp_requests s @ [GetDetail (IdStr (errorId s))],
       dp_pending := dp_pending s @ [errorId s]\<rparr>"

text \<open>The rest of it (lines 20--25), when the request of the closure that captured
  \<open>e\<close> settles: a body is stored whatever the current \<open>errorId\<close> is, a rejection
  is only logged, and \<open>finally\<close> clears the spinner in both cases.\<close>

definition fetch_settled :: "detail_state \<Rightarrow> string \<Rightarrow> detail_outcome \<Rightarrow> detail_state" where
  "fetch_settled s e r =
     (let s1 = s\<lparr>dp_pending := remove1 e (dp_pending s)\<rparr> in
      if \<not> dp_mounted s then s1
      else (case r of
              DetailBody d \<Rightarrow> s1\<lparr>errorData := Some d, dp_loading := False\<rparr>
            | _ \<Rightarrow> s1\<lparr>dp_loading := False\<rparr>))"

text \<open>The first render and its effect (lines 7--14).\<close>

definition detail_mount :: "string \<Rightarrow> detail_state" where
  "detail_mount e =
     fetchErrorDetails
       \<lparr>errorId = e, errorData = None, dp_loading = True, activeTab = TabOverview,
        dp_requests = [], dp_pending = [], dp_downloads = [], dp_saved = [], dp_mounted = True\<rparr>"

text \<open>A new \<open>:errorId\<close> re-renders the same instance and re-runs the effect; the same
  one does not (the dependency is unchanged).\<close>

definition route_change :: "detail_state \<Rightarrow> string \<Rightarrow> detail_state" where
  "route_change s e = (if e = errorId s then s else fetchErrorDetails (s\<lparr>errorId := e\<rparr>))"

text \<open>\<open>downloadErrorData\<close> up to its \<open>await\<close> (line 30), and its rest (lines 31--41):
  the file is named after the \<open>errorId\<close> its closure captured.\<close>

definition downloadErrorData :: "detail_state \<Rightarrow> detail_state" where
  "downloadErrorData s =
     s\<lparr>dp_requests := dp_requests s @ [GetDownload (IdStr (errorId s))],
       dp_downloads := dp_downloads s @ [errorId s]\<rparr>"

definition download_file_name :: "string \<Rightarrow> string" where
  "download_file_name e = ''error-'' @ e @ ''.json''"

definition download_settled :: "detail_state \<Rightarrow> string \<Rightarrow> error_detail option \<Rightarrow> detail_state" where
  "download_settled s e r =
     s\<lparr>dp_downloads := remove1 e (dp_downloads s),
       dp_saved := dp_saved s @ (case r of None \<Rightarrow> [] | Some body \<Rightarrow> [(download_file_name e, body)])\<rparr>"

section \<open>Render\<close>

record error_summary =
  sm_env :: string
  sm_service :: string
  sm_http_code :: int
  sm_exception :: string
  sm_count :: int
  sm_window :: "string \<times> string"

datatype tab_body =
    TabEmpty string
  | OverviewCounts nat nat nat "string option"
  | TraceList "(string \<times> string) list"
  | SpanTable "(string \<times> string \<times> rat option \<times> string) list"
  | LogList "(string \<times> string \<times> log_data option) list"
  | RCAPanel string string

record detail_view =
  dv_id :: string
  dv_summary :: error_summary
  dv_counts :: "nat \<times> nat \<times> nat"
  dv_tab :: detail_tab
  dv_body :: tab_body

datatype detail_render = DetailSpinner | DetailNotFound | DetailCrash string | DetailShown detail_view

text \<open>The error summary (lines 104--136); \<open>error.env || 'UNSET'\<close>.\<close>

definition render_summary :: "error_group \<Rightarrow> error_summary" where
  "render_summary e =
     \<lparr>sm_env = (if eg_env e = [] then ''UNSET'' else eg_env e), sm_service = eg_service e,
      sm_http_code = eg_http_code e, sm_exception = eg_exception e, sm_count = eg_count e,
      sm_window = (eg_window_start e, eg_window_end e)\<rparr>"

text \<open>The five tab bodies (lines 169--339), each a function of the fields it reads.\<close>

definition overview_tab :: "trace list \<Rightarrow> span list \<Rightarrow> log_entry list \<Rightarrow> rca_report option \<Rightarrow> tab_body" where
  "overview_tab ts sps lgs rca =
     OverviewCounts (length ts) (length sps) (length lgs) (map_option rca_analysis_summary rca)"

definition traces_tab :: "trace list \<Rightarrow> tab_body" where
  "traces_tab ts =
     (if ts = [] then TabEmpty ''No traces found for this error''
      else TraceList (map (\<lambda>t. (tr_trace_id_hex t, tr_created_at t)) ts))"

definition spans_tab :: "span list \<Rightarrow> tab_body" where
  "spans_tab sps =
     (if sps = [] then TabEmpty ''No spans found for this error''
      else SpanTable (map (\<lambda>sp. (text_of (sp_operation_name sp), text_of (sp_trace_id sp),
                                 sp_duration sp, or_na (sp_start_time sp))) sps))"

definition logs_tab :: "log_entry list \<Rightarrow> tab_body" where
  "logs_tab lgs =
     (if lgs = [] then TabEmpty ''No logs found for this error''
      else LogList (map (\<lambda>l. (text_of (lg_trace_id l), lg_created_at l, lg_log_data l)) lgs))"

definition rca_tab :: "rca_report option \<Rightarrow> tab_body" where
  "rca_tab rca =
     (case rca of None \<Rightarrow> TabEmpty ''No RCA analysis available for this error''
      | Some r \<Rightarrow> RCAPanel (rca_analysis_summary r) (rca_created_at r))"

text \<open>The \<open>activeTab === ...\<close> dispatch (lines 167--339).\<close>

fun render_tab ::
  "detail_tab \<Rightarrow> trace list \<Rightarrow> span list \<Rightarrow> log_entry list \<Rightarrow> rca_report option \<Rightarrow> tab_body" where
  "render_tab TabOverview ts sps lgs rca = overview_tab ts sps lgs rca"
| "render_tab TabTraces ts sps lgs rca = traces_tab ts"
| "render_tab TabSpans ts sps lgs rca = spans_tab sps"
| "render_tab TabLogs ts sps lgs rca = logs_tab lgs"
| "render_tab TabRCA ts sps lgs rca = rca_tab rca"

text \<open>A stored body (lines 68--343).  The destructuring itself never fails, but the tab
  list reads \<open>traces.length\<close>, \<open>spans.length\<close> and \<open>logs.length\<close> (lines 72--74) and
  the summary reads \<open>error.env\<close> (line 109): the first of these fields that is absent
  throws a \<open>TypeError\<close> out of the render, named here by the field.\<close>

definition render_detail :: "string \<Rightarrow> detail_tab \<Rightarrow> error_detail \<Rightarrow> detail_render" where
  "render_detail i t d =
     (case dt_traces d of None \<Rightarrow> DetailCrash ''traces'' | Some ts \<Rightarrow>
      case dt_spans d of None \<Rightarrow> DetailCrash ''spans'' | Some sps \<Rightarrow>
      case dt_logs d of None \<Rightarrow> DetailCrash ''logs'' | Some lgs \<Rightarrow>
      case dt_error d of None \<Rightarrow> DetailCrash ''error'' | Some e \<Rightarrow>
        DetailShown \<lparr>dv_id = i, dv_summary = render_summary e,
                     dv_counts = (length ts, length sps, length lgs), dv_tab = t,
                     dv_body = render_tab t ts sps lgs (dt_rca_report d)\<rparr>)"

text \<open>The page: the spinner while loading (line 44), "Error Not Found" without a body
  (line 52), the body otherwise.\<close>

definition detail_page :: "detail_state \<Rightarrow> detail_render" where
  "detail_page s =
     (if dp_loading s then DetailSpinner
      else case errorData s of None \<Rightarrow> DetailNotFound | Some d \<Rightarrow> render_detail (errorId s) (activeTab s) d)"

fun shown :: "detail_render \<Rightarrow> bool" where
  "shown (DetailShown v) = True"
| "shown _ = False"

section \<open>Events\<close>

text \<open>The tab buttons and the download button exist only on a shown page; a fetch or a
  download settles only while it is outstanding; the route delivers a non-empty
  parameter while the page is mounted.\<close>

datatype detail_event =
    RouteTo string
  | FetchSettled string detail_outcome
  | SelectTab detail_tab
  | Download
  | DownloadSettled string "error_detail option"
  | Leave

fun detail_step :: "detail_state \<Rightarrow> detail_event \<Rightarrow> detail_state option" where
  "detail_step s (RouteTo e) =
     (if dp_mounted s \<and> e \<noteq> [] then Some (route_change s e) else None)"
| "detail_step s (FetchSettled e r) =
     (if e \<in> set (dp_pending s) then Some (fetch_settled s e r) else None)"
| "detail_step s (SelectTab t) =
     (if dp_mounted s \<and> shown (detail_page s) then Some (s\<lparr>activeTab := t\<rparr>) else None)"
| "detail_step s Download =
     (if dp_mounted s \<and> shown (detail_page s) then Some (downloadErrorData s) else None)"
| "detail_step s (DownloadSettled e r) =
     (if e \<in> set (dp_downloads s) then Some (download_settled s e r) else None)"
| "detail_step s Leave = (if dp_mounted s then Some (s\<lparr>dp_mounted := False\<rparr>) else None)"

fun detail_run :: "detail_state \<Rightarrow> detail_event list \<Rightarrow> detail_state option" where
  "detail_run s [] = Some s"
| "detail_run s (ev # evs) = (case detail_step s ev of None \<Rightarrow> None | Some s' \<Rightarrow> detail_run s' evs)"

inductive detail_reach :: "detail_state \<Rightarrow> bool" where
  mount: "e \<noteq> [] \<Longrightarrow> detail_reach (detail_mount e)"
| step: "detail_reach s \<Longrightarrow> detail_step s ev = Some s' \<Longrightarrow> detail_reach s'"

text \<open>The invariant: while the mounted page shows the spinner, the fetch of the current
  \<open>errorId\<close> is the last one outstanding; every outstanding fetch and download is
  one of the requests issued; the parameter is never empty.\<close>

fun detail_req_id :: "request \<Rightarrow> string list" where
  "detail_req_id (GetDetail (IdStr e)) = [e]"
| "detail_req_id _ = []"

fun download_req_id :: "request \<Rightarrow> string list" where
  "download_req_id (GetDownload (IdStr e)) = [e]"
| "download_req_id _ = []"

definition detail_inv :: "detail_state \<Rightarrow> bool" where
  "detail_inv s \<longleftrightarrow>
     (dp_mounted s \<and> dp_loading s \<longrightarrow> dp_pending s \<noteq> [] \<and> last (dp_pending s) = errorId s)
     \<and> mset (dp_pending s) \<subseteq># mset (concat (map detail_req_id (dp_requests s)))
     \<and> mset (dp_downloads s) \<subseteq># mset (concat (map download_req_id (dp_requests s)))
     \<and> errorId s \<noteq> []"


section \<open>Sample states\<close>

definition sample_detail_body :: "string \<Rightarrow> error_detail" where
  "sample_detail_body e =
     \<lparr>dt_error = Some \<lparr>eg_id = IdStr e, eg_env = ''prod'', eg_service = ''api'',
        eg_exception = ''Timeout'', eg_root_name = None, eg_span_kind = ''SERVER'',
        eg_http_code = 500, eg_count = 3, eg_window_start = ''t0'', eg_window_end = ''t1''\<rparr>,
      dt_traces = Some [], dt_spans = Some [], dt_logs = Some [], dt_rca_report = None\<rparr>"

definition sample_shown :: detail_state where
  "sample_shown = fetch_settled (detail_mount ''A'') ''A'' (DetailBody (sample_detail_body ''A''))"

section \<open>The invariant and its preservation\<close>

lemma mset_diff_le [simp]: "A \<subseteq># B \<Longrightarrow> A - C \<subseteq># B"
  by (rule subset_mset.order_trans [OF diff_subset_eq_self])

lemma inv_fetchErrorDetails:
  "mset (dp_pending s) \<subseteq># mset (concat (map detail_req_id (dp_requests s)))
   \<Longrightarrow> mset (dp_downloads s) \<subseteq># mset (concat (map download_req_id (dp_requests s)))
   \<Longrightarrow> errorId s \<noteq> [] \<Longrightarrow> detail_inv (fetchErrorDetails s)"
  by (auto simp: detail_inv_def fetchErrorDetails_def intro: subset_mset.add_right_mono)

lemma dinv_mount: "e \<noteq> [] \<Longrightarrow> detail_inv (detail_mount e)"
  by (simp add: detail_mount_def detail_inv_def fetchErrorDetails_def)

lemma inv_route_change: "detail_inv s \<Longrightarrow> e \<noteq> [] \<Longrightarrow> detail_inv (route_change s e)"
proof -
  assume i: "detail_inv s" and e: "e \<noteq> []"
  have "detail_inv (fetchErrorDetails (s\<lparr>errorId := e\<rparr>))"
    by (rule inv_fetchErrorDetails) (use i e in \<open>simp_all add: detail_inv_def\<close>)
  with i show ?thesis by (simp add: route_change_def)
qed

lemma inv_fetch_settled: "detail_inv s \<Longrightarrow> detail_inv (fetch_settled s e r)"
  by (auto simp: detail_inv_def fetch_settled_def Let_def split: detail_outcome.splits)

lemma inv_downloadErrorData: "detail_inv s \<Longrightarrow> detail_inv (downloadErrorData s)"
  by (auto simp: detail_inv_def downloadErrorData_def intro: subset_mset.add_right_mono)

lemma inv_download_settled: "detail_inv s \<Longrightarrow> detail_inv (download_settled s e r)"
  by (auto simp: detail_inv_def download_settled_def)

lemma dinv_step: "detail_inv s \<Longrightarrow> detail_step s ev = Some s' \<Longrightarrow> detail_inv s'"
  by (cases ev)
     (auto simp: inv_route_change inv_fetch_settled inv_downloadErrorData inv_download_settled
      split: if_splits, auto simp: detail_inv_def)

lemma detail_inv_reachable: "detail_reach s \<Longrightarrow> detail_inv s"
  by (induction rule: detail_reach.induct) (auto intro: dinv_mount dinv_step)

section \<open>Properties of the detail page\<close>

lemma sample_shown_fields:
  "errorId sample_shown = ''A''" "errorData sample_shown = Some (sample_detail_body ''A'')"
  "dp_loading sample_shown = False" "dp_mounted sample_shown = True" "dp_pending sample_shown = []"
  "dp_downloads sample_shown = []" "dp_saved sample_shown = []" "activeTab sample_shown = TabOverview"
  by (simp_all add: sample_shown_def detail_mount_def fetchErrorDetails_def fetch_settled_def)

lemma sample_shown_page: "shown (detail_page sample_shown)"
  by (simp add: detail_page_def sample_shown_fields render_detail_def sample_detail_body_def)

text \<open>
  C31.  Spec section 7 keeps "not found" for an absent entity and makes transient
  failures invisible; the page shows "Error Not Found" on any rejection of its first
  fetch, a network failure as much as a 404.
\<close>

theorem detail_failure_not_found:
  assumes "\<forall>d. r \<noteq> DetailBody d"
  shows "\<exists>s. detail_step (detail_mount e) (FetchSettled e r) = Some s \<and> detail_page s = DetailNotFound"
  using assms
  by (cases r) (simp_all add: detail_mount_def fetchErrorDetails_def fetch_settled_def detail_page_def)

theorem detail_failure_not_found_witness:
  "\<exists>s. detail_step (detail_mount ''A'') (FetchSettled ''A'' DetailUnreachable) = Some s
       \<and> detail_page s = DetailNotFound"
  using detail_failure_not_found [of DetailUnreachable "''A''"] by simp

text \<open>
  C32.  A route change to another error does not protect the page from the previous
  one: after it, a rejected fetch of the new id leaves the previous error's body shown
  under the new id's header, and when the fetch of the previous id is still in flight,
  its body arriving after the new one's replaces it, again under the new header.
\<close>

theorem detail_stale_after_route:
  assumes "errorData s = Some d" "dp_mounted s" "e \<noteq> errorId s" "e \<noteq> []"
    and "\<forall>b. r \<noteq> DetailBody b"
  shows "(\<exists>s'. detail_run s [RouteTo e, FetchSettled e r] = Some s' \<and> errorId s' = e
            \<and> detail_page s' = render_detail e (activeTab s) d)
         \<and> (errorId s \<in> set (dp_pending s) \<longrightarrow>
            (\<exists>s'. detail_run s [RouteTo e, FetchSettled e (DetailBody b),
                               FetchSettled (errorId s) (DetailBody d0)] = Some s'
                  \<and> errorId s' = e \<and> detail_page s' = render_detail e (activeTab s) d0))"
  using assms
  by (cases r) (auto simp: route_change_def fetchErrorDetails_def fetch_settled_def detail_page_def)

theorem detail_stale_after_route_witness:
  "\<exists>s'. detail_run (route_change sample_shown ''C'')
          [RouteTo ''B'', FetchSettled ''B'' (DetailBody (sample_detail_body ''B'')),
           FetchSettled ''C'' (DetailBody (sample_detail_body ''C''))] = Some s'
       \<and> errorId s' = ''B''
       \<and> detail_page s' = render_detail ''B'' TabOverview (sample_detail_body ''C'')"
proof -
  let ?s = "route_change sample_shown ''C''"
  have f: "errorData ?s = Some (sample_detail_body ''A'')" "dp_mounted ?s" "errorId ?s = ''C''"
    "''C'' \<in> set (dp_pending ?s)" "activeTab ?s = TabOverview"
    by (simp_all add: route_change_def fetchErrorDetails_def sample_shown_fields)
  show ?thesis
    using detail_stale_after_route [of ?s "sample_detail_body ''A''" "''B''" DetailMissing
        "sample_detail_body ''B''" "sample_detail_body ''C''"] f
    by simp
qed

text \<open>
  C33.  Spec section 7 asks renderers to degrade on a malformed body; the page instead
  throws out of its render exactly when the body lacks \<open>traces\<close>, \<open>spans\<close>,
  \<open>logs\<close> or \<open>error\<close>.
\<close>

theorem detail_crash_iff:
  "(\<exists>c. render_detail i t d = DetailCrash c)
   \<longleftrightarrow> dt_traces d = None \<or> dt_spans d = None \<or> dt_logs d = None \<or> dt_error d = None"
  by (simp add: render_detail_def split: option.splits)

text \<open>
  C34.  In every reachable state: while the mounted page shows the spinner, the fetch of
  the current id is the last one outstanding; each outstanding fetch and download was
  issued as a request; the route parameter is not empty.
\<close>

theorem detail_reach_inv:
  assumes "detail_reach s"
  shows "(dp_mounted s \<and> dp_loading s \<longrightarrow> dp_pending s \<noteq> [] \<and> last (dp_pending s) = errorId s)
     \<and> mset (dp_pending s) \<subseteq># mset (concat (map detail_req_id (dp_requests s)))
     \<and> mset (dp_downloads s) \<subseteq># mset (concat (map download_req_id (dp_requests s)))
     \<and> errorId s \<noteq> []"
  using detail_inv_reachable [OF assms] by (simp add: detail_inv_def)

theorem detail_reach_inv_witness:
  "mset (dp_pending (detail_mount ''A'')) \<subseteq># mset (concat (map detail_req_id (dp_requests (detail_mount ''A''))))
   \<and> last (dp_pending (detail_mount ''A'')) = ''A''"
  using detail_reach_inv [OF detail_reach.mount [of "''A''"]]
  by (simp add: detail_mount_def fetchErrorDetails_def)

text \<open>
  C35.  The spinner always ends: in a reachable state where the mounted page is loading,
  the fetch of the current id is outstanding, and its settling, whatever its outcome,
  clears the spinner.
\<close>

theorem detail_loading_progress:
  assumes "detail_reach s" "dp_mounted s" "dp_loading s"
  shows "\<exists>s'. detail_step s (FetchSettled (errorId s) r) = Some s' \<and> \<not> dp_loading s'"
proof -
  from detail_inv_reachable [OF assms(1)] assms(2,3)
  have "errorId s \<in> set (dp_pending s)" by (auto simp: detail_inv_def dest: last_in_set)
  with assms(2) show ?thesis
    by (cases r) (simp_all add: fetch_settled_def)
qed

theorem detail_loading_progress_witness:
  "\<exists>s'. detail_step (detail_mount ''A'') (FetchSettled ''A'' DetailUnreachable) = Some s'
       \<and> \<not> dp_loading s'"
  using detail_loading_progress [OF detail_reach.mount [of "''A''"], of DetailUnreachable]
  by (simp add: detail_mount_def fetchErrorDetails_def)

text \<open>
  C36.  A download saves the payload under the name of the error the button was pressed
  on, \<open>error-<id>.json\<close>, even when the route has moved on before it arrives.
\<close>

theorem download_named_by_click:
  assumes "dp_mounted s" "shown (detail_page s)" "e \<noteq> errorId s" "e \<noteq> []"
  shows "\<exists>s'. detail_run s [Download, RouteTo e, DownloadSettled (errorId s) (Some b)] = Some s'
           \<and> dp_saved s' = dp_saved s @ [(''error-'' @ errorId s @ ''.json'', b)]
           \<and> errorId s' = e \<and> dp_requests s' = dp_requests s @ [GetDownload (IdStr (errorId s)), GetDetail (IdStr e)]"
  using assms
  by (simp add: downloadErrorData_def route_change_def fetchErrorDetails_def download_settled_def
      download_file_name_def detail_page_def)

theorem download_named_by_click_witness:
  "\<exists>s'. detail_run sample_shown [Download, RouteTo ''B'', DownloadSettled ''A'' (Some (sample_detail_body ''A''))] = Some s'
       \<and> dp_saved s' = [(''error-A.json'', sample_detail_body ''A'')]"
  using download_named_by_click [of sample_shown "''B''" "sample_detail_body ''A''"]
  by (simp add: sample_shown_fields sample_shown_page del: detail_run.simps) blast

text \<open>
  C37.  A route change to another error re-fetches it once and shows the spinner, but
  keeps the selected tab: the new error opens on the tab the previous one was left on.
\<close>

theorem route_keeps_tab:
  assumes "detail_step s (RouteTo e) = Some s'" "e \<noteq> errorId s"
  shows "activeTab s' = activeTab s \<and> dp_loading s' \<and> errorId s' = e
         \<and> dp_requests s' = dp_requests s @ [GetDetail (IdStr e)] \<and> errorData s' = errorData s"
  using assms by (auto simp: route_change_def fetchErrorDetails_def split: if_splits)

theorem route_keeps_tab_witness:
  "detail_step (sample_shown\<lparr>activeTab := TabLogs\<rparr>) (RouteTo ''B'') =
     Some (route_change (sample_shown\<lparr>activeTab := TabLogs\<rparr>) ''B'')
   \<and> activeTab (route_change (sample_shown\<lparr>activeTab := TabLogs\<rparr>) ''B'') = TabLogs"
proof -
  let ?s = "sample_shown\<lparr>activeTab := TabLogs\<rparr>"
  have st: "detail_step ?s (RouteTo ''B'') = Some (route_change ?s ''B'')"
    by (simp add: sample_shown_fields)
  have "activeTab (route_change ?s ''B'') = activeTab ?s"
    using route_keeps_tab [OF st] by (simp add: sample_shown_fields)
  with st show ?thesis by simp
qed

end
