(* ===== verification/Routing.thy ===== *)
theory Routing
  imports DeepLink
begin

text \<open>
  The route table of \<open>App.js\<close> (lines 13--17).  React Router matches the pathname of the address against each route's
  pattern: static segments compare without regard to ASCII case (its default
  \<open>caseSensitive = false\<close>), trailing slashes are allowed, and a dynamic segment
  \<open>:errorId\<close> takes one non-empty segment.  The pathname is the address up to its query
  or fragment, with the scheme and authority of an absolute address removed.
  Percent-decoding of the parameter is not modelled (where it happens differs between
  React Router versions and none is pinned), so the properties of the route table are
  stated for parameters without \<open>%\<close>, on which every decoding is the identity.
\<close>

section \<open>The pathname of an address\<close>

fun strip_scheme :: "string \<Rightarrow> string option" where
  "strip_scheme (a # b # c # rest) =
     (if a = CHR '':'' \<and> b = CHR ''/'' \<and> c = CHR ''/'' then Some rest else strip_scheme (b # c # rest))"
| "strip_scheme _ = None"

definition url_pathname :: "string \<Rightarrow> string" where
  "url_pathname u =
     (let v = takeWhile (\<lambda>c. c \<noteq> CHR ''?'' \<and> c \<noteq> CHR ''#'') u in
      case strip_scheme v of None \<Rightarrow> v | Some r \<Rightarrow> dropWhile (\<lambda>c. c \<noteq> CHR ''/'') r)"

section \<open>The route table\<close>

datatype route = RouteDashboard | RouteErrorDetail string | RouteNone

definition ascii_lower :: "char \<Rightarrow> char" where
  "ascii_lower c = (let n = of_char c :: nat in if 65 \<le> n \<and> n \<le> 90 then char_of (n + 32) else c)"

definition strip_trailing_slashes :: "string \<Rightarrow> string" where
  "strip_trailing_slashes p = rev (dropWhile (\<lambda>c. c = CHR ''/'') (rev p))"

text \<open>\<open>/\<close> and \<open>/dashboard\<close> render the dashboard, \<open>/dashboard/error/:errorId\<close> the
  detail page; any other path matches no route and renders nothing below the navbar.\<close>

definition app_route :: "string \<Rightarrow> route" where
  "app_route p =
     (let q = strip_trailing_slashes p in
      if q = [] then RouteDashboard
      else if map ascii_lower q = ''/dashboard'' then RouteDashboard
      else if map ascii_lower (take 17 q) = ''/dashboard/error/'' \<and> drop 17 q \<noteq> []
              \<and> CHR ''/'' \<notin> set (drop 17 q)
        then RouteErrorDetail (drop 17 q)
      else RouteNone)"

section \<open>Lemmas\<close>

lemma ascii_lower_slash [simp]: "ascii_lower CHR ''/'' = CHR ''/''"
  by (simp add: ascii_lower_def)

lemma ascii_lower_upper: "ascii_lower CHR ''D'' = CHR ''d''" "ascii_lower CHR ''E'' = CHR ''e''"
  by code_simp+

lemma strip_trailing_slashes_no_slash:
  "p \<noteq> [] \<Longrightarrow> last p \<noteq> CHR ''/'' \<Longrightarrow> strip_trailing_slashes p = p"
  by (cases p rule: rev_cases) (simp_all add: strip_trailing_slashes_def)

lemma strip_scheme_Cons:
  "a \<noteq> CHR '':'' \<Longrightarrow> 2 \<le> length xs \<Longrightarrow> strip_scheme (a # xs) = strip_scheme xs"
  by (cases xs; cases "tl xs") auto

lemma strip_scheme_append:
  "CHR '':'' \<notin> set sch \<Longrightarrow> strip_scheme (sch @ ''://'' @ rest) = Some rest"
proof (induction sch)
  case Nil
  then show ?case by simp
next
  case (Cons a sch)
  then have "strip_scheme (a # sch @ ''://'' @ rest) = strip_scheme (sch @ ''://'' @ rest)"
    by (intro strip_scheme_Cons) auto
  with Cons show ?case by simp
qed

lemma strip_scheme_no_colon: "CHR '':'' \<notin> set xs \<Longrightarrow> strip_scheme xs = None"
  by (induction xs rule: strip_scheme.induct) auto

lemma last_no_slash: "e \<noteq> [] \<Longrightarrow> CHR ''/'' \<notin> set e \<Longrightarrow> last (x @ e) \<noteq> CHR ''/''"
  using last_in_set by (fastforce simp: last_append)

lemma app_route_detail:
  assumes "e \<noteq> []" "CHR ''/'' \<notin> set e"
  shows "app_route (''/dashboard/error/'' @ e) = RouteErrorDetail e"
proof -
  have s: "strip_trailing_slashes (''/dashboard/error/'' @ e) = ''/dashboard/error/'' @ e"
    by (rule strip_trailing_slashes_no_slash) (simp, rule last_no_slash [OF assms])
  have ne: "map ascii_lower (''/dashboard/error/'' @ e) \<noteq> ''/dashboard''"
    by (simp add: ascii_lower_def)
  show ?thesis unfolding app_route_def Let_def s using assms ne by (simp add: ascii_lower_def)
qed

lemma url_pathname_detail:
  assumes "CHR ''?'' \<notin> set e" "CHR ''#'' \<notin> set e" "CHR '':'' \<notin> set e"
  shows "url_pathname (''/dashboard/error/'' @ e) = ''/dashboard/error/'' @ e"
proof -
  let ?p = "''/dashboard/error/'' @ e"
  have tw: "takeWhile (\<lambda>c. c \<noteq> CHR ''?'' \<and> c \<noteq> CHR ''#'') ?p = ?p"
    using assms(1,2) by (auto simp: takeWhile_eq_all_conv)
  have ss: "strip_scheme ?p = None" by (rule strip_scheme_no_colon) (use assms(3) in simp)
  show ?thesis by (simp only: url_pathname_def Let_def tw ss option.case)
qed

lemma dashboard_address:
  "url_pathname ''/dashboard'' = ''/dashboard''" "app_route ''/dashboard'' = RouteDashboard"
  "location_search ''/dashboard'' = []"
  by (simp_all add: url_pathname_def app_route_def strip_trailing_slashes_def ascii_lower_def
      location_search_def)

lemma url_pathname_share:
  assumes "CHR '':'' \<notin> set sch" "CHR ''?'' \<notin> set sch" "CHR ''#'' \<notin> set sch"
    and "CHR ''/'' \<notin> set host" "CHR ''?'' \<notin> set host" "CHR ''#'' \<notin> set host"
  shows "url_pathname (share_link (sch @ ''://'' @ host) i) = ''/dashboard''"
proof -
  let ?P = "\<lambda>c. c \<noteq> CHR ''?'' \<and> c \<noteq> CHR ''#''"
  have eq: "share_link (sch @ ''://'' @ host) i
        = (sch @ ''://'' @ host @ ''/dashboard'') @ ''?highlight='' @ id_text i"
    by (simp add: share_link_def)
  have "\<And>c. c \<in> set (sch @ ''://'' @ host @ ''/dashboard'') \<Longrightarrow> ?P c"
    using assms by auto
  then have tw: "takeWhile ?P (share_link (sch @ ''://'' @ host) i) = sch @ ''://'' @ host @ ''/dashboard''"
    unfolding eq by (subst takeWhile_append2) simp_all
  have "dropWhile (\<lambda>c. c \<noteq> CHR ''/'') (host @ ''/dashboard'') = ''/dashboard''"
    using assms(4) by (subst dropWhile_append2) auto
  then show ?thesis
    unfolding url_pathname_def Let_def tw strip_scheme_append [OF assms(1)] by simp
qed

section \<open>Properties of the route table\<close>

text \<open>
  C38.  Round trip of the detail route: the address of the detail page of a non-empty
  id without a slash and without a percent sign routes to the detail page with exactly
  that id, whatever the case of its static part.  Without \<open>%\<close> there is no escape to
  decode, so the parameter React Router hands to the page is the segment itself in
  every version, whichever way it decodes; for ids with \<open>%\<close> the model makes no claim.
\<close>

theorem route_detail_roundtrip:
  assumes "e \<noteq> []" "CHR ''/'' \<notin> set e" "CHR ''%'' \<notin> set e"
  shows "app_route (''/dashboard/error/'' @ e) = RouteErrorDetail e
         \<and> app_route (''/Dashboard/Error/'' @ e @ ''/'') = RouteErrorDetail e"
proof -
  have s2: "strip_trailing_slashes (''/Dashboard/Error/'' @ e @ ''/'') = ''/Dashboard/Error/'' @ e"
    using last_no_slash [OF assms(1,2), of "''/Dashboard/Error/''"]
      strip_trailing_slashes_no_slash [of "''/Dashboard/Error/'' @ e"]
    by (simp add: strip_trailing_slashes_def)
  have ne: "map ascii_lower (''/Dashboard/Error/'' @ e) \<noteq> ''/dashboard''"
    by (simp add: ascii_lower_def)
  have "app_route (''/Dashboard/Error/'' @ e @ ''/'') = RouteErrorDetail e"
    unfolding app_route_def Let_def s2 using assms ne
    by (simp add: ascii_lower_upper, simp add: ascii_lower_def)
  with app_route_detail [OF assms(1,2)] show ?thesis by simp
qed

theorem route_detail_roundtrip_witness:
  "app_route ''/dashboard/error/E1'' = RouteErrorDetail ''E1''"
  using route_detail_roundtrip [of "''E1''"] by simp

end
