(* ===== verification/App.thy ===== *)
theory App
  imports Views DetailPage Routing
begin

text \<open>
  The application shell: \<open>App.js\<close> renders the navbar above the element of the matched
  route (lines 7--22), and \<open>Navbar.js\<close> is a static bar of links (lines 5--31).  Moving
  between addresses mounts and unmounts the two page components.  React keeps a
  component instance when the element at the same place has the same type, so a move
  between \<open>/\<close> and \<open>/dashboard\<close> keeps the dashboard, and a move between two detail
  addresses keeps the detail page (which sees a new \<open>:errorId\<close>); a move between the
  two kinds of page unmounts one and mounts the other.

  The state keeps every instance of either page that was ever mounted: an unmounted
  dashboard still receives its timer ticks and the outcomes of its requests, which is
  how its leaked interval keeps polling.  The component events of \<open>Dashboard\<close> and
  \<open>DetailPage\<close> are delivered to an instance by its index; unmounting and route
  changes are not component events here, they come only from navigation.
\<close>

section \<open>The navbar and the links of the interface\<close>

record navbar =
  nb_brand :: "string \<times> string"
  nb_links :: "(string \<times> string) list"
  nb_status :: string

definition navbar_view :: navbar where
  "navbar_view =
     \<lparr>nb_brand = (''/'', ''RCA Platform''), nb_links = [(''/dashboard'', ''Dashboard'')],
      nb_status = ''Live Monitoring''\<rparr>"

text \<open>The back links of the detail page: on "Error Not Found" (\<open>ErrorDetail.js\<close>
  lines 58--63) and in the header (lines 83--88).\<close>

definition detail_back_links :: "string list" where
  "detail_back_links = [''/dashboard'', ''/dashboard'']"

text \<open>Every link target the components render: the navbar's, the detail page's, and the
  share link of each card (\<open>Dashboard.js\<close> line 464).\<close>

definition ui_links :: "string \<Rightarrow> err_id list \<Rightarrow> string list" where
  "ui_links origin ids =
     fst (nb_brand navbar_view) # map fst (nb_links navbar_view) @ detail_back_links
     @ map (share_link origin) ids"

section \<open>The shell and navigation\<close>

datatype page_kind = KindDashboard | KindDetail | KindNone

fun route_kind :: "route \<Rightarrow> page_kind" where
  "route_kind RouteDashboard = KindDashboard"
| "route_kind (RouteErrorDetail e) = KindDetail"
| "route_kind RouteNone = KindNone"

record app_state =
  app_path :: string
  dash_insts :: "dash list"
  detail_insts :: "detail_state list"

text \<open>What \<open>App\<close> renders at an address: the navbar and the route's element.\<close>

record app_view =
  av_navbar :: navbar
  av_main :: route

definition app_page :: "app_state \<Rightarrow> app_view" where
  "app_page a = \<lparr>av_navbar = navbar_view, av_main = app_route (app_path a)\<rparr>"

text \<open>Mounting the element of a route: the dashboard reads the query of the address
  at its mount; the detail page receives its parameter.\<close>

definition mount_route :: "route \<Rightarrow> string \<Rightarrow> app_state \<Rightarrow> app_state" where
  "mount_route r search a =
     (case r of
        RouteDashboard \<Rightarrow> a\<lparr>dash_insts := dash_insts a @ [dashboard_mount search]\<rparr>
      | RouteErrorDetail e \<Rightarrow> a\<lparr>detail_insts := detail_insts a @ [detail_mount e]\<rparr>
      | RouteNone \<Rightarrow> a)"

text \<open>Unmounting the current element: the dashboard's effect cleanup, the detail
  page's departure.\<close>

definition unmount_route :: "route \<Rightarrow> app_state \<Rightarrow> app_state option" where
  "unmount_route r a =
     (case r of
        RouteDashboard \<Rightarrow>
          (case dash_insts a of [] \<Rightarrow> None | _ \<Rightarrow>
             map_option (\<lambda>d. a\<lparr>dash_insts := butlast (dash_insts a) @ [d]\<rparr>)
               (dash_step (last (dash_insts a)) (Timer Unmount)))
      | RouteErrorDetail e \<Rightarrow>
          (case detail_insts a of [] \<Rightarrow> None | _ \<Rightarrow>
             map_option (\<lambda>d. a\<lparr>detail_insts := butlast (detail_insts a) @ [d]\<rparr>)
               (detail_step (last (detail_insts a)) Leave))
      | RouteNone \<Rightarrow> Some a)"

definition app_load :: "string \<Rightarrow> app_state" where
  "app_load u =
     mount_route (app_route (url_pathname u)) (location_search u)
       \<lparr>app_path = url_pathname u, dash_insts = [], detail_insts = []\<rparr>"

definition navigate :: "app_state \<Rightarrow> string \<Rightarrow> app_state option" where
  "navigate a u =
     (let r = app_route (app_path a); r' = app_route (url_pathname u);
          a1 = a\<lparr>app_path := url_pathname u\<rparr> in
      if route_kind r = route_kind r' then
        (case r' of
           RouteErrorDetail e \<Rightarrow>
             (case detail_insts a of [] \<Rightarrow> None | _ \<Rightarrow>
                map_option (\<lambda>d. a1\<lparr>detail_insts := butlast (detail_insts a) @ [d]\<rparr>)
                  (detail_step (last (detail_insts a)) (RouteTo e)))
         | _ \<Rightarrow> Some a1)
      else map_option (mount_route r' (location_search u)) (unmount_route r a1))"

datatype app_event = Navigate string | DashEv nat dash_event | DetailEv nat detail_event

fun component_event_dash :: "dash_event \<Rightarrow> bool" where
  "component_event_dash (Timer Unmount) = False"
| "component_event_dash _ = True"

fun component_event_detail :: "detail_event \<Rightarrow> bool" where
  "component_event_detail (RouteTo e) = False"
| "component_event_detail Leave = False"
| "component_event_detail _ = True"

text \<open>
  The highlight timeout of instance \<open>n\<close> (\<open>Dashboard.js\<close> lines 33--39) is never
  cleared, and its callback looks the card up in the whole document, not in its own
  instance: the page in the document is the mounted dashboard, which is the last instance
  (\<open>app_inv\<close> below), if the address is a dashboard's.  The callback rings the card there;
  an unmounted instance \<open>n\<close> only loses its pending timer.  For a mounted \<open>n\<close>, the last
  instance, this is \<open>highlight_fire\<close>.
\<close>

definition highlight_timeout :: "app_state \<Rightarrow> nat \<Rightarrow> app_state option" where
  "highlight_timeout a n =
     (let d = dash_insts a ! n in
      if highlight_timer d then
        Some (let a1 = a\<lparr>dash_insts := (dash_insts a)[n := d\<lparr>highlight_timer := False\<rparr>]\<rparr>;
                  m = length (dash_insts a) - 1 in
              case highlightedError d of
                None \<Rightarrow> a1
              | Some h \<Rightarrow> a1\<lparr>dash_insts := (dash_insts a1)[m := ring_card h (dash_insts a1 ! m)]\<rparr>)
      else None)"

fun app_step :: "app_state \<Rightarrow> app_event \<Rightarrow> app_state option" where
  "app_step a (Navigate u) = navigate a u"
| "app_step a (DashEv n ev) =
     (if n < length (dash_insts a) \<and> component_event_dash ev then
        (if ev = HighlightTimer then highlight_timeout a n
         else map_option (\<lambda>d. a\<lparr>dash_insts := (dash_insts a)[n := d]\<rparr>) (dash_step (dash_insts a ! n) ev))
      else None)"
| "app_step a (DetailEv n ev) =
     (if n < length (detail_insts a) \<and> component_event_detail ev then
        map_option (\<lambda>d. a\<lparr>detail_insts := (detail_insts a)[n := d]\<rparr>) (detail_step (detail_insts a ! n) ev)
      else None)"

fun app_run :: "app_state \<Rightarrow> app_event list \<Rightarrow> app_state option" where
  "app_run a [] = Some a"
| "app_run a (ev # evs) = (case app_step a ev of None \<Rightarrow> None | Some a' \<Rightarrow> app_run a' evs)"

inductive app_reach :: "app_state \<Rightarrow> bool" where
  load: "app_reach (app_load u)"
| step: "app_reach a \<Longrightarrow> app_step a ev = Some a' \<Longrightarrow> app_reach a'"

text \<open>The shell's invariant: exactly the last instance of the current page's kind is
  mounted, every other instance is unmounted, and the detail page shown has the id of
  the address.\<close>

definition only_last :: "('a \<Rightarrow> bool) \<Rightarrow> 'a list \<Rightarrow> bool \<Rightarrow> bool" where
  "only_last P xs b \<longleftrightarrow> (\<forall>n < length xs. P (xs ! n) \<longleftrightarrow> b \<and> n = length xs - 1) \<and> (b \<longrightarrow> xs \<noteq> [])"

definition app_inv :: "app_state \<Rightarrow> bool" where
  "app_inv a \<longleftrightarrow>
     only_last (\<lambda>d. mounted (timers d)) (dash_insts a) (route_kind (app_route (app_path a)) = KindDashboard)
   \<and> only_last dp_mounted (detail_insts a) (route_kind (app_route (app_path a)) = KindDetail)
   \<and> (route_kind (app_route (app_path a)) = KindDetail
        \<longrightarrow> app_route (app_path a) = RouteErrorDetail (errorId (last (detail_insts a))))"

section \<open>Lemmas of the shell\<close>

lemma only_last_append: "only_last P xs False \<Longrightarrow> P x \<Longrightarrow> only_last P (xs @ [x]) True"
  by (auto simp: only_last_def nth_append)

lemma only_last_replace_last:
  "only_last P xs b \<Longrightarrow> xs \<noteq> [] \<Longrightarrow> (P d \<longleftrightarrow> b') \<Longrightarrow> (b' \<longrightarrow> b)
   \<Longrightarrow> only_last P (butlast xs @ [d]) b'"
proof -
  assume h: "only_last P xs b" "xs \<noteq> []" "P d \<longleftrightarrow> b'" "b' \<longrightarrow> b"
  obtain ys y where xs: "xs = ys @ [y]" using h(2) by (cases xs rule: rev_cases) auto
  have "\<not> P (ys ! n)" if "n < length ys" for n
    using h(1) that unfolding only_last_def xs by (auto dest!: spec [of _ n] simp: nth_append)
  with h(3) show ?thesis by (auto simp: only_last_def xs nth_append)
qed

lemma only_last_update:
  "only_last P xs b \<Longrightarrow> n < length xs \<Longrightarrow> (P d \<longleftrightarrow> P (xs ! n)) \<Longrightarrow> only_last P (xs[n := d]) b"
  by (auto simp: only_last_def nth_list_update)

lemma only_last_nil: "only_last P [] False"
  by (simp add: only_last_def)

lemma only_last_map: "map P xs = map P ys \<Longrightarrow> only_last P xs b = only_last P ys b"
proof -
  assume m: "map P xs = map P ys"
  then have l: "length xs = length ys" by (rule map_eq_imp_length_eq)
  have "P (xs ! n) = P (ys ! n)" if "n < length xs" for n
    using arg_cong [OF m, of "\<lambda>zs. zs ! n"] that l by simp
  with l show ?thesis unfolding only_last_def by auto
qed

lemma highlight_timeout_frame:
  assumes "highlight_timeout a n = Some a'" "n < length (dash_insts a)"
  shows "map (\<lambda>d. mounted (timers d)) (dash_insts a') = map (\<lambda>d. mounted (timers d)) (dash_insts a)
         \<and> app_path a' = app_path a \<and> detail_insts a' = detail_insts a"
proof -
  let ?d = "dash_insts a ! n" let ?f = "\<lambda>d. mounted (timers d)"
  let ?a1 = "a\<lparr>dash_insts := (dash_insts a)[n := ?d\<lparr>highlight_timer := False\<rparr>]\<rparr>"
  have t: "highlight_timer ?d" using assms(1) by (simp add: highlight_timeout_def Let_def split: if_splits)
  have "(map ?f (dash_insts a))[n := ?f ?d] = map ?f (dash_insts a)"
    using assms(2) list_update_id [of "map ?f (dash_insts a)" n] by simp
  then have m1: "map ?f (dash_insts ?a1) = map ?f (dash_insts a)" by (simp add: map_update)
  have "highlight_timeout a n = Some (case highlightedError ?d of None \<Rightarrow> ?a1
           | Some h \<Rightarrow> ?a1\<lparr>dash_insts := (dash_insts ?a1)[length (dash_insts a) - 1
                           := ring_card h (dash_insts ?a1 ! (length (dash_insts a) - 1))]\<rparr>)"
    using t unfolding highlight_timeout_def Let_def by (simp only: if_True)
  with assms(1) have a': "a' = (case highlightedError ?d of None \<Rightarrow> ?a1
           | Some h \<Rightarrow> ?a1\<lparr>dash_insts := (dash_insts ?a1)[length (dash_insts a) - 1
                           := ring_card h (dash_insts ?a1 ! (length (dash_insts a) - 1))]\<rparr>)"
    by simp
  show ?thesis
  proof (cases "highlightedError ?d")
    case None
    with a' m1 show ?thesis by simp
  next
    case (Some h)
    have "length (dash_insts a) - 1 < length (dash_insts ?a1)" using assms(2) by simp
    then have "(map ?f (dash_insts ?a1))[length (dash_insts a) - 1
                := ?f (ring_card h (dash_insts ?a1 ! (length (dash_insts a) - 1)))] = map ?f (dash_insts ?a1)"
      using list_update_id [of "map ?f (dash_insts ?a1)" "length (dash_insts a) - 1"] by simp
    moreover have "map ?f ((dash_insts ?a1)[length (dash_insts a) - 1
                := ring_card h (dash_insts ?a1 ! (length (dash_insts a) - 1))])
        = (map ?f (dash_insts ?a1))[length (dash_insts a) - 1
                := ?f (ring_card h (dash_insts ?a1 ! (length (dash_insts a) - 1)))]"
      by (rule map_update)
    ultimately show ?thesis using Some a' m1 by simp
  qed
qed

lemma dash_step_keeps_mounted:
  "component_event_dash ev \<Longrightarrow> dash_step s ev = Some s' \<Longrightarrow> mounted (timers s') = mounted (timers s)"
proof (cases ev)
  case (Timer x)
  assume "component_event_dash ev" "dash_step s ev = Some s'"
  with Timer show ?thesis by (cases x) (auto simp: step_Timer split: if_splits)
qed (auto simp: dash_step_Some toggle_frame)

lemma detail_step_keeps_mounted:
  "component_event_detail ev \<Longrightarrow> detail_step s ev = Some s'
   \<Longrightarrow> dp_mounted s' = dp_mounted s \<and> errorId s' = errorId s"
  by (cases ev)
     (auto simp: fetch_settled_def downloadErrorData_def download_settled_def Let_def
      split: if_splits detail_outcome.splits)

lemma unmount_dash: "dash_step d (Timer Unmount) = Some d' \<Longrightarrow> \<not> mounted (timers d')"
  by (auto simp: step_Timer split: if_splits)

lemma unmount_detail: "detail_step d Leave = Some d' \<Longrightarrow> \<not> dp_mounted d'"
  by (auto split: if_splits)

lemma mount_dash: "mounted (timers (dashboard_mount q))"
  by (simp add: dashboard_mount_def Let_def sched_mount_def)

lemma mount_detail: "dp_mounted (detail_mount e) \<and> errorId (detail_mount e) = e"
  by (simp add: detail_mount_def fetchErrorDetails_def)

lemma route_to_detail:
  "detail_step d (RouteTo e) = Some d' \<Longrightarrow> dp_mounted d' = dp_mounted d \<and> errorId d' = e"
  by (auto simp: route_change_def fetchErrorDetails_def split: if_splits)

lemma unmount_route_inv:
  assumes "only_last (\<lambda>d. mounted (timers d)) (dash_insts a) (route_kind r = KindDashboard)"
    and "only_last dp_mounted (detail_insts a) (route_kind r = KindDetail)"
    and "unmount_route r a = Some a'"
  shows "only_last (\<lambda>d. mounted (timers d)) (dash_insts a') False
         \<and> only_last dp_mounted (detail_insts a') False \<and> app_path a' = app_path a"
proof (cases r)
  case RouteDashboard
  with assms obtain d where "dash_insts a \<noteq> []" "dash_step (last (dash_insts a)) (Timer Unmount) = Some d"
    "a' = a\<lparr>dash_insts := butlast (dash_insts a) @ [d]\<rparr>"
    by (auto simp: unmount_route_def split: list.splits)
  with assms RouteDashboard show ?thesis
    by (auto intro: only_last_replace_last dest: unmount_dash)
next
  case (RouteErrorDetail e)
  with assms obtain d where "detail_insts a \<noteq> []" "detail_step (last (detail_insts a)) Leave = Some d"
    "a' = a\<lparr>detail_insts := butlast (detail_insts a) @ [d]\<rparr>"
    by (auto simp: unmount_route_def simp del: detail_step.simps split: list.splits)
  with assms RouteErrorDetail show ?thesis
    by (auto simp del: detail_step.simps intro: only_last_replace_last dest: unmount_detail)
next
  case RouteNone
  with assms show ?thesis by (simp add: unmount_route_def)
qed

lemma mount_route_inv:
  assumes "only_last (\<lambda>d. mounted (timers d)) (dash_insts a) False"
    and "only_last dp_mounted (detail_insts a) False"
  shows "only_last (\<lambda>d. mounted (timers d)) (dash_insts (mount_route r q a)) (route_kind r = KindDashboard)
         \<and> only_last dp_mounted (detail_insts (mount_route r q a)) (route_kind r = KindDetail)
         \<and> (route_kind r = KindDetail \<longrightarrow> r = RouteErrorDetail (errorId (last (detail_insts (mount_route r q a)))))
         \<and> app_path (mount_route r q a) = app_path a"
  using assms by (cases r) (simp_all add: mount_route_def only_last_append mount_dash mount_detail)

lemma inv_app_load: "app_inv (app_load u)"
  using mount_route_inv [of "\<lparr>app_path = url_pathname u, dash_insts = [], detail_insts = []\<rparr>"
      "app_route (url_pathname u)" "location_search u"]
  by (simp add: app_inv_def app_load_def only_last_nil)

lemma inv_navigate: "app_inv a \<Longrightarrow> navigate a u = Some a' \<Longrightarrow> app_inv a'"
proof -
  assume i: "app_inv a" and n: "navigate a u = Some a'"
  let ?r = "app_route (app_path a)" and ?r' = "app_route (url_pathname u)"
  let ?a1 = "a\<lparr>app_path := url_pathname u\<rparr>"
  show ?thesis
  proof (cases "route_kind ?r = route_kind ?r'")
    case True
    show ?thesis
    proof (cases ?r')
      case (RouteErrorDetail e)
      with True obtain e0 where r: "?r = RouteErrorDetail e0" by (cases ?r) simp_all
      with n True RouteErrorDetail obtain d where ne: "detail_insts a \<noteq> []"
        and st: "detail_step (last (detail_insts a)) (RouteTo e) = Some d"
        and a': "a' = ?a1\<lparr>detail_insts := butlast (detail_insts a) @ [d]\<rparr>"
        by (auto simp: navigate_def Let_def simp del: detail_step.simps split: list.splits)
      from i r have "dp_mounted (last (detail_insts a))"
        using ne by (auto simp: app_inv_def only_last_def last_conv_nth)
      with i r RouteErrorDetail ne route_to_detail [OF st] show ?thesis
        unfolding a' app_inv_def by (auto intro: only_last_replace_last)
    qed (use i n True in \<open>auto simp: navigate_def Let_def app_inv_def\<close>)
  next
    case False
    with n obtain a2 where u: "unmount_route ?r ?a1 = Some a2" and a': "a' = mount_route ?r' (location_search u) a2"
      by (auto simp: navigate_def Let_def)
    from i have "only_last (\<lambda>d. mounted (timers d)) (dash_insts ?a1) (route_kind ?r = KindDashboard)"
      "only_last dp_mounted (detail_insts ?a1) (route_kind ?r = KindDetail)"
      by (simp_all add: app_inv_def)
    from unmount_route_inv [OF this u] have "only_last (\<lambda>d. mounted (timers d)) (dash_insts a2) False"
      "only_last dp_mounted (detail_insts a2) False" "app_path a2 = url_pathname u" by simp_all
    with mount_route_inv [OF this(1,2), of ?r' "location_search u"] show ?thesis
      unfolding a' app_inv_def by simp
  qed
qed

lemma inv_app_step: "app_inv a \<Longrightarrow> app_step a ev = Some a' \<Longrightarrow> app_inv a'"
proof (cases ev)
  case (Navigate u)
  assume "app_inv a" "app_step a ev = Some a'"
  with Navigate show ?thesis by (simp add: inv_navigate)
next
  case (DashEv n e)
  assume i: "app_inv a" and s: "app_step a ev = Some a'"
  show ?thesis
  proof (cases "e = HighlightTimer")
    case True
    with s DashEv have "highlight_timeout a n = Some a'" "n < length (dash_insts a)"
      by (auto split: if_splits)
    from highlight_timeout_frame [OF this] i show ?thesis
      unfolding app_inv_def using only_last_map by metis
  next
    case False
    with s DashEv obtain d where "n < length (dash_insts a)" "component_event_dash e"
      "dash_step (dash_insts a ! n) e = Some d" "a' = a\<lparr>dash_insts := (dash_insts a)[n := d]\<rparr>"
      by (auto split: if_splits)
    with i show ?thesis by (auto simp: app_inv_def intro: only_last_update dest: dash_step_keeps_mounted)
  qed
next
  case (DetailEv n e)
  assume i: "app_inv a" and s: "app_step a ev = Some a'"
  with DetailEv obtain d where l: "n < length (detail_insts a)" and c: "component_event_detail e"
    and st: "detail_step (detail_insts a ! n) e = Some d" and a': "a' = a\<lparr>detail_insts := (detail_insts a)[n := d]\<rparr>"
    by (auto split: if_splits)
  from detail_step_keeps_mounted [OF c st] have k: "dp_mounted d = dp_mounted (detail_insts a ! n)"
    "errorId d = errorId (detail_insts a ! n)" by simp_all
  from l have "detail_insts a \<noteq> []" by auto
  with l k have "errorId (last ((detail_insts a)[n := d])) = errorId (last (detail_insts a))"
    by (cases "n = length (detail_insts a) - 1") (simp_all add: last_list_update last_conv_nth)
  with i l k show ?thesis unfolding a' app_inv_def by (auto intro: only_last_update)
qed

lemma app_run_dash:
  "n < length (dash_insts a) \<Longrightarrow> list_all (\<lambda>ev. component_event_dash ev \<and> ev \<noteq> HighlightTimer) evs
   \<Longrightarrow> app_run a (map (DashEv n) evs)
       = map_option (\<lambda>d. a\<lparr>dash_insts := (dash_insts a)[n := d]\<rparr>) (dash_run (dash_insts a ! n) evs)"
proof (induction evs arbitrary: a)
  case (Cons ev evs)
  show ?case
  proof (cases "dash_step (dash_insts a ! n) ev")
    case (Some d)
    with Cons.prems Cons.IH [of "a\<lparr>dash_insts := (dash_insts a)[n := d]\<rparr>"] show ?thesis
      by simp
  qed (use Cons.prems in simp)
qed (simp add: list_update_id)

lemma interval_ticks_poll:
  "interval_active (timers d) \<Longrightarrow>
   \<exists>d'. dash_run d (replicate k (Timer IntervalTick)) = Some d' \<and> timers d' = timers d
        \<and> count_list (requests d') GetStats = count_list (requests d) GetStats + k"
proof (induction k arbitrary: d)
  case (Suc k)
  let ?d1 = "fetchData d"
  have st: "dash_step d (Timer IntervalTick) = Some ?d1"
    using Suc.prems by (simp add: dash_step.simps)
  from Suc.IH [of ?d1] Suc.prems obtain d' where "dash_run ?d1 (replicate k (Timer IntervalTick)) = Some d'"
    "timers d' = timers d" "count_list (requests d') GetStats = count_list (requests ?d1) GetStats + k"
    by auto
  with st show ?case by (simp add: poll_errors_request_def)
qed simp

lemma app_run_append:
  "app_run a (xs @ ys) = (case app_run a xs of None \<Rightarrow> None | Some a' \<Rightarrow> app_run a' ys)"
  by (induction xs arbitrary: a) (simp_all split: option.splits)

section \<open>Properties of the shell\<close>

text \<open>
  In every reachable state of the application, of all the page instances ever
  mounted exactly the last one of the current route's kind is mounted, and a detail page
  on screen has the id of the address.
\<close>

lemma app_reach_inv: "app_reach a \<Longrightarrow> app_inv a"
  by (induction rule: app_reach.induct) (auto intro: inv_app_load inv_app_step)

lemma app_reach_inv_witness: "app_inv (app_load ''http://localhost:3000/dashboard'')"
  by (rule app_reach_inv [OF app_reach.load])

text \<open>
  C11.  Leaving the dashboard does not stop its polling: once its first boundary has
  passed, the dashboard left for a detail page is unmounted, yet each of its interval
  ticks still sends the poll requests, while the detail page is on screen.
\<close>

theorem navigation_keeps_polling:
  assumes "app_route (url_pathname u) = RouteDashboard"
    and "e \<noteq> []" "CHR ''/'' \<notin> set e" "CHR ''?'' \<notin> set e" "CHR ''#'' \<notin> set e" "CHR '':'' \<notin> set e"
  shows "\<exists>a'. app_run (app_load u) ([DashEv 0 (Timer TimeoutFires), Navigate (''/dashboard/error/'' @ e)]
                  @ replicate k (DashEv 0 (Timer IntervalTick))) = Some a'
           \<and> app_route (app_path a') = RouteErrorDetail e
           \<and> \<not> mounted (timers (dash_insts a' ! 0))
           \<and> count_list (requests (dash_insts a' ! 0)) GetStats = k + 2"
proof -
  let ?d0 = "dashboard_mount (location_search u)"
  let ?a0 = "app_load u"
  have a0: "dash_insts ?a0 = [?d0]" "app_path ?a0 = url_pathname u"
    using assms(1) by (simp_all add: app_load_def mount_route_def)
  let ?d1 = "fetchData (?d0\<lparr>timers := (timers ?d0)\<lparr>timeout_pending := False, interval_active := True\<rparr>\<rparr>)"
  have s1: "dash_step ?d0 (Timer TimeoutFires) = Some ?d1"
    by (simp add: dash_step.simps dashboard_mount_def Let_def sched_mount_def)
  let ?a1 = "?a0\<lparr>dash_insts := [?d1]\<rparr>"
  have r1: "app_step ?a0 (DashEv 0 (Timer TimeoutFires)) = Some ?a1"
    using a0 s1 by simp
  let ?d2 = "?d1\<lparr>timers := (timers ?d1)\<lparr>mounted := False, timeout_pending := False\<rparr>\<rparr>"
  have s2: "dash_step ?d1 (Timer Unmount) = Some ?d2"
    by (simp add: dash_step.simps dashboard_mount_def Let_def sched_mount_def)
  let ?p = "''/dashboard/error/'' @ e"
  have pn: "url_pathname ?p = ?p" using url_pathname_detail [OF assms(4,5,6)] .
  have rt: "app_route ?p = RouteErrorDetail e"
    using app_route_detail [OF assms(2,3)] .
  let ?a2 = "\<lparr>app_path = ?p, dash_insts = [?d2], detail_insts = [detail_mount e]\<rparr>"
  have r2: "app_step ?a1 (Navigate ?p) = Some ?a2"
    using a0 assms(1) s2 pn rt
    by (simp add: navigate_def unmount_route_def mount_route_def app_load_def)
  have ia: "interval_active (timers ?d2)" by simp
  from interval_ticks_poll [OF ia, of k] obtain d' where
    t: "dash_run ?d2 (replicate k (Timer IntervalTick)) = Some d'" "timers d' = timers ?d2"
      "count_list (requests d') GetStats = count_list (requests ?d2) GetStats + k" by blast
  have "app_run ?a2 (map (DashEv 0) (replicate k (Timer IntervalTick))) = Some (?a2\<lparr>dash_insts := [d']\<rparr>)"
    using app_run_dash [of 0 ?a2 "replicate k (Timer IntervalTick)"] t(1) by (simp add: list_all_iff)
  moreover have "count_list (requests ?d2) GetStats = 2"
    by (simp add: dashboard_mount_def Let_def poll_errors_request_def)
  ultimately show ?thesis using r1 r2 t(2,3) rt by (simp add: map_replicate)
qed

theorem navigation_keeps_polling_witness:
  "\<exists>a'. app_run (app_load ''http://localhost:3000/dashboard'')
          ([DashEv 0 (Timer TimeoutFires), Navigate ''/dashboard/error/E1'']
           @ replicate 3 (DashEv 0 (Timer IntervalTick))) = Some a'
       \<and> count_list (requests (dash_insts a' ! 0)) GetStats = 5"
proof -
  have r: "app_route (url_pathname ''http://localhost:3000/dashboard'') = RouteDashboard"
    by (simp add: url_pathname_def app_route_def strip_trailing_slashes_def ascii_lower_def)
  show ?thesis
    using navigation_keeps_polling [OF r, of "''E1''" 3] by auto
qed

text \<open>
  C12.  Every return to the dashboard adds a poller: from a detail page, going back to
  the dashboard mounts a new instance, and once its first boundary has passed, each
  interval tick of the new instance and each tick of an earlier instance whose interval
  is running both send the poll requests, so the API is polled once per instance ever
  mounted.
\<close>

theorem revisit_adds_poller:
  assumes "app_route (app_path a) = RouteErrorDetail e" "detail_insts a \<noteq> []"
    and "dp_mounted (last (detail_insts a))"
    and "i < length (dash_insts a)" "interval_active (timers (dash_insts a ! i))"
  shows "\<exists>a'. app_run a ([Navigate ''/dashboard'', DashEv (length (dash_insts a)) (Timer TimeoutFires)]
                  @ replicate k (DashEv i (Timer IntervalTick))
                  @ replicate k (DashEv (length (dash_insts a)) (Timer IntervalTick))) = Some a'
           \<and> app_route (app_path a') = RouteDashboard
           \<and> length (dash_insts a') = Suc (length (dash_insts a))
           \<and> count_list (requests (dash_insts a' ! i)) GetStats
               = count_list (requests (dash_insts a ! i)) GetStats + k
           \<and> count_list (requests (dash_insts a' ! length (dash_insts a))) GetStats = k + 2"
proof -
  let ?n = "length (dash_insts a)" let ?dm = "dashboard_mount []"
  obtain dl where l: "detail_step (last (detail_insts a)) Leave = Some dl"
    using assms(3) by simp
  note pd = dashboard_address(1,3) and rd = dashboard_address(2)
  let ?a1 = "a\<lparr>app_path := ''/dashboard'', detail_insts := butlast (detail_insts a) @ [dl],
                dash_insts := dash_insts a @ [?dm]\<rparr>"
  have r1: "app_step a (Navigate ''/dashboard'') = Some ?a1"
    using assms(1,2) l pd rd
    by (auto simp: navigate_def unmount_route_def mount_route_def Let_def simp del: detail_step.simps
        split: list.splits)
  let ?d1 = "fetchData (?dm\<lparr>timers := (timers ?dm)\<lparr>timeout_pending := False, interval_active := True\<rparr>\<rparr>)"
  have s2: "dash_step ?dm (Timer TimeoutFires) = Some ?d1"
    by (simp add: dash_step.simps dashboard_mount_def Let_def sched_mount_def)
  let ?a2 = "?a1\<lparr>dash_insts := dash_insts a @ [?d1]\<rparr>"
  have r2: "app_step ?a1 (DashEv ?n (Timer TimeoutFires)) = Some ?a2"
    using s2 by simp
  obtain di where ti: "dash_run (dash_insts a ! i) (replicate k (Timer IntervalTick)) = Some di"
    "count_list (requests di) GetStats = count_list (requests (dash_insts a ! i)) GetStats + k"
    using interval_ticks_poll [OF assms(5), of k] by blast
  let ?a3 = "?a2\<lparr>dash_insts := (dash_insts a @ [?d1])[i := di]\<rparr>"
  have r3: "app_run ?a2 (map (DashEv i) (replicate k (Timer IntervalTick))) = Some ?a3"
    using app_run_dash [of i ?a2 "replicate k (Timer IntervalTick)"] ti(1) assms(4)
    by (simp add: list_all_iff nth_append)
  have ia: "interval_active (timers ?d1)" by simp
  obtain dn where tn: "dash_run ?d1 (replicate k (Timer IntervalTick)) = Some dn"
    "count_list (requests dn) GetStats = count_list (requests ?d1) GetStats + k"
    using interval_ticks_poll [OF ia, of k] by blast
  let ?a4 = "?a3\<lparr>dash_insts := ((dash_insts a @ [?d1])[i := di])[?n := dn]\<rparr>"
  have r4: "app_run ?a3 (map (DashEv ?n) (replicate k (Timer IntervalTick))) = Some ?a4"
    using app_run_dash [of ?n ?a3 "replicate k (Timer IntervalTick)"] tn(1) assms(4)
    by (simp add: list_all_iff nth_append)
  have c1: "count_list (requests ?d1) GetStats = 2"
    by (simp add: dashboard_mount_def Let_def poll_errors_request_def)
  have "app_run a ([Navigate ''/dashboard'', DashEv ?n (Timer TimeoutFires)]
                  @ replicate k (DashEv i (Timer IntervalTick))
                  @ replicate k (DashEv ?n (Timer IntervalTick))) = Some ?a4"
    using r3 r4 unfolding map_replicate
    by (simp only: append_Cons append_Nil app_run.simps r1 r2 option.case app_run_append)
  moreover have "dash_insts ?a4 ! i = di" "dash_insts ?a4 ! ?n = dn" "length (dash_insts ?a4) = Suc ?n"
    using assms(4) by (simp_all add: nth_list_update nth_append)
  ultimately show ?thesis using rd ti(2) tn(2) c1 by auto
qed

theorem revisit_adds_poller_witness:
  "\<exists>a'. app_run
          \<lparr>app_path = ''/dashboard/error/E1'',
           dash_insts = [fetchData (dashboard_mount []\<lparr>timers := \<lparr>timeout_pending = False,
                          interval_active = True, mounted = True\<rparr>\<rparr>)\<lparr>timers := \<lparr>timeout_pending = False,
                          interval_active = True, mounted = False\<rparr>\<rparr>],
           detail_insts = [detail_mount ''E1'']\<rparr>
          ([Navigate ''/dashboard'', DashEv 1 (Timer TimeoutFires)]
           @ replicate 2 (DashEv 0 (Timer IntervalTick)) @ replicate 2 (DashEv 1 (Timer IntervalTick)))
        = Some a'
       \<and> count_list (requests (dash_insts a' ! 0)) GetStats = 4
       \<and> count_list (requests (dash_insts a' ! 1)) GetStats = 4"
proof -
  let ?d = "fetchData (dashboard_mount []\<lparr>timers := \<lparr>timeout_pending = False,
                          interval_active = True, mounted = True\<rparr>\<rparr>)\<lparr>timers := \<lparr>timeout_pending = False,
                          interval_active = True, mounted = False\<rparr>\<rparr>"
  let ?a = "\<lparr>app_path = ''/dashboard/error/E1'', dash_insts = [?d], detail_insts = [detail_mount ''E1'']\<rparr>"
  have h1: "app_route (app_path ?a) = RouteErrorDetail ''E1''"
    using app_route_detail [of "''E1''"] by simp
  have h3: "dp_mounted (last (detail_insts ?a))" using mount_detail by simp
  have c: "count_list (requests ?d) GetStats = 2"
    by (simp add: dashboard_mount_def Let_def poll_errors_request_def)
  have h2: "detail_insts ?a \<noteq> []" "0 < length (dash_insts ?a)"
    "interval_active (timers (dash_insts ?a ! 0))" by simp_all
  have l: "length (dash_insts ?a) = 1" by simp
  obtain a' where r: "app_run ?a ([Navigate ''/dashboard'', DashEv 1 (Timer TimeoutFires)]
           @ replicate 2 (DashEv 0 (Timer IntervalTick)) @ replicate 2 (DashEv 1 (Timer IntervalTick))) = Some a'"
    "count_list (requests (dash_insts a' ! 0)) GetStats = count_list (requests (dash_insts ?a ! 0)) GetStats + 2"
    "count_list (requests (dash_insts a' ! 1)) GetStats = 2 + 2"
    using revisit_adds_poller [OF h1 h2(1) h3 h2(2,3), of 2] unfolding l by blast
  show ?thesis using r c by auto
qed



end
