(* ===== verification/Settle.thy ===== *)
theory Settle
  imports Dashboard
begin

text \<open>
  Quiescence of the dashboard.  The component has no loop of its own that could run
  forever besides its timers; what can stay open is the set of requests in flight.
  \<open>settle\<close> is a schedule of the environment: it delivers the outcome of the oldest
  poll in flight, then of the oldest detail request, until none is left, with the
  outcomes given by \<open>po\<close> and \<open>dr\<close>, and returns the final state with the events it
  delivered.  Its recursion is not structural; it terminates because each step removes
  one request from \<open>pending_polls\<close> or \<open>pending_details\<close>
  (\<open>poll_done\<close> and \<open>detail_done\<close> of \<open>Dashboard.js\<close> lines 49--61 and 73--79).
\<close>

function settle ::
  "(nat \<Rightarrow> poll_outcome) \<Rightarrow> (err_id \<Rightarrow> error_detail option) \<Rightarrow> dash \<Rightarrow> dash \<times> dash_event list" where
  "settle po dr s =
     (case pending_polls s of
        k # _ \<Rightarrow> apsnd (Cons (PollResult k (po k))) (settle po dr (poll_done s k (po k)))
      | [] \<Rightarrow>
          (case pending_details s of
             i # _ \<Rightarrow> apsnd (Cons (DetailResult i (dr i))) (settle po dr (detail_done s i (dr i)))
           | [] \<Rightarrow> (s, [])))"
  by pat_completeness auto

termination
  by (relation "measure (\<lambda>(po, dr, s). length (pending_polls s) + length (pending_details s))")
     (auto simp: length_remove1)

declare settle.simps [simp del]

lemma loading_pending: "dash_reach s \<Longrightarrow> mounted (timers s) \<Longrightarrow> loading s \<Longrightarrow> pending_polls s \<noteq> []"
proof (induction rule: dash_reach.induct)
  case (mount search)
  then show ?case by (simp add: dashboard_mount_def Let_def)
next
  case (step s e s')
  then show ?case
  proof (cases e)
    case (Timer x)
    with step show ?thesis by (cases x) (auto simp: step_Timer split: if_splits)
  next
    case (PollResult k r)
    with step show ?thesis
      by (auto simp: step_PollResult poll_done_def Let_def split: poll_outcome.splits if_splits)
  next
    case HighlightTimer
    with step show ?thesis by (auto simp: step_HighlightTimer)
  qed (use step in \<open>auto simp: dash_step_Some\<close>)
qed

lemma settle_props:
  "dash_run s (snd (settle po dr s)) = Some (fst (settle po dr s))
   \<and> pending_polls (fst (settle po dr s)) = [] \<and> pending_details (fst (settle po dr s)) = []
   \<and> timers (fst (settle po dr s)) = timers s
   \<and> (mounted (timers s) \<and> (pending_polls s \<noteq> [] \<or> \<not> loading s) \<longrightarrow> \<not> loading (fst (settle po dr s)))"
proof (induction po dr s rule: settle.induct)
  case (1 po dr s)
  show ?case
  proof (cases "pending_polls s")
    case (Cons k ks)
    then have eq: "settle po dr s = apsnd (Cons (PollResult k (po k))) (settle po dr (poll_done s k (po k)))"
      by (subst settle.simps) simp
    show ?thesis using 1(2) [OF Cons] Cons unfolding eq
      by (auto simp: dash_step.simps poll_done_def Let_def split: poll_outcome.splits)
  next
    case Nil
    show ?thesis
    proof (cases "pending_details s")
      case (Cons i js)
      then have eq: "settle po dr s = apsnd (Cons (DetailResult i (dr i))) (settle po dr (detail_done s i (dr i)))"
        using Nil by (subst settle.simps) simp
      show ?thesis using 1(1) [OF Nil Cons] Nil Cons unfolding eq by (auto simp: dash_step.simps)
    next
      case Nil2: Nil
      then have eq: "settle po dr s = (s, [])" using Nil by (subst settle.simps) simp
      show ?thesis using Nil Nil2 unfolding eq by simp
    qed
  qed
qed

text \<open>
  C14.  Every reachable state quiesces: settling the requests in flight, polls first and
  then detail requests, with any outcomes the environment chooses, is a terminating
  run of enabled events; it ends in a reachable state with nothing in flight, and on a
  mounted dashboard the spinner is off.
\<close>

theorem settle_quiesces:
  assumes "dash_reach s"
  shows "dash_run s (snd (settle po dr s)) = Some (fst (settle po dr s))
         \<and> dash_reach (fst (settle po dr s))
         \<and> pending_polls (fst (settle po dr s)) = [] \<and> pending_details (fst (settle po dr s)) = []
         \<and> (mounted (timers s) \<longrightarrow> \<not> loading (fst (settle po dr s)))"
proof -
  have p: "dash_run s (snd (settle po dr s)) = Some (fst (settle po dr s))"
    "pending_polls (fst (settle po dr s)) = []" "pending_details (fst (settle po dr s)) = []"
    "mounted (timers s) \<and> (pending_polls s \<noteq> [] \<or> \<not> loading s) \<longrightarrow> \<not> loading (fst (settle po dr s))"
    using settle_props [of s po dr] by simp_all
  have "mounted (timers s) \<longrightarrow> pending_polls s \<noteq> [] \<or> \<not> loading s"
    using loading_pending [OF assms] by blast
  with p(4) have l: "mounted (timers s) \<longrightarrow> \<not> loading (fst (settle po dr s))" by blast
  from assms p(1) have "dash_reach (fst (settle po dr s))" by (rule dash_run_reach)
  with p(1-3) l show ?thesis by blast
qed

theorem settle_quiesces_witness:
  "\<not> loading (fst (settle (\<lambda>k. PollRejected) (\<lambda>i. None) (dashboard_mount ''?highlight=A'')))
   \<and> pending_polls (fst (settle (\<lambda>k. PollRejected) (\<lambda>i. None) (dashboard_mount ''?highlight=A''))) = []"
proof -
  have m: "mounted (timers (dashboard_mount ''?highlight=A''))"
    by (simp add: dashboard_mount_def Let_def sched_mount_def)
  show ?thesis
    using settle_quiesces [OF dash_reach.mount [of "''?highlight=A''"], of "\<lambda>k. PollRejected" "\<lambda>i. None"] m
    by blast
qed

end
