(* ===== verification/Spec2Isabelle.thy ===== *)
theory Spec2Isabelle
  imports App Settle
begin

text \<open>
  A verification development of the RCA platform's monitoring console
  (\<open>src/frontend/src\<close>).  The core of the program is \<open>components/Dashboard.js\<close>:
  a refresh scheduler aligned to five-minute wall-clock boundaries, a lazily fetched
  detail cache for the expanded error card, the card's view state (collapsed, or
  expanded on one of six sub-views) and a deep-link highlighter driven by the
  \<open>highlight\<close> URL parameter.  The theories, leaves first:

  \<^item> \<open>Prelude\<close>: the JavaScript idioms the code relies on (\<open>x || []\<close>,
    \<open>x || 'N/A'\<close>, \<open>x || 0\<close> on absent JSON fields; the decimal text of an integer in
    template literals) and the \<open>model_simps\<close> collection of their equations.
  \<^item> \<open>Telemetry\<close>: the API's records (error group, trace, span, log, RCA report,
    error detail, stats) with absent fields as \<open>option\<close>, the identity type
    \<open>err_id\<close> (a JSON string or number) and the four requests with their URLs.
  \<^item> \<open>Scheduler\<close>: \<open>getTimeUntilNextSync\<close> (lines 82--91) over a clock reading in
    local milliseconds, and the timers of the fetch effect (lines 93--105) as the step
    function \<open>sched_step\<close> on a record \<open>sched\<close>.
  \<^item> \<open>DeepLink\<close>: the share link (line 464), the card's DOM id (line 418), and the
    browser's \<open>location.search\<close> and \<open>URLSearchParams.get\<close> (lines 28--29) after the
    URL standard's form-urlencoded parser, single-byte characters only.
  \<^item> \<open>Dashboard\<close>: the component as a deterministic step function \<open>dash_step\<close> on
    a record \<open>dash\<close> of its React state (lines 18--24), its timers, the DOM ring
    classes, the requests issued and those in flight.  Events are user clicks
    (refresh, toggle, sub-view), timer firings and the settling of requests, in any
    order the environment chooses; \<open>dash_reach\<close> is the set of reachable states.
    Handlers: \<open>fetchData\<close> and \<open>poll_done\<close> (lines 43--61),
    \<open>toggleErrorDetails\<close> and \<open>detail_done\<close> (lines 63--80), \<open>highlight_fire\<close> and
    \<open>dashboard_mount\<close> (lines 26--41, 93--105).  \<open>card_state\<close> reads the spec's
    per-card view state off the single expanded slot, and \<open>spec_toggle\<close> and
    \<open>spec_select\<close> are the spec's per-card machine, which the handlers refine.
  \<^item> \<open>Views\<close>: the render of the dashboard (lines 110--598) as pure functions of its
    state: the five sub-view renderers of the cached detail, the overview, the stats
    panel, each card's border, ring and expanded view, and the page
    \<open>dashboard_page\<close>.
  \<^item> \<open>Analytics\<close>: the data of the two charts of the page (lines 108 and
    360--399): the bars of \<open>env_bars\<close>, and the slices of \<open>service_pie\<close> with
    their share of the total, their \<open>toFixed(0)\<close> label and their colour.
  \<^item> \<open>DetailPage\<close>: \<open>components/ErrorDetail.js\<close> as the step function
    \<open>detail_step\<close> on a record \<open>detail_state\<close> of the route parameter and its
    hooks: the fetch effect \<open>fetchErrorDetails\<close>/\<open>fetch_settled\<close>, re-run by
    \<open>route_change\<close>, the tabs, the download \<open>downloadErrorData\<close>/\<open>download_settled\<close>
    and the render \<open>detail_page\<close> (spinner, not found, a \<open>TypeError\<close> out of the
    render, or the page); \<open>detail_reach\<close> is the set of reachable states.
  \<^item> \<open>Routing\<close>: the route table of \<open>App.js\<close> as \<open>app_route\<close> on the
    pathname of an address (\<open>url_pathname\<close>).
  \<^item> \<open>App\<close>: \<open>App.js\<close> and \<open>Navbar.js\<close>.  The navbar \<open>navbar_view\<close>, the link
    targets of the interface \<open>ui_links\<close>, and the shell as the step function
    \<open>app_step\<close> on a record \<open>app_state\<close> of the pathname and of every dashboard and
    detail page instance mounted so far.  \<open>navigate\<close> keeps the instance when the
    page kind is unchanged (a detail page receives the new \<open>:errorId\<close> through
    \<open>RouteTo\<close>), and otherwise unmounts the current instance and mounts a new one
    (\<open>unmount_route\<close>, \<open>mount_route\<close>); component events reach an instance by its
    index, so an unmounted dashboard keeps receiving its ticks.  A dashboard's highlight
    timeout (\<open>highlight_timeout\<close>) is delivered the same way, but its lookup
    (\<open>ring_card\<close>) acts on the dashboard in the document, the last instance.  The
    shell's invariant \<open>app_inv\<close> (exactly the last instance of the route's kind is
    mounted) holds in every reachable state; it belongs to the model of React's
    mounting and carries the shell's proofs, and does not depend on the route table.
  \<^item> \<open>Settle\<close>: \<open>settle\<close>, the environment's schedule that delivers every
    outstanding response of a dashboard; a \<open>function\<close> whose termination is proved
    by the number of requests in flight.

  The dashboard and the detail page share the data model and the requests but no
  state: each fetches on its own, and the only way between them is the address,
  which the shell turns into mounting and unmounting.

  Properties: the card machine's functional behaviour and its refinement of the spec's
  machine; the number of detail requests; the behaviour of polls, failed ones included;
  bounds and alignment of the sync delay; cancellation of the timers; the deep-link
  round trip; what a poll does to the page and the page's well-formedness; the pie's
  labels and colours; the detail page's invariant, that its spinner ends, its error
  states and its downloads; the agreement of the detail page's tabs with the
  dashboard's sub-views outside the duration column; the route round trip for
  parameters without \<open>%\<close>; quiescence of the requests in flight; runs of the shell
  across navigation.  Several theorems state what the code does where it departs from
  the spec: the delay is \<open>0\<close> off the boundary inside a slot's first minute, the
  interval is never cleared and keeps polling after the dashboard is left, each return
  to the dashboard adds one more poller, a left dashboard's highlight timeout rings a
  card of the next dashboard, two polls settled out of order leave the older on
  screen, a poll without an \<open>errors\<close> field empties the list, a late detail response is
  shown under another card, a small share is labelled 0%, a network failure on the
  detail page reads as "not found", a failed refetch after a route change shows the
  previous error and a late body of the previous id overwrites the new one, a body
  missing a list crashes the detail page, the detail page shows seconds as
  milliseconds, and no link leads to it.

  Not modelled: markup and styling, the drawing of the charts by recharts (their data
  is modelled), date and number formatting, doubles (shares are exact rationals); the transport
  (requests are recorded, their outcomes are the environment's choice); the Blob and
  object URL of the download; the scroll of the highlighted card; percent-decoding of the route parameter, whose place
  (per parameter or on the whole path) differs between React Router versions, and the
  repository pins no version.  There is no fuel or bound: every handler is a total
  function, runs are finite lists of events, and the one recursion that is not
  structural, \<open>settle\<close>, has a termination proof.
\<close>

section \<open>The two renderings of an error's detail\<close>

text \<open>
  The dashboard's sub-views (\<open>Views\<close>) and the detail page's tabs (\<open>DetailPage\<close>)
  render the same body of \<open>GET errors/{id}\<close>.  \<open>tab_view\<close> pairs each tab with the
  sub-view that shows the same data, and \<open>agrees\<close> states what the two must have in
  common: the same empty states, the same counts, the same traces in order, the same
  spans in order (read by their start times), the same number of logs, the same RCA
  text.  The duration column is not among them: the two pages print it in different
  units (seconds on the detail page, milliseconds on the dashboard), so no agreement of the printed cells holds.
\<close>


fun tab_view :: "detail_tab \<Rightarrow> sub_view" where
  "tab_view TabOverview = Correlation"
| "tab_view TabTraces = Traces"
| "tab_view TabSpans = Spans"
| "tab_view TabLogs = Logs"
| "tab_view TabRCA = RCA"

fun agrees :: "tab_body \<Rightarrow> view_out \<Rightarrow> bool" where
  "agrees (TabEmpty _) (EmptyState _) = True"
| "agrees (OverviewCounts a b c _) (CorrelationPanel _ a' b' c') = (a = a' \<and> b = b' \<and> c = c')"
| "agrees (TraceList xs) (TracesTable ys) = (map fst xs = map fst ys)"
| "agrees (SpanTable xs) (SpansTable ys) = (map (\<lambda>(op, tid, dur, st). st) xs = map sr_start ys)"
| "agrees (LogList xs) (LogsTable ys) = (length xs = length ys)"
| "agrees (RCAPanel a _) (RCAText b) = (a = b)"
| "agrees _ _ = False"


section \<open>Properties of the page across components\<close>

text \<open>
  C30.  Spec section 8: after a successful poll, a failed one leaves the page exactly as
  it was: the stats panel, every card with its border, ring and expanded view.
\<close>

theorem failed_poll_page_unchanged:
  assumes "\<not> loading s" and "dash_step s (PollResult k PollRejected) = Some s'"
  shows "dashboard_page s' = dashboard_page s"
proof -
  from assms(2) have s': "s' = poll_done s k PollRejected" by (simp add: step_PollResult)
  show ?thesis
  proof (cases "mounted (timers s)")
    case True
    with assms(1) s' have "s' = s\<lparr>pending_polls := remove1 k (pending_polls s)\<rparr>"
      by (simp add: poll_done_def Let_def)
    then show ?thesis
      by (simp add: dashboard_page_def render_card_def card_border_def)
  next
    case False
    with s' have "s' = s\<lparr>pending_polls := remove1 k (pending_polls s)\<rparr>"
      by (simp add: poll_done_def Let_def)
    then show ?thesis
      by (simp add: dashboard_page_def render_card_def card_border_def)
  qed
qed

theorem failed_poll_page_unchanged_witness:
  "dashboard_page (poll_done (fetchData sample_loaded) 1 PollRejected)
     = dashboard_page (fetchData sample_loaded)
   \<and> dashboard_page (fetchData sample_loaded) \<noteq> Spinner"
proof -
  have h1: "\<not> loading (fetchData sample_loaded)" by (simp add: sample_loaded_fields)
  have h2: "dash_step (fetchData sample_loaded) (PollResult 1 PollRejected)
              = Some (poll_done (fetchData sample_loaded) 1 PollRejected)"
    by (simp add: step_PollResult sample_loaded_fields)
  show ?thesis using failed_poll_page_unchanged [OF h1 h2]
    by (simp add: dashboard_page_def sample_loaded_fields)
qed

text \<open>
  Spec section 8: a background poll that keeps a card keeps what that card shows
  when expanded: the same sub-view over the same cached detail.
\<close>

lemma poll_keeps_card_view:
  assumes "dash_step s (PollResult k r) = Some s'" and "e \<in> set (errors s')"
  shows "cv_details (render_card s' e) = cv_details (render_card s e)"
  using assms by (simp add: step_PollResult render_card_def)

theorem poll_keeps_card_view_witness:
  "cv_details (render_card (poll_done (fetchData (toggleErrorDetails sample_loaded (IdStr ''A''))) 1
        (PollBodies (Some [sample_group ''A'']) empty_stats)) (sample_group ''A''))
   = Some (OverviewPanel ''prod'' ''checkout'' ''TimeoutError'' 3 ''2024-05-01T10:00:00''
             ''2024-05-01T10:05:00'')"
proof -
  let ?s = "fetchData (toggleErrorDetails sample_loaded (IdStr ''A''))"
  let ?r = "PollBodies (Some [sample_group ''A'']) empty_stats"
  have h1: "dash_step ?s (PollResult 1 ?r) = Some (poll_done ?s 1 ?r)"
    by (simp add: step_PollResult sample_loaded_fields)
  have h2: "sample_group ''A'' \<in> set (errors (poll_done ?s 1 ?r))"
    by (simp add: poll_done_def Let_def sample_loaded_fields sched_mount_def)
  have "cv_details (render_card ?s (sample_group ''A''))
        = Some (OverviewPanel ''prod'' ''checkout'' ''TimeoutError'' 3 ''2024-05-01T10:00:00''
             ''2024-05-01T10:05:00'')"
    by (simp add: render_card_def toggleErrorDetails_def sample_loaded_fields sample_group_def
        renderOverview_def)
  with poll_keeps_card_view [OF h1 h2] show ?thesis by simp
qed

text \<open>
  Selecting a sub-view re-renders only the expanded card, on the chosen view over
  the cached detail; every other card is shown as before.
\<close>

lemma select_view_page:
  assumes "dash_step s (SelectView i v) = Some s'" and "e \<in> set (errors s)"
  shows "render_card s' e =
           (if eg_id e = i
            then (render_card s e)\<lparr>cv_details := Some (render_view v e (detailedErrorData s))\<rparr>
            else render_card s e)"
  using assms by (auto simp: step_SelectView render_card_def card_border_def)

theorem select_view_page_witness:
  "cv_details (render_card ((toggleErrorDetails sample_loaded (IdStr ''A''))\<lparr>activeView := Spans\<rparr>)
                 (sample_group ''A''))
   = Some (EmptyState ''No spans found'')"
proof -
  let ?s = "toggleErrorDetails sample_loaded (IdStr ''A'')"
  have e: "expandedError ?s = Some (IdStr ''A'')"
    by (simp add: toggleErrorDetails_def sample_loaded_fields)
  have r: "card_rendered ?s (IdStr ''A'')"
    using sample_loaded_rendered(1) by (simp add: card_rendered_def rendered_def card_ids_def)
  have h1: "dash_step ?s (SelectView (IdStr ''A'') Spans) = Some (?s\<lparr>activeView := Spans\<rparr>)"
    by (simp add: step_SelectView r e)
  have h2: "sample_group ''A'' \<in> set (errors ?s)" by (simp add: sample_loaded_fields)
  have d: "detailedErrorData ?s = empty_detail"
    by (simp add: toggleErrorDetails_def sample_loaded_fields)
  show ?thesis using select_view_page [OF h1 h2]
    by (simp add: render_card_def d e sample_group_def renderSpansView_def empty_detail_def)
qed

section \<open>Properties of the routes across components\<close>

text \<open>
  C39.  Every link the interface renders leads to the dashboard: the navbar's links, the
  detail page's back links and every card's share link (for an origin of the form
  \<open>scheme://host\<close>).  No link leads to the detail page, which is reached only by
  typing its address.
\<close>

theorem ui_links_route_dashboard:
  assumes "CHR '':'' \<notin> set sch" "CHR ''?'' \<notin> set sch" "CHR ''#'' \<notin> set sch"
    and "CHR ''/'' \<notin> set host" "CHR ''?'' \<notin> set host" "CHR ''#'' \<notin> set host"
  shows "\<forall>u \<in> set (ui_links (sch @ ''://'' @ host) ids). app_route (url_pathname u) = RouteDashboard"
proof -
  have d: "app_route ''/dashboard'' = RouteDashboard"
    by (simp add: app_route_def strip_trailing_slashes_def ascii_lower_def)
  have fixed: "app_route (url_pathname ''/'') = RouteDashboard"
              "app_route (url_pathname ''/dashboard'') = RouteDashboard"
    by (simp_all add: url_pathname_def app_route_def strip_trailing_slashes_def ascii_lower_def)
  have "\<And>i. app_route (url_pathname (share_link (sch @ ''://'' @ host) i)) = RouteDashboard"
    using url_pathname_share [OF assms] d by simp
  with fixed show ?thesis by (auto simp: ui_links_def navbar_view_def detail_back_links_def)
qed

theorem ui_links_route_dashboard_witness:
  "map (\<lambda>u. app_route (url_pathname u)) (ui_links ''http://localhost:3000'' [IdStr ''E1'', IdNum 7])
     = [RouteDashboard, RouteDashboard, RouteDashboard, RouteDashboard, RouteDashboard,
        RouteDashboard]"
  using ui_links_route_dashboard [of "''http''" "''localhost:3000''" "[IdStr ''E1'', IdNum 7]"]
  by (simp add: ui_links_def navbar_view_def detail_back_links_def del: app_route_def)

text \<open>
  C15.  The detail page and the dashboard agree on every body the detail page shows:
  each tab agrees with its sub-view on the empty state, the counts, the trace order,
  the spans' order and start times, the number of logs and the RCA text.  The spans'
  durations are the exception, stated next.
\<close>

theorem detail_tabs_agree:
  assumes "render_detail i t d = DetailShown v"
  shows "agrees (dv_body v) (render_view (tab_view t) e d)"
proof -
  from assms obtain ts sps lgs g where f: "dt_traces d = Some ts" "dt_spans d = Some sps"
    "dt_logs d = Some lgs" "dt_error d = Some g"
    and v: "dv_body v = render_tab t ts sps lgs (dt_rca_report d)"
    by (auto simp: render_detail_def split: option.splits)
  show ?thesis
    unfolding v using f
    by (cases t)
       (auto simp: overview_tab_def traces_tab_def spans_tab_def logs_tab_def rca_tab_def
          renderTracesView_def renderSpansView_def renderLogsView_def renderCorrelationView_def
          renderRCAView_def span_row_of_def Let_def split: option.splits)
qed

theorem detail_tabs_agree_witness:
  "agrees (dv_body (case render_detail ''A'' TabOverview (sample_detail_body ''A'') of
                      DetailShown v \<Rightarrow> v))
     (render_view Correlation (sample_group ''A'') (sample_detail_body ''A''))"
proof -
  obtain v where h: "render_detail ''A'' TabOverview (sample_detail_body ''A'') = DetailShown v"
    by (simp add: render_detail_def sample_detail_body_def)
  show ?thesis using detail_tabs_agree [OF h] h by simp
qed

text \<open>
  C17.  Spec section 3: a span's duration is in seconds and is rendered as ms.  The
  dashboard shows \<open>1000 x\<close> ms for a duration of \<open>x\<close> seconds; the detail page
  prints the seconds themselves followed by "ms" (\<open>ErrorDetail.js\<close> line 273).
\<close>

theorem detail_duration_unit:
  assumes "x \<noteq> 0"
  shows "spans_tab [sp\<lparr>sp_duration := Some x\<rparr>] = SpanTable [(text_of (sp_operation_name sp),
            text_of (sp_trace_id sp), Some x, or_na (sp_start_time sp))]
         \<and> sr_duration (span_row_of (sp\<lparr>sp_duration := Some x\<rparr>)) = DurMs (1000 * x)"
  using assms by (simp add: spans_tab_def span_row_of_def duration_cell_def mult.commute)

theorem detail_duration_unit_witness:
  "spans_tab [\<lparr>sp_trace_id_hex = None, sp_trace_id = Some ''t1'', sp_span_id = ''s1'',
               sp_operation_name = Some ''GET'', sp_duration = Some (1/4), sp_start_time = None,
               sp_tags = None\<rparr>]
     = SpanTable [(''GET'', ''t1'', Some (1/4), ''N/A'')]
   \<and> sr_duration (span_row_of \<lparr>sp_trace_id_hex = None, sp_trace_id = Some ''t1'', sp_span_id = ''s1'',
               sp_operation_name = Some ''GET'', sp_duration = Some (1/4), sp_start_time = None,
               sp_tags = None\<rparr>) = DurMs 250"
  using detail_duration_unit [of "1/4" "\<lparr>sp_trace_id_hex = None, sp_trace_id = Some ''t1'', sp_span_id = ''s1'',
               sp_operation_name = Some ''GET'', sp_duration = None, sp_start_time = None,
               sp_tags = None\<rparr>"]
  by (simp add: text_of_def)

end
